theory Spec2Isabelle
  imports Complex_Main "HOL-Library.Word" "HOL-Library.Signed_Division"
begin

section \<open>The ATA SNAP voltage thread: block assembly\<close>

text \<open>
  A shallow embedding of \<^verbatim>\<open>src/hpguppi_atasnap_voltage_thread.c\<close>. C integers are
  words of their width: \<^verbatim>\<open>uint64_t\<close> and \<^verbatim>\<open>int64_t\<close> are \<open>64 word\<close>,
  \<^verbatim>\<open>uint32_t\<close> and \<^verbatim>\<open>int\<close> are \<open>32 word\<close>; \<open>+\<close>, \<open>-\<close> and \<open>*\<close> wrap, a signed
  reading is \<open>sint\<close>, an unsigned one \<open>uint\<close> or \<open>unat\<close>, a signed comparison compares
  \<open>sint\<close>, an unsigned one is \<open><\<close> on words. Conversions follow C: widening a signed
  value is \<open>scast\<close>, widening an unsigned one and every narrowing is \<open>ucast\<close>.
\<close>

type_synonym u64 = "64 word"
type_synonym i64 = "64 word"
type_synonym u32 = "32 word"
type_synonym i32 = "32 word"
type_synonym u16 = "16 word"

text \<open>
  A \<^verbatim>\<open>double\<close> in a variable or a card is its 64 bits; the arithmetic on doubles is
  that of the section on double arithmetic below.
\<close>

type_synonym dbl = "64 word"

subsection \<open>Decimal output of \<^verbatim>\<open>sprintf\<close>\<close>

definition digit_char :: "nat \<Rightarrow> char" where
  "digit_char n = ''0123456789'' ! n"

function show_nat :: "nat \<Rightarrow> string" where
  "show_nat n = (if n < 10 then [digit_char n]
                 else show_nat (n div 10) @ [digit_char (n mod 10)])"
  by pat_completeness auto
termination
  by (relation "measure id") auto

declare show_nat.simps [simp del]

definition show_int :: "int \<Rightarrow> string" where
  "show_int i = (if i < 0 then CHR ''-'' # show_nat (nat (- i)) else show_nat (nat i))"

subsection \<open>Status buffer and block headers\<close>

text \<open>
  The status buffer and each block header are FITS-style key/value cards, written
  with \<^verbatim>\<open>hput*\<close> and read with \<^verbatim>\<open>hget*\<close> of the hashpipe library. A getter leaves
  its output variable as it was when the key is absent; here also when the card does
  not hold a value of the getter's kind. An integer getter reduces the value of the
  card to its width. A \<^verbatim>\<open>float\<close> written by \<^verbatim>\<open>hputr4\<close> is kept as its 32 bits.
\<close>

datatype hval = HInt int | HStr string | HDbl dbl

type_synonym cards = "string \<rightharpoonup> hval"

definition hgetu4 :: "cards \<Rightarrow> string \<Rightarrow> u32 \<Rightarrow> u32" where
  "hgetu4 buf k v = (case buf k of Some (HInt i) \<Rightarrow> word_of_int i | _ \<Rightarrow> v)"

definition hgetu8 :: "cards \<Rightarrow> string \<Rightarrow> u64 \<Rightarrow> u64" where
  "hgetu8 buf k v = (case buf k of Some (HInt i) \<Rightarrow> word_of_int i | _ \<Rightarrow> v)"

definition hgetr8 :: "cards \<Rightarrow> string \<Rightarrow> dbl \<Rightarrow> dbl" where
  "hgetr8 buf k v = (case buf k of Some (HDbl d) \<Rightarrow> d | _ \<Rightarrow> v)"

definition hgets :: "cards \<Rightarrow> string \<Rightarrow> string \<Rightarrow> string" where
  "hgets buf k v = (case buf k of Some (HStr s) \<Rightarrow> s | _ \<Rightarrow> v)"

definition hputu4 :: "cards \<Rightarrow> string \<Rightarrow> u32 \<Rightarrow> cards" where
  "hputu4 buf k v = buf(k \<mapsto> HInt (uint v))"

definition hputi4 :: "cards \<Rightarrow> string \<Rightarrow> i32 \<Rightarrow> cards" where
  "hputi4 buf k v = buf(k \<mapsto> HInt (sint v))"

definition hputu8 :: "cards \<Rightarrow> string \<Rightarrow> u64 \<Rightarrow> cards" where
  "hputu8 buf k v = buf(k \<mapsto> HInt (uint v))"

definition hputi8 :: "cards \<Rightarrow> string \<Rightarrow> i64 \<Rightarrow> cards" where
  "hputi8 buf k v = buf(k \<mapsto> HInt (sint v))"

definition hputr8 :: "cards \<Rightarrow> string \<Rightarrow> dbl \<Rightarrow> cards" where
  "hputr8 buf k v = buf(k \<mapsto> HDbl v)"

definition hputr4 :: "cards \<Rightarrow> string \<Rightarrow> u32 \<Rightarrow> cards" where
  "hputr4 buf k v = buf(k \<mapsto> HDbl (ucast v))"

definition hputs :: "cards \<Rightarrow> string \<Rightarrow> string \<Rightarrow> cards" where
  "hputs buf k v = buf(k \<mapsto> HStr v)"

subsection \<open>The output data buffer\<close>

text \<open>
  Modelled from the spec: the ring operations \<^verbatim>\<open>hpguppi_input_databuf_set_filled\<close>,
  \<^verbatim>\<open>hpguppi_input_databuf_wait_free\<close> and \<^verbatim>\<open>hpguppi_input_databuf_total_status\<close> (of
  \<^verbatim>\<open>hpguppi_databuf.c\<close>) are not among the sources. By the specification, the output
  ring has a fixed number of blocks, each with a header and a data area and a state
  that is free or filled; the ingest waits for a block to be free, writes header and
  data, and sets it filled for the consumer.

  So the output databuf is a ring of \<open>n_block\<close> blocks, each with a header, a data
  area and a filled flag. The data area is addressed in units of \<^verbatim>\<open>uint16_t\<close>
  relative to its first unit, with 64-bit pointer arithmetic: an offset that the
  arithmetic takes below 0 or beyond the block is a store outside the block, kept
  here at that offset.
\<close>

type_synonym blockdata = "u64 \<Rightarrow> u16"

record databuf =
  n_block :: i32
  header :: "i32 \<Rightarrow> cards"
  data :: "i32 \<Rightarrow> blockdata"
  filled :: "i32 \<Rightarrow> bool"

datatype error =
    ThreadExit    \<comment> \<open>\<^verbatim>\<open>pthread_exit(NULL)\<close> after \<^verbatim>\<open>hashpipe_error\<close>\<close>
  | DivByZero     \<comment> \<open>integer division by zero\<close>
  | WaitsForever  \<comment> \<open>the wait for a free block never returns\<close>

subsection \<open>\<^verbatim>\<open>struct block_info\<close>\<close>

text \<open>
  \<^verbatim>\<open>dbout\<close> is the same databuf for both working blocks and is passed beside the
  record; \<^verbatim>\<open>dbin\<close> is never used.
\<close>

record block_info =
  block_idx_out :: i32
  block_num :: i64
  pktidx_per_block :: u64
  pkts_per_block :: u64
  npacket :: u32
  ndrop :: u32

definition reset_block_info_stats :: "block_info \<Rightarrow> block_info" where
  "reset_block_info_stats bi = bi\<lparr>npacket := 0, ndrop := 0\<rparr>"

text \<open>
  \<^verbatim>\<open>init_block_info\<close>; the \<^verbatim>\<open>dbout\<close> argument only rebinds the pointer and has no
  counterpart here.
\<close>

definition init_block_info :: "block_info \<Rightarrow> i32 \<Rightarrow> i64 \<Rightarrow> u64 \<Rightarrow> block_info" where
  "init_block_info bi idx bnum ppb =
     (let bi1 = (if 0 \<le> sint idx then bi\<lparr>block_idx_out := idx\<rparr> else bi);
          bi2 = bi1\<lparr>block_num := bnum\<rparr>;
          bi3 = (if 0 < ppb then bi2\<lparr>pkts_per_block := ppb\<rparr> else bi2)
      in reset_block_info_stats bi3)"

text \<open>
  \<^verbatim>\<open>finalize_block\<close> and \<^verbatim>\<open>increment_block\<close>. The messages of \<^verbatim>\<open>hashpipe_error\<close> before a
  thread exit, and the warning of \<^verbatim>\<open>increment_block\<close> about a negative slot index, are
  log output only and are not kept.
\<close>

definition dropstat :: "block_info \<Rightarrow> string" where
  "dropstat bi = show_int (sint (ndrop bi)) @ ''/'' @ show_nat (unat (pkts_per_block bi))"

definition finalize_block :: "block_info \<Rightarrow> databuf \<Rightarrow> error + (block_info \<times> databuf)" where
  "finalize_block bi db =
     (if sint (block_idx_out bi) < 0 then Inl ThreadExit
      else
        let bi' = (if ucast (npacket bi) < pkts_per_block bi
                   then bi\<lparr>ndrop := ucast (pkts_per_block bi - ucast (npacket bi))\<rparr>
                   else bi);
            h0 = header db (block_idx_out bi');
            h1 = hputi8 h0 ''PKTIDX'' (block_num bi' * pktidx_per_block bi');
            h2 = hputi4 h1 ''NPKT'' (npacket bi');
            h3 = hputi4 h2 ''NDROP'' (ndrop bi');
            h4 = hputs h3 ''DROPSTAT'' (dropstat bi')
        in Inr (bi', db\<lparr>header := (header db)(block_idx_out bi' := h4),
                         filled := (filled db)(block_idx_out bi' := True)\<rparr>))"

definition increment_block :: "block_info \<Rightarrow> databuf \<Rightarrow> i64 \<Rightarrow> error + block_info" where
  "increment_block bi db bnum =
     (if sint (n_block db) < 1 then Inl ThreadExit
      else Inr (reset_block_info_stats
                  (bi\<lparr>block_idx_out :=
                         word_of_int (sint (block_idx_out bi + 1) smod sint (n_block db)),
                       block_num := bnum\<rparr>)))"

subsection \<open>Observation and packet metadata\<close>

text \<open>
  \<^verbatim>\<open>struct ata_snap_obs_info\<close> and \<^verbatim>\<open>struct ata_snap_feng_info\<close> are declared in
  \<^verbatim>\<open>hpguppi_atasnap.h\<close>; their fields have the types with which this file reads and
  prints them. A frame is a parsed packet: the metadata that
  \<^verbatim>\<open>ata_snap_parse_ibv_packet\<close> extracts, the size of its UDP payload in bytes, and
  the payload as the \<^verbatim>\<open>uint16_t\<close> units found from the payload pointer on.
\<close>

record obs_info =
  fenchan :: u32
  nants :: u32
  nstrm :: u32
  pkt_ntime :: u32
  pkt_nchan :: u32
  schan :: i32

record feng_info =
  pktidx :: u64
  feng_id :: u64
  feng_chan :: u64

record frame =
  info :: feng_info
  payload_size :: nat
  payload :: "nat \<Rightarrow> u16"

subsection \<open>\<^verbatim>\<open>copy_packet_data_to_databuf\<close>\<close>

text \<open>
  The first argument of the stride functions is the macro
  \<^verbatim>\<open>ATA_SNAP_PKT_SIZE_PAYLOAD\<close> (the payload size in bytes, an \<^verbatim>\<open>int\<close> constant of
  \<^verbatim>\<open>hpguppi_atasnap.h\<close>).
\<close>

definition ostride :: "block_info \<Rightarrow> obs_info \<Rightarrow> u64" where
  "ostride bi oi = pktidx_per_block bi * ucast (pkt_ntime oi)"

definition stream_stride :: "i32 \<Rightarrow> block_info \<Rightarrow> i32" where
  "stream_stride pl bi = ucast (scast pl * pktidx_per_block bi :: u64)"

definition fid_stride :: "i32 \<Rightarrow> block_info \<Rightarrow> obs_info \<Rightarrow> i32" where
  "fid_stride pl bi oi = stream_stride pl bi * nstrm oi"

definition pktidx_stride :: "obs_info \<Rightarrow> i32" where
  "pktidx_stride oi = pkt_nchan oi"

definition stream :: "obs_info \<Rightarrow> feng_info \<Rightarrow> i32" where
  "stream oi fei = ucast ((feng_chan fei - scast (schan oi)) div ucast (pkt_nchan oi))"

definition dst_base_offset :: "i32 \<Rightarrow> block_info \<Rightarrow> obs_info \<Rightarrow> feng_info \<Rightarrow> u64" where
  "dst_base_offset pl bi oi fei =
     feng_id fei * scast (fid_stride pl bi oi)
     + scast (stream oi fei * stream_stride pl bi)
     + (pktidx fei - pktidx_per_block bi) * scast (pktidx_stride oi)"

text \<open>
  The inner loop over \<open>c\<close>: \<open>n\<close> channels are left, \<open>si\<close> is the index of \<^verbatim>\<open>src\<close> in
  the payload and \<open>dst\<close> the offset of \<^verbatim>\<open>dst\<close> in the block.
\<close>

fun copy_chans :: "nat \<Rightarrow> u64 \<Rightarrow> (nat \<Rightarrow> u16) \<Rightarrow> nat \<Rightarrow> u64 \<Rightarrow> blockdata \<Rightarrow> blockdata" where
  "copy_chans 0 os src si dst mem = mem"
| "copy_chans (Suc n) os src si dst mem =
     copy_chans n os src (Suc si) (dst + os) (mem(dst := src si))"

text \<open>The outer loop over \<open>t\<close>: \<open>n\<close> time samples are left.\<close>

fun copy_times :: "nat \<Rightarrow> nat \<Rightarrow> u64 \<Rightarrow> (nat \<Rightarrow> u16) \<Rightarrow> nat \<Rightarrow> u64 \<Rightarrow> blockdata \<Rightarrow> blockdata" where
  "copy_times 0 nc os src si dst_base mem = mem"
| "copy_times (Suc n) nc os src si dst_base mem =
     copy_times n nc os src (si + nc) (dst_base + 1) (copy_chans nc os src si dst_base mem)"

definition copy_packet_data_to_databuf ::
  "i32 \<Rightarrow> block_info \<Rightarrow> obs_info \<Rightarrow> feng_info \<Rightarrow> (nat \<Rightarrow> u16) \<Rightarrow> databuf \<Rightarrow> error + databuf" where
  "copy_packet_data_to_databuf pl bi oi fei p_payload db =
     (if pkt_nchan oi = 0 then Inl DivByZero
      else Inr (db\<lparr>data := (data db)(block_idx_out bi :=
                  copy_times (unat (pkt_ntime oi)) (unat (pkt_nchan oi)) (ostride bi oi)
                    p_payload 0 (dst_base_offset pl bi oi fei)
                    (data db (block_idx_out bi)))\<rparr>))"

text \<open>
  The address math in the words of the specification, over the integers, in units
  of 16 bits.
\<close>

definition spec_stream_stride :: "int \<Rightarrow> int \<Rightarrow> int" where
  "spec_stream_stride payload_bytes piperblk = payload_bytes div 2 * piperblk"

definition spec_base_offset :: "int \<Rightarrow> int \<Rightarrow> obs_info \<Rightarrow> feng_info \<Rightarrow> int" where
  "spec_base_offset payload_bytes piperblk oi fei =
     uint (feng_id fei) * (spec_stream_stride payload_bytes piperblk * uint (nstrm oi))
     + ((uint (feng_chan fei) - sint (schan oi)) div uint (pkt_nchan oi))
         * spec_stream_stride payload_bytes piperblk
     + (uint (pktidx fei) mod piperblk) * uint (pkt_nchan oi)"

subsection \<open>Double arithmetic\<close>

text \<open>
  The arithmetic of \<^verbatim>\<open>double\<close> is IEEE 754 binary64 with rounding to nearest, ties to
  even, each operation rounded once (as the SSE2 instructions of x86-64 compute it). A
  value is finite with a sign and a magnitude (so that there are two zeros), infinite
  with a sign, or not a number; the payload of a NaN is not kept.
\<close>

datatype fval = Finite bool real | Infinite bool | NaN

text \<open>
  \<open>pow2 k\<close> is \<open>2\<^sup>k\<close>. For \<open>x > 0\<close>, \<open>ilog2 x\<close> is the exponent \<open>e\<close> with
  \<open>2\<^sup>e \<le> x < 2\<^sup>e\<^sup>+\<^sup>1\<close>, found by halving or doubling \<open>x\<close> until it lies between 1 and 2.
\<close>

definition pow2 :: "int \<Rightarrow> real" where
  "pow2 k = (if 0 \<le> k then 2 ^ nat k else 1 / 2 ^ nat (- k))"

function halvings :: "real \<Rightarrow> int" where
  "halvings x = (if x < 2 then 0 else 1 + halvings (x / 2))"
  by pat_completeness auto
termination
proof (relation "measure (\<lambda>x. nat \<lfloor>x\<rfloor>)")
  show "wf (measure (\<lambda>x::real. nat \<lfloor>x\<rfloor>))" by simp
next
  fix x :: real
  assume "\<not> x < 2"
  then have "x / 2 \<le> x - 1" by simp
  then have "\<lfloor>x / 2\<rfloor> \<le> \<lfloor>x - 1\<rfloor>" by (rule floor_mono)
  moreover have "1 \<le> \<lfloor>x\<rfloor>" using \<open>\<not> x < 2\<close> by (simp add: le_floor_iff)
  ultimately show "(x / 2, x) \<in> measure (\<lambda>x. nat \<lfloor>x\<rfloor>)" by simp
qed

declare halvings.simps [simp del]

function doublings :: "real \<Rightarrow> int" where
  "doublings x = (if x \<le> 0 \<or> 1 \<le> x then 0 else 1 + doublings (2 * x))"
  by pat_completeness auto
termination
proof (relation "measure (\<lambda>x. nat \<lfloor>1 / x\<rfloor>)")
  show "wf (measure (\<lambda>x::real. nat \<lfloor>1 / x\<rfloor>))" by simp
next
  fix x :: real
  assume a: "\<not> (x \<le> 0 \<or> 1 \<le> x)"
  define y where "y = 1 / x"
  have y: "1 < y" using a by (simp add: y_def)
  have fl: "\<lfloor>y / 2\<rfloor> < \<lfloor>y\<rfloor>"
  proof (cases "y < 2")
    case True
    then have "y / 2 < 1" by simp
    moreover have "0 \<le> y / 2" using y by simp
    ultimately have "\<lfloor>y / 2\<rfloor> = 0" by (simp add: floor_eq_iff)
    moreover have "1 \<le> \<lfloor>y\<rfloor>" using y by (simp add: le_floor_iff)
    ultimately show ?thesis by simp
  next
    case False
    then have "y / 2 \<le> y - 1" by simp
    then have "\<lfloor>y / 2\<rfloor> \<le> \<lfloor>y - 1\<rfloor>" by (rule floor_mono)
    then show ?thesis by simp
  qed
  have pos: "0 < \<lfloor>y\<rfloor>" using y by (simp add: less_floor_iff)
  have e: "1 / (2 * x) = y / 2" by (simp add: y_def)
  have l: "nat \<lfloor>y / 2\<rfloor> < nat \<lfloor>y\<rfloor>" using fl pos by simp
  show "(2 * x, x) \<in> measure (\<lambda>x. nat \<lfloor>1 / x\<rfloor>)"
    unfolding in_measure e y_def [symmetric] by (rule l)
qed

declare doublings.simps [simp del]

definition ilog2 :: "real \<Rightarrow> int" where
  "ilog2 x = (if 1 \<le> x then halvings x else - doublings x)"

text \<open>
  Rounding to an integer, ties to even; and rounding a magnitude to binary64: to 53
  significant bits, or to a multiple of \<open>2\<^sup>-\<^sup>1\<^sup>0\<^sup>7\<^sup>4\<close> below \<open>2\<^sup>-\<^sup>1\<^sup>0\<^sup>2\<^sup>2\<close>; there is no result
  when the rounded magnitude reaches \<open>2\<^sup>1\<^sup>0\<^sup>2\<^sup>4\<close> (overflow to infinity).
\<close>

definition rne :: "real \<Rightarrow> int" where
  "rne q = (let f = \<lfloor>q\<rfloor>; r = q - of_int f
            in if r < 1 / 2 then f else if 1 / 2 < r then f + 1
               else if even f then f else f + 1)"

definition round_mag :: "real \<Rightarrow> real option" where
  "round_mag x =
     (if x = 0 then Some 0
      else let e = max (ilog2 x) (- 1022);
               y = of_int (rne (x / pow2 (e - 52))) * pow2 (e - 52)
           in if y < 2 ^ 1024 then Some y else None)"

definition d_round :: "bool \<Rightarrow> real \<Rightarrow> fval" where
  "d_round s x = (case round_mag x of Some y \<Rightarrow> Finite s y | None \<Rightarrow> Infinite s)"

text \<open>
  The conversion of an integer to \<^verbatim>\<open>double\<close>, and the operations \<^verbatim>\<open>fabs\<close>, unary minus,
  \<^verbatim>\<open>*\<close>, \<^verbatim>\<open>/\<close>, \<^verbatim>\<open>+\<close>, \<^verbatim>\<open>-\<close>, \<^verbatim>\<open>rint\<close> (in the default rounding mode) and \<^verbatim>\<open>==\<close>.
\<close>

definition d_of_int :: "int \<Rightarrow> fval" where
  "d_of_int i = d_round (i < 0) \<bar>of_int i\<bar>"

definition d_of_u64 :: "u64 \<Rightarrow> fval" where
  "d_of_u64 w = d_of_int (uint w)"

definition d_of_i64 :: "i64 \<Rightarrow> fval" where
  "d_of_i64 w = d_of_int (sint w)"

fun d_abs :: "fval \<Rightarrow> fval" where
  "d_abs (Finite s x) = Finite False x"
| "d_abs (Infinite s) = Infinite False"
| "d_abs NaN = NaN"

fun d_neg :: "fval \<Rightarrow> fval" where
  "d_neg (Finite s x) = Finite (\<not> s) x"
| "d_neg (Infinite s) = Infinite (\<not> s)"
| "d_neg NaN = NaN"

fun d_mul :: "fval \<Rightarrow> fval \<Rightarrow> fval" where
  "d_mul (Finite s x) (Finite t y) = d_round (s \<noteq> t) (x * y)"
| "d_mul (Finite s x) (Infinite t) = (if x = 0 then NaN else Infinite (s \<noteq> t))"
| "d_mul (Infinite s) (Finite t y) = (if y = 0 then NaN else Infinite (s \<noteq> t))"
| "d_mul (Infinite s) (Infinite t) = Infinite (s \<noteq> t)"
| "d_mul NaN b = NaN"
| "d_mul a NaN = NaN"

fun d_div :: "fval \<Rightarrow> fval \<Rightarrow> fval" where
  "d_div (Finite s x) (Finite t y) =
     (if y = 0 then (if x = 0 then NaN else Infinite (s \<noteq> t)) else d_round (s \<noteq> t) (x / y))"
| "d_div (Finite s x) (Infinite t) = Finite (s \<noteq> t) 0"
| "d_div (Infinite s) (Finite t y) = Infinite (s \<noteq> t)"
| "d_div (Infinite s) (Infinite t) = NaN"
| "d_div NaN b = NaN"
| "d_div a NaN = NaN"

definition with_sign :: "bool \<Rightarrow> real \<Rightarrow> real" where
  "with_sign s x = (if s then - x else x)"

fun d_add :: "fval \<Rightarrow> fval \<Rightarrow> fval" where
  "d_add (Finite s x) (Finite t y) =
     (let v = with_sign s x + with_sign t y
      in if v = 0 then Finite (s \<and> t) 0 else d_round (v < 0) \<bar>v\<bar>)"
| "d_add (Finite s x) (Infinite t) = Infinite t"
| "d_add (Infinite s) (Finite t y) = Infinite s"
| "d_add (Infinite s) (Infinite t) = (if s = t then Infinite s else NaN)"
| "d_add NaN b = NaN"
| "d_add a NaN = NaN"

definition d_sub :: "fval \<Rightarrow> fval \<Rightarrow> fval" where
  "d_sub a b = d_add a (d_neg b)"

fun d_rint :: "fval \<Rightarrow> fval" where
  "d_rint (Finite s x) = Finite s (of_int (rne x))"
| "d_rint (Infinite s) = Infinite s"
| "d_rint NaN = NaN"

fun d_eq :: "fval \<Rightarrow> fval \<Rightarrow> bool" where
  "d_eq (Finite s x) (Finite t y) = (with_sign s x = with_sign t y)"
| "d_eq (Infinite s) (Infinite t) = (s = t)"
| "d_eq a b = False"

text \<open>
  The conversion of a \<^verbatim>\<open>double\<close> to \<^verbatim>\<open>time_t\<close> or \<^verbatim>\<open>long\<close> (64 bits) truncates towards
  zero. For a NaN or a value outside the range of the integer type the conversion is
  undefined in C; here it gives what the conversion instruction of x86-64 gives, the
  most negative integer.
\<close>

fun d_to_i64 :: "fval \<Rightarrow> i64" where
  "d_to_i64 (Finite s x) =
     (let t = (if s then - \<lfloor>x\<rfloor> else \<lfloor>x\<rfloor>)
      in if - (2 ^ 63) \<le> t \<and> t < 2 ^ 63 then word_of_int t else 0x8000000000000000)"
| "d_to_i64 a = 0x8000000000000000"

text \<open>The value of 64 bits as a \<^verbatim>\<open>double\<close>, and the bits of a value (of a representable one).\<close>

definition dbl_val :: "dbl \<Rightarrow> fval" where
  "dbl_val w =
     (let s = bit w 63; e = uint w div 2 ^ 52 mod 2048; m = uint w mod 2 ^ 52
      in if e = 2047 then (if m = 0 then Infinite s else NaN)
         else if e = 0 then Finite s (of_int m * pow2 (- 1074))
         else Finite s (of_int (2 ^ 52 + m) * pow2 (e - 1075)))"

definition sign_bit :: "bool \<Rightarrow> dbl" where
  "sign_bit s = (if s then 0x8000000000000000 else 0)"

fun dbl_bits :: "fval \<Rightarrow> dbl" where
  "dbl_bits (Finite s x) =
     sign_bit s +
     (if x = 0 then 0
      else let e = max (ilog2 x) (- 1022)
           in word_of_int ((e + 1022) * 2 ^ 52 + \<lfloor>x / pow2 (e - 52)\<rfloor>))"
| "dbl_bits (Infinite s) = sign_bit s + 0x7FF0000000000000"
| "dbl_bits NaN = 0x7FF8000000000000"

subsection \<open>\<^verbatim>\<open>check_start_stop\<close>\<close>

datatype run_states = IDLE | LISTEN | RECORD

text \<open>
  The computations of the thread that are taken as parameters: the helper
  \<^verbatim>\<open>get_mjd_from_timespec\<close> of \<^verbatim>\<open>hpguppi_time.c\<close>, which is not among the sources, and
  the floating-point expressions of the status update. Each takes the integers and
  doubles that the C expression reads and gives its result.
  \<^item> \<open>get_mjd_from_timespec tv_sec tv_nsec\<close>: the results \<^verbatim>\<open>stt_imjd\<close>, \<^verbatim>\<open>stt_smjd\<close> and
    \<^verbatim>\<open>stt_offs\<close> of the helper for a \<^verbatim>\<open>struct timespec\<close>;
  \<^item> \<open>fp_is_zero bw\<close>: \<^verbatim>\<open>bw == 0.0\<close>; \<open>fp_tbin bw\<close>: \<^verbatim>\<open>1e-6 / fabs(bw)\<close>;
  \<^item> \<open>fp_dwell_blocks dwell tbin oi\<close>:
    \<^verbatim>\<open>trunc(dwell / (tbin * ata_snap_pkt_per_block(BLOCK_DATA_SIZE, oi)))\<close> as
    \<^verbatim>\<open>uint64_t\<close>;
  \<^item> \<open>fp_gbps bits ns\<close>: \<^verbatim>\<open>((float)bits) / ns\<close>; \<open>fp_pkps pkts ns\<close>:
    \<^verbatim>\<open>(1e9 * pkts) / ns\<close> as \<^verbatim>\<open>float\<close>.
\<close>

record fp_env =
  get_mjd_from_timespec :: "i64 \<Rightarrow> i64 \<Rightarrow> i32 \<times> i32 \<times> dbl"
  fp_is_zero :: "dbl \<Rightarrow> bool"
  fp_tbin :: "dbl \<Rightarrow> dbl"
  fp_dwell_blocks :: "dbl \<Rightarrow> dbl \<Rightarrow> obs_info \<Rightarrow> u64"
  fp_gbps :: "u64 \<Rightarrow> u64 \<Rightarrow> u32"
  fp_pkps :: "u64 \<Rightarrow> u64 \<Rightarrow> u32"

text \<open>
  Modelled from the spec: \<^verbatim>\<open>get_mjd_from_timespec\<close> (of \<^verbatim>\<open>hpguppi_time.c\<close>) is not among
  the sources. By the specification the start time is converted to a Modified Julian
  Date, encoded as integer day, integer second and fractional second. So the day is
  the day of the \<^verbatim>\<open>time_t\<close> seconds since 1970-01-01 (which is MJD 40587), the second is
  the second of that day, and the fraction is \<^verbatim>\<open>tv_nsec\<close> in seconds, as a \<^verbatim>\<open>double\<close>;
  day and second are returned as \<^verbatim>\<open>int\<close>.
\<close>

definition mjd_of_timespec :: "i64 \<Rightarrow> i64 \<Rightarrow> i32 \<times> i32 \<times> dbl" where
  "mjd_of_timespec tv_sec tv_nsec =
     (word_of_int (40587 + sint tv_sec div 86400),
      word_of_int (sint tv_sec mod 86400),
      dbl_bits (d_div (d_of_i64 tv_nsec) (Finite False 1000000000)))"

text \<open>The bits of the \<^verbatim>\<open>double\<close> 1.0.\<close>

definition dbl_one :: dbl where
  "dbl_one = 0x3FF0000000000000"

text \<open>
  The first argument is the macro \<^verbatim>\<open>ATASNAP_DEFAULT_PKTNTIME\<close> of
  \<^verbatim>\<open>hpguppi_atasnap.h\<close>. The product \<^verbatim>\<open>pktidx * pktntime\<close> is taken in \<^verbatim>\<open>uint64_t\<close> and
  then converted to \<^verbatim>\<open>double\<close>, as is \<^verbatim>\<open>synctime\<close> in the sum.
\<close>

definition check_start_stop :: "u32 \<Rightarrow> fp_env \<Rightarrow> cards \<Rightarrow> u64 \<Rightarrow> run_states \<times> cards" where
  "check_start_stop dflt_ntime fp buf p =
     (let sttvalid = hgetu4 buf ''STTVALID'' 0;
          pktstart = hgetu8 buf ''PKTSTART'' 0;
          pktstop = hgetu8 buf ''PKTSTOP'' 0
      in if pktstart \<le> p \<and> p < pktstop then
           let b1 = hputs buf ''DAQSTATE'' ''RECORD''
           in if sttvalid \<noteq> 1 then
                let b2 = hputu4 b1 ''STTVALID'' 1;
                    pktntime = hgetu4 b2 ''PKTNTIME'' dflt_ntime;
                    chan_bw = dbl_val (hgetr8 b2 ''CHAN_BW'' dbl_one);
                    synctime = hgetu8 b2 ''SYNCTIME'' 0;
                    realtime_secs =
                      (if \<not> d_eq chan_bw (Finite False 0)
                       then d_div (d_of_u64 (p * ucast pktntime))
                              (d_mul (Finite False 1000000) (d_abs chan_bw))
                       else Finite False 0);
                    tv_sec = d_to_i64 (d_add (d_of_u64 synctime) (d_rint realtime_secs));
                    tv_nsec = d_to_i64 (d_mul (d_sub realtime_secs (d_rint realtime_secs))
                                          (Finite False 1000000000));
                    (stt_imjd, stt_smjd, stt_offs) = get_mjd_from_timespec fp tv_sec tv_nsec;
                    b3 = hputu4 b2 ''STT_IMJD'' stt_imjd;
                    b4 = hputu4 b3 ''STT_SMJD'' stt_smjd;
                    b5 = hputr8 b4 ''STT_OFFS'' stt_offs
                in (RECORD, b5)
              else (RECORD, b1)
         else
           let b1 = hputs buf ''DAQSTATE'' ''LISTEN''
           in (LISTEN, if sttvalid \<noteq> 0 then hputu4 b1 ''STTVALID'' 0 else b1))"

subsection \<open>\<^verbatim>\<open>wait_for_block_free\<close>\<close>

text \<open>
  The consumer of the output ring runs in another thread. What it does is given to
  the model as the answers of the ring: the fill count that the first
  \<^verbatim>\<open>hpguppi_input_databuf_total_status\<close> reads, and the successive return values of
  \<^verbatim>\<open>hpguppi_input_databuf_wait_free\<close>, each with the fill count read after it. When
  the answers end before one is \<^verbatim>\<open>HASHPIPE_OK\<close>, the wait never returns.
\<close>

datatype wait_rv = HASHPIPE_OK | HASHPIPE_TIMEOUT | HASHPIPE_ERR

record ring_env =
  total_status :: i32
  wait_free :: "(wait_rv \<times> i32) list"

definition netbuf_status :: "i32 \<Rightarrow> i32 \<Rightarrow> string" where
  "netbuf_status netbuf_full nb = show_int (sint netbuf_full) @ ''/'' @ show_int (sint nb)"

fun wait_free_loop :: "(wait_rv \<times> i32) list \<Rightarrow> i32 \<Rightarrow> string \<Rightarrow> cards \<Rightarrow> error + cards" where
  "wait_free_loop [] nb key buf = Inl WaitsForever"
| "wait_free_loop ((HASHPIPE_OK, full) # rs) nb key buf = Inr buf"
| "wait_free_loop ((HASHPIPE_TIMEOUT, full) # rs) nb key buf =
     wait_free_loop rs nb key
       (hputs (hputs buf key ''outblocked'') ''NETBUFST'' (netbuf_status full nb))"
| "wait_free_loop ((HASHPIPE_ERR, full) # rs) nb key buf = Inl ThreadExit"

text \<open>
  When the wait returns, the slot is free; the status buffer is then copied whole
  into the header of the block.
\<close>

definition wait_for_block_free ::
  "block_info \<Rightarrow> string \<Rightarrow> ring_env \<Rightarrow> cards \<Rightarrow> databuf \<Rightarrow> error + (cards \<times> databuf)" where
  "wait_for_block_free bi key env buf db =
     (let netstat = hgets buf key [];
          b1 = hputs buf key ''waitfree'';
          b2 = hputs b1 ''NETBUFST'' (netbuf_status (total_status env) (n_block db))
      in case wait_free_loop (wait_free env) (n_block db) key b2 of
           Inl e \<Rightarrow> Inl e
         | Inr b3 \<Rightarrow>
             let b4 = hputs b3 key netstat
             in Inr (b4, db\<lparr>header := (header db)(block_idx_out bi := b4),
                            filled := (filled db)(block_idx_out bi := False)\<rparr>))"

subsection \<open>The packet loop of \<^verbatim>\<open>run\<close>\<close>

text \<open>
  What stays fixed while the packets of an input block are processed: the
  observation info, the locals \<^verbatim>\<open>pktidx_per_block\<close> and \<^verbatim>\<open>eff_block_size\<close> that
  \<^verbatim>\<open>run\<close> derives from it once per second, the two macros of \<^verbatim>\<open>hpguppi_atasnap.h\<close>
  and the status key of the thread (\<^verbatim>\<open>NETSTAT\<close>).
\<close>

record ingest_cfg =
  oi :: obs_info
  run_pktidx_per_block :: u32
  eff_block_size :: i32
  ATA_SNAP_PKT_SIZE_PAYLOAD :: i32
  ATASNAP_DEFAULT_PKTNTIME :: u32
  status_key :: string

text \<open>
  The effects of the thread on its surroundings, in program order: a once-per-block
  status update for a packet index, a block handed downstream by \<^verbatim>\<open>finalize_block\<close>
  (with the \<^verbatim>\<open>block_info\<close> as \<^verbatim>\<open>finalize_block\<close> left it), a free block obtained from
  the ring, and the warning about a reinitialisation.
\<close>

datatype event =
    StatusUpdate u64
  | Finalized block_info
  | WaitedFree i32
  | Warned u64

text \<open>The variables of \<^verbatim>\<open>run\<close> that the packet loop reads or writes.\<close>

record thread_state =
  wblk0 :: block_info
  wblk1 :: block_info
  dbout :: databuf
  st_buf :: cards
  status_seq_num :: u64
  start_seq_num :: u64
  stop_seq_num :: u64
  dwell_blocks :: u64
  dwell_seconds :: dbl
  run_chan_bw :: dbl
  u64tmp :: u64
  packet_count :: u64
  ndrop_total :: u64
  nlate :: u64
  netgbps :: u32
  netpkps :: u32
  bits_processed_net :: u64
  pkts_processed_net :: u64
  ns_processed_net :: u64
  bits_processed_phys :: u64
  pkts_processed_phys :: u64
  events :: "event list"

text \<open>\<^verbatim>\<open>eff_block_size / ATA_SNAP_PKT_SIZE_PAYLOAD\<close>, an \<^verbatim>\<open>int\<close> passed as \<^verbatim>\<open>uint64_t\<close>.\<close>

definition run_pkts_per_block :: "ingest_cfg \<Rightarrow> u64" where
  "run_pkts_per_block cfg =
     scast (word_of_int (sint (eff_block_size cfg) sdiv sint (ATA_SNAP_PKT_SIZE_PAYLOAD cfg)) :: i32)"

text \<open>Counting an accepted packet and its payload bits.\<close>

definition count_packet :: "ingest_cfg \<Rightarrow> thread_state \<Rightarrow> thread_state" where
  "count_packet cfg s =
     s\<lparr>packet_count := packet_count s + 1,
       pkts_processed_net := pkts_processed_net s + 1,
       pkts_processed_phys := pkts_processed_phys s + 1,
       bits_processed_net := bits_processed_net s + scast (8 * ATA_SNAP_PKT_SIZE_PAYLOAD cfg),
       bits_processed_phys := bits_processed_phys s + scast (8 * ATA_SNAP_PKT_SIZE_PAYLOAD cfg)\<rparr>"

text \<open>
  The status buffer update at the start of a block (the body of the \<^verbatim>\<open>if\<close>). It is
  reached only with \<^verbatim>\<open>pktidx_per_block\<close> other than 0: the division before it traps
  otherwise.
\<close>

definition block_status_update :: "ingest_cfg \<Rightarrow> fp_env \<Rightarrow> u64 \<Rightarrow> thread_state \<Rightarrow> thread_state" where
  "block_status_update cfg fp pkt_seq_num s =
     (let s1 = s\<lparr>status_seq_num := pkt_seq_num\<rparr>;
          s2 = (if ns_processed_net s1 \<noteq> 0
                then s1\<lparr>netgbps := fp_gbps fp (bits_processed_net s1) (ns_processed_net s1),
                        netpkps := fp_pkps fp (pkts_processed_net s1) (ns_processed_net s1),
                        bits_processed_net := 0, pkts_processed_net := 0,
                        ns_processed_net := 0\<rparr>
                else s1);
          b1 = hputi8 (st_buf s2) ''PKTIDX'' pkt_seq_num;
          b2 = hputi4 b1 ''BLOCSIZE'' (eff_block_size cfg);
          start0 = hgetu8 b2 ''PKTSTART'' (start_seq_num s2);
          start = start0 - start0 mod ucast (run_pktidx_per_block cfg);
          b3 = hputu8 b2 ''PKTSTART'' start;
          dwell = hgetr8 b3 ''DWELL'' (dwell_seconds s2);
          b4 = hputr8 b3 ''DWELL'' dwell;
          b5 = hputr4 b4 ''NETGBPS'' (netgbps s2);
          b6 = hputr4 b5 ''NETPKPS'' (netpkps s2);
          bw0 = hgetr8 b6 ''CHAN_BW'' (run_chan_bw s2);
          bw = (if fp_is_zero fp bw0 then dbl_one else bw0);
          tbin = fp_tbin fp bw;
          b7 = hputr8 b6 ''TBIN'' tbin;
          blocks = fp_dwell_blocks fp dwell tbin (oi cfg);
          stop = start + ucast (run_pktidx_per_block cfg) * blocks;
          b8 = hputi8 b7 ''PKTSTOP'' stop;
          nd = hgetu8 b8 ''NDROP'' (u64tmp s2) + ndrop_total s2;
          b9 = hputu8 b8 ''NDROP'' nd;
          nl = hgetu8 b9 ''NLATE'' nd + nlate s2;
          b10 = hputu8 b9 ''NLATE'' nl
      in s2\<lparr>st_buf := b10, start_seq_num := start, stop_seq_num := stop,
            dwell_blocks := blocks, dwell_seconds := dwell, run_chan_bw := bw,
            u64tmp := nl, ndrop_total := 0, nlate := 0,
            events := events s2 @ [StatusUpdate pkt_seq_num]\<rparr>)"

text \<open>The condition of the once-per-block update, with the latch \<^verbatim>\<open>status_seq_num\<close>.\<close>

definition status_update_due :: "ingest_cfg \<Rightarrow> u64 \<Rightarrow> thread_state \<Rightarrow> bool" where
  "status_update_due cfg pkt_seq_num s \<longleftrightarrow>
     pkt_seq_num mod ucast (run_pktidx_per_block cfg) = 0 \<and> pkt_seq_num \<noteq> status_seq_num s"

text \<open>The branch "Time to advance the blocks!!!".\<close>

definition advance_blocks ::
  "ingest_cfg \<Rightarrow> fp_env \<Rightarrow> ring_env \<Rightarrow> i64 \<Rightarrow> thread_state \<Rightarrow> error + thread_state" where
  "advance_blocks cfg fp env pkt_blk_num s =
     (case finalize_block (wblk0 s) (dbout s) of
        Inl e \<Rightarrow> Inl e
      | Inr (w0, db1) \<Rightarrow>
         (let s1 = s\<lparr>wblk0 := w0, dbout := db1, events := events s @ [Finalized w0]\<rparr>;
              s2 = s1\<lparr>ndrop_total := ndrop_total s1 + ucast (ndrop (wblk0 s1))\<rparr>;
              s3 = s2\<lparr>wblk0 := wblk1 s2\<rparr>;
              (st, b) = check_start_stop (ATASNAP_DEFAULT_PKTNTIME cfg) fp (st_buf s3)
                          (block_num (wblk0 s3) * ucast (run_pktidx_per_block cfg));
              s4 = s3\<lparr>st_buf := b\<rparr>
          in (case increment_block (wblk1 s4) (dbout s4) pkt_blk_num of
                Inl e \<Rightarrow> Inl e
              | Inr w1 \<Rightarrow>
                  (case wait_for_block_free w1 (status_key cfg) env (st_buf s4) (dbout s4) of
                     Inl e \<Rightarrow> Inl e
                   | Inr (b', db') \<Rightarrow>
                       Inr (s4\<lparr>wblk1 := w1, st_buf := b', dbout := db',
                               events := events s4 @ [WaitedFree (block_idx_out w1)]\<rparr>)))))"

text \<open>The branch of a \<^verbatim>\<open>PKTIDX\<close> discontinuity.\<close>

definition reinit_blocks ::
  "ingest_cfg \<Rightarrow> fp_env \<Rightarrow> i64 \<Rightarrow> u64 \<Rightarrow> thread_state \<Rightarrow> thread_state" where
  "reinit_blocks cfg fp pkt_blk_num pkt_seq_num s =
     (let s1 = s\<lparr>events := events s @ [Warned pkt_seq_num]\<rparr>;
          s2 = s1\<lparr>wblk0 := init_block_info (wblk0 s1) (- 1) (pkt_blk_num + 0 + 1)
                              (run_pkts_per_block cfg)\<rparr>;
          s3 = s2\<lparr>wblk1 := init_block_info (wblk1 s2) (- 1) (pkt_blk_num + 1 + 1)
                              (run_pkts_per_block cfg)\<rparr>;
          (st, b) = check_start_stop (ATASNAP_DEFAULT_PKTNTIME cfg) fp (st_buf s3)
                      (block_num (wblk0 s3) * ucast (run_pktidx_per_block cfg))
      in s3\<lparr>st_buf := b\<rparr>)"

text \<open>"Manage blocks based on \<^verbatim>\<open>pkt_blk_num\<close>".\<close>

definition manage_blocks ::
  "ingest_cfg \<Rightarrow> fp_env \<Rightarrow> ring_env \<Rightarrow> i64 \<Rightarrow> u64 \<Rightarrow> thread_state \<Rightarrow> error + thread_state" where
  "manage_blocks cfg fp env pkt_blk_num pkt_seq_num s =
     (if pkt_blk_num = block_num (wblk1 s) + 1 then advance_blocks cfg fp env pkt_blk_num s
      else if sint pkt_blk_num < sint (block_num (wblk0 s) - 1)
              \<or> sint (block_num (wblk1 s) + 1) < sint pkt_blk_num
      then Inr (reinit_blocks cfg fp pkt_blk_num pkt_seq_num s)
      else if pkt_blk_num = block_num (wblk0 s) - 1 then Inr (s\<lparr>nlate := nlate s + 1\<rparr>)
      else Inr s)"

text \<open>
  Copying the packet into the working block \<open>bi\<close> and counting it there; the result
  is the updated working block and databuf.
\<close>

definition store_packet ::
  "ingest_cfg \<Rightarrow> frame \<Rightarrow> block_info \<Rightarrow> databuf \<Rightarrow> error + (block_info \<times> databuf)" where
  "store_packet cfg f bi db =
     (let bi1 = bi\<lparr>pkts_per_block := run_pkts_per_block cfg\<rparr>;
          bi2 = bi1\<lparr>pktidx_per_block := ucast (run_pktidx_per_block cfg)\<rparr>
      in case copy_packet_data_to_databuf (ATA_SNAP_PKT_SIZE_PAYLOAD cfg) bi2 (oi cfg)
                (info f) (payload f) db of
           Inl e \<Rightarrow> Inl e
         | Inr db' \<Rightarrow> Inr (bi2\<lparr>npacket := npacket bi2 + 1\<rparr>, db'))"

text \<open>The end of the loop body: the working block index of the packet, and the copy.\<close>

definition wblk_idx :: "i64 \<Rightarrow> thread_state \<Rightarrow> i32" where
  "wblk_idx pkt_blk_num s = ucast (pkt_blk_num - block_num (wblk0 s))"

definition place_packet :: "ingest_cfg \<Rightarrow> frame \<Rightarrow> i64 \<Rightarrow> thread_state \<Rightarrow> error + thread_state" where
  "place_packet cfg f pkt_blk_num s =
     (let i = wblk_idx pkt_blk_num s
      in if 0 \<le> sint i \<and> sint i < 2 then
           if i = 0 then
             (case store_packet cfg f (wblk0 s) (dbout s) of
                Inl e \<Rightarrow> Inl e
              | Inr (bi, db) \<Rightarrow> Inr (s\<lparr>wblk0 := bi, dbout := db\<rparr>))
           else
             (case store_packet cfg f (wblk1 s) (dbout s) of
                Inl e \<Rightarrow> Inl e
              | Inr (bi, db) \<Rightarrow> Inr (s\<lparr>wblk1 := bi, dbout := db\<rparr>))
         else Inr s)"

text \<open>
  The body of the loop "For each packet" for one frame. The answers of the ring
  are those it gives if this frame makes the thread wait for a free block.
\<close>

definition process_packet ::
  "ingest_cfg \<Rightarrow> fp_env \<Rightarrow> ring_env \<Rightarrow> frame \<Rightarrow> thread_state \<Rightarrow> error + thread_state" where
  "process_packet cfg fp env f s =
     (if ucast (nants (oi cfg)) \<le> feng_id (info f) then Inr s
      else
        let s1 = count_packet cfg s;
            pkt_seq_num = pktidx (info f)
        in if run_pktidx_per_block cfg = 0 then Inl DivByZero
           else
             let pkt_blk_num = pkt_seq_num div ucast (run_pktidx_per_block cfg);
                 s2 = (if status_update_due cfg pkt_seq_num s1
                       then block_status_update cfg fp pkt_seq_num s1 else s1)
             in case manage_blocks cfg fp env pkt_blk_num pkt_seq_num s2 of
                  Inl e \<Rightarrow> Inl e
                | Inr s3 \<Rightarrow> place_packet cfg f pkt_blk_num s3)"

text \<open>The loop over the frames of the input blocks, in order of arrival.\<close>

fun run_packets ::
  "ingest_cfg \<Rightarrow> fp_env \<Rightarrow> (frame \<times> ring_env) list \<Rightarrow> thread_state \<Rightarrow> error + thread_state" where
  "run_packets cfg fp [] s = Inr s"
| "run_packets cfg fp ((f, env) # fs) s =
     (case process_packet cfg fp env f s of
        Inl e \<Rightarrow> Inl e
      | Inr s' \<Rightarrow> run_packets cfg fp fs s')"

subsection \<open>The start of \<^verbatim>\<open>run\<close>\<close>

text \<open>
  Before its main loop, \<^verbatim>\<open>run\<close> initialises the two working blocks for the block numbers
  0 and 1 in the slots 0 and 1 and waits for each slot to be free. The array \<^verbatim>\<open>wblk\<close> is
  declared without an initialiser, and \<^verbatim>\<open>init_block_info\<close> is called with 0 for
  \<^verbatim>\<open>pkts_per_block\<close>, which leaves that field as it is; \<^verbatim>\<open>pktidx_per_block\<close> is not set
  either. So these two fields hold what the stack held, until a packet is stored in the
  block: \<open>g0\<close> and \<open>g1\<close> are the two elements of \<^verbatim>\<open>wblk\<close> as the stack has them.
\<close>

definition init_working_blocks ::
  "block_info \<Rightarrow> block_info \<Rightarrow> string \<Rightarrow> ring_env \<Rightarrow> ring_env \<Rightarrow> cards \<Rightarrow> databuf
     \<Rightarrow> error + (block_info \<times> block_info \<times> cards \<times> databuf)" where
  "init_working_blocks g0 g1 key env0 env1 buf db =
     (let w0 = init_block_info g0 0 0 0
      in case wait_for_block_free w0 key env0 buf db of
           Inl e \<Rightarrow> Inl e
         | Inr (b1, db1) \<Rightarrow>
             (let w1 = init_block_info g1 1 1 0
              in case wait_for_block_free w1 key env1 b1 db1 of
                   Inl e \<Rightarrow> Inl e
                 | Inr (b2, db2) \<Rightarrow> Inr (w0, w1, b2, db2)))"

text \<open>
  The thread when the first packet arrives: \<open>s\<close> has the other variables of \<^verbatim>\<open>run\<close>, the
  status buffer and the databuf. The cards that \<^verbatim>\<open>run\<close> writes to the status buffer
  between the initialisation and the first packet are not part of this model; they
  concern neither the working blocks nor the databuf.
\<close>

definition start_of_run ::
  "block_info \<Rightarrow> block_info \<Rightarrow> ingest_cfg \<Rightarrow> ring_env \<Rightarrow> ring_env \<Rightarrow> thread_state
     \<Rightarrow> error + thread_state" where
  "start_of_run g0 g1 cfg env0 env1 s =
     (case init_working_blocks g0 g1 (status_key cfg) env0 env1 (st_buf s) (dbout s) of
        Inl e \<Rightarrow> Inl e
      | Inr (w0, w1, b, db) \<Rightarrow> Inr (s\<lparr>wblk0 := w0, wblk1 := w1, st_buf := b, dbout := db\<rparr>))"

subsection \<open>Notions used in the properties\<close>

text \<open>The frame is ignored: its F-engine id is not below \<open>NANTS\<close>.\<close>

definition rejected :: "ingest_cfg \<Rightarrow> frame \<Rightarrow> bool" where
  "rejected cfg f \<longleftrightarrow> ucast (nants (oi cfg)) \<le> feng_id (info f)"

text \<open>The absolute block number of a frame, \<^verbatim>\<open>pkt_blk_num\<close>.\<close>

definition pkt_blk_num_of :: "ingest_cfg \<Rightarrow> frame \<Rightarrow> i64" where
  "pkt_blk_num_of cfg f = pktidx (info f) div ucast (run_pktidx_per_block cfg)"

text \<open>
  The state of an accepted frame when the block management begins: the frame is
  counted and the once-per-block status update is done if it is due.
\<close>

definition pre_manage :: "ingest_cfg \<Rightarrow> fp_env \<Rightarrow> frame \<Rightarrow> thread_state \<Rightarrow> thread_state" where
  "pre_manage cfg fp f s =
     (if status_update_due cfg (pktidx (info f)) (count_packet cfg s)
      then block_status_update cfg fp (pktidx (info f)) (count_packet cfg s)
      else count_packet cfg s)"

text \<open>The condition of the discontinuity branch, and its first half.\<close>

definition discontinuity :: "i64 \<Rightarrow> thread_state \<Rightarrow> bool" where
  "discontinuity pkt_blk_num s \<longleftrightarrow>
     sint pkt_blk_num < sint (block_num (wblk0 s) - 1)
     \<or> sint (block_num (wblk1 s) + 1) < sint pkt_blk_num"

definition backward_discontinuity :: "ingest_cfg \<Rightarrow> frame \<Rightarrow> thread_state \<Rightarrow> bool" where
  "backward_discontinuity cfg f s \<longleftrightarrow>
     \<not> rejected cfg f \<and> sint (pkt_blk_num_of cfg f) < sint (block_num (wblk0 s) - 1)"

text \<open>No frame of the run is a backward discontinuity when it arrives.\<close>

fun no_backward ::
  "ingest_cfg \<Rightarrow> fp_env \<Rightarrow> (frame \<times> ring_env) list \<Rightarrow> thread_state \<Rightarrow> bool" where
  "no_backward cfg fp [] s = True"
| "no_backward cfg fp ((f, env) # fs) s =
     (\<not> backward_discontinuity cfg f s \<and>
      (case process_packet cfg fp env f s of
         Inl e \<Rightarrow> True
       | Inr s' \<Rightarrow> no_backward cfg fp fs s'))"

text \<open>The block numbers handed downstream, and the packet indices of the status updates, in order.\<close>

fun finalized_of :: "event \<Rightarrow> int list" where
  "finalized_of (Finalized bi) = [sint (block_num bi)]"
| "finalized_of e = []"

definition finalized_nums :: "event list \<Rightarrow> int list" where
  "finalized_nums evs = concat (map finalized_of evs)"

fun update_of :: "event \<Rightarrow> u64 list" where
  "update_of (StatusUpdate p) = [p]"
| "update_of e = []"

definition status_updates :: "event list \<Rightarrow> u64 list" where
  "status_updates evs = concat (map update_of evs)"

text \<open>The ring answers \<^verbatim>\<open>HASHPIPE_OK\<close> after finitely many timeouts.\<close>

fun wait_returns :: "(wait_rv \<times> i32) list \<Rightarrow> bool" where
  "wait_returns [] = False"
| "wait_returns ((HASHPIPE_OK, full) # rs) = True"
| "wait_returns ((HASHPIPE_TIMEOUT, full) # rs) = wait_returns rs"
| "wait_returns ((HASHPIPE_ERR, full) # rs) = False"

text \<open>The start/stop window of the status buffer, and the three cards of the start time.\<close>

definition in_window :: "cards \<Rightarrow> u64 \<Rightarrow> bool" where
  "in_window buf p \<longleftrightarrow> hgetu8 buf ''PKTSTART'' 0 \<le> p \<and> p < hgetu8 buf ''PKTSTOP'' 0"

definition stt_cards :: "cards \<Rightarrow> hval option \<times> hval option \<times> hval option" where
  "stt_cards buf = (buf ''STT_IMJD'', buf ''STT_SMJD'', buf ''STT_OFFS'')"

text \<open>
  The start time in the words of the specification: \<open>realtime_secs\<close> is
  \<open>pktidx \<times> PKTNTIME / (1e6 \<times> |CHAN_BW|)\<close>, with the product over the integers and the
  rest in \<^verbatim>\<open>double\<close>; and \<open>SYNCTIME + realtime_secs\<close> is converted to the Modified Julian
  Date, its whole seconds being \<open>SYNCTIME\<close> plus \<open>realtime_secs\<close> rounded to an integer and
  its fraction the rest in nanoseconds. With \<open>CHAN_BW\<close> zero there is no quotient and
  the start time is \<open>SYNCTIME\<close>.
\<close>

definition spec_realtime_secs :: "u64 \<Rightarrow> u32 \<Rightarrow> fval \<Rightarrow> fval" where
  "spec_realtime_secs p ntime bw =
     d_div (d_of_int (uint p * uint ntime)) (d_mul (Finite False 1000000) (d_abs bw))"

definition spec_mjd :: "u64 \<Rightarrow> fval \<Rightarrow> hval option \<times> hval option \<times> hval option" where
  "spec_mjd synctime secs =
     (let tv_sec = d_to_i64 (d_add (d_of_u64 synctime) (d_rint secs));
          tv_nsec = d_to_i64 (d_mul (d_sub secs (d_rint secs)) (Finite False 1000000000));
          (imjd, smjd, offs) = mjd_of_timespec tv_sec tv_nsec
      in (Some (HInt (uint imjd)), Some (HInt (uint smjd)), Some (HDbl offs)))"

definition spec_stt :: "u32 \<Rightarrow> cards \<Rightarrow> u64 \<Rightarrow> hval option \<times> hval option \<times> hval option" where
  "spec_stt dflt_ntime buf p =
     (let pktntime = hgetu4 buf ''PKTNTIME'' dflt_ntime;
          chan_bw = dbl_val (hgetr8 buf ''CHAN_BW'' dbl_one);
          synctime = hgetu8 buf ''SYNCTIME'' 0
      in spec_mjd synctime
           (if d_eq chan_bw (Finite False 0) then Finite False 0
            else spec_realtime_secs p pktntime chan_bw))"

text \<open>
  The call is the first of a recording: the packet index is in the window and
  \<open>STTVALID\<close> does not read 1.
\<close>

definition first_in_window :: "cards \<Rightarrow> u64 \<Rightarrow> bool" where
  "first_in_window buf p \<longleftrightarrow> in_window buf p \<and> hgetu4 buf ''STTVALID'' 0 \<noteq> 1"

text \<open>The value that the status update writes back to \<open>PKTSTART\<close>.\<close>

definition rounded_pktstart :: "ingest_cfg \<Rightarrow> thread_state \<Rightarrow> u64" where
  "rounded_pktstart cfg s =
     hgetu8 (st_buf s) ''PKTSTART'' (start_seq_num s)
     - hgetu8 (st_buf s) ''PKTSTART'' (start_seq_num s) mod ucast (run_pktidx_per_block cfg)"

subsection \<open>Example data\<close>

text \<open>
  The observation of scenario S1 of the specification: one antenna, one stream, 64
  channels and 16 time samples per packet, 128 packet indices per block; the payload
  is 2048 bytes and a block holds 128 packets.
\<close>

definition cfg_S1 :: ingest_cfg where
  "cfg_S1 = \<lparr>oi = \<lparr>fenchan = 4096, nants = 1, nstrm = 1, pkt_ntime = 16, pkt_nchan = 64,
                   schan = 0\<rparr>,
             run_pktidx_per_block = 128, eff_block_size = 262144,
             ATA_SNAP_PKT_SIZE_PAYLOAD = 2048, ATASNAP_DEFAULT_PKTNTIME = 16,
             status_key = ''NETSTAT''\<rparr>"

text \<open>
  The helper as modelled from the specification, and stand-ins for the floating-point
  results of the status update: each of these is 0.
\<close>

definition fp_example :: fp_env where
  "fp_example = \<lparr>get_mjd_from_timespec = mjd_of_timespec,
                 fp_is_zero = (\<lambda>bw. bw = 0), fp_tbin = (\<lambda>bw. 0),
                 fp_dwell_blocks = (\<lambda>dwell tbin oi. 0),
                 fp_gbps = (\<lambda>bits ns. 0), fp_pkps = (\<lambda>pkts ns. 0)\<rparr>"

text \<open>A ring whose next block is free at once.\<close>

definition env_free :: ring_env where
  "env_free = \<lparr>total_status = 0, wait_free = [(HASHPIPE_OK, 0)]\<rparr>"

text \<open>
  The frame of antenna 0, first channel, with packet index \<open>p\<close>, UDP payload size
  \<open>n\<close> and payload units \<open>0, 1, 2, \<dots>\<close>.
\<close>

definition frame_sized :: "nat \<Rightarrow> u64 \<Rightarrow> frame" where
  "frame_sized n p = \<lparr>info = \<lparr>pktidx = p, feng_id = 0, feng_chan = 0\<rparr>, payload_size = n,
                      payload = (\<lambda>i. word_of_nat i)\<rparr>"

definition frame_at :: "u64 \<Rightarrow> frame" where
  "frame_at p = frame_sized 2048 p"

text \<open>A working block in slot \<open>i\<close> for block number \<open>b\<close> with \<open>n\<close> packets so far.\<close>

definition wblk_at :: "i32 \<Rightarrow> i64 \<Rightarrow> u32 \<Rightarrow> block_info" where
  "wblk_at i b n = \<lparr>block_idx_out = i, block_num = b, pktidx_per_block = 128,
                     pkts_per_block = 128, npacket = n, ndrop = 0\<rparr>"

text \<open>
  A block as in scenario S2 of the specification: 64 of 128 packets received for
  block number 1 in slot 1; and a databuf of four empty blocks.
\<close>

definition bi_S2 :: block_info where
  "bi_S2 = wblk_at 1 1 64"

definition db_empty :: databuf where
  "db_empty = \<lparr>n_block = 4, header = (\<lambda>i. Map.empty), data = (\<lambda>i a. 0), filled = (\<lambda>i. False)\<rparr>"

text \<open>
  The thread with working blocks 0 and 1 in slots 0 and 1, \<open>n\<close> packets in the first
  and none in the second, an empty status buffer and no effects so far. With
  \<open>n = 128\<close> this is scenario S4 after the packets 0 to 127.
\<close>

definition state_with :: "u32 \<Rightarrow> thread_state" where
  "state_with n = \<lparr>wblk0 = wblk_at 0 0 n, wblk1 = wblk_at 1 1 0, dbout = db_empty,
      st_buf = Map.empty, status_seq_num = 5, start_seq_num = 0, stop_seq_num = 0,
      dwell_blocks = 0, dwell_seconds = 0, run_chan_bw = dbl_one, u64tmp = 0,
      packet_count = 0, ndrop_total = 0, nlate = 0, netgbps = 0, netpkps = 0,
      bits_processed_net = 0, pkts_processed_net = 0, ns_processed_net = 0,
      bits_processed_phys = 0, pkts_processed_phys = 0, events = []\<rparr>"

definition state_S4 :: thread_state where
  "state_S4 = state_with 128"

text \<open>
  A status buffer as in scenario S5: recording from packet index 256 to 512, with 16
  time samples per packet, channels of 0.5 MHz (the bits of the \<^verbatim>\<open>double\<close> 0.5) and the
  synchronisation time 1600000000 (2020-09-13 12:26:40 UTC, second 44800 of MJD 59105).
  And the same with the recording going on to packet index 65536.
\<close>

definition buf_S5 :: cards where
  "buf_S5 = [''PKTSTART'' \<mapsto> HInt 256, ''PKTSTOP'' \<mapsto> HInt 512, ''SYNCTIME'' \<mapsto> HInt 1600000000,
             ''PKTNTIME'' \<mapsto> HInt 16, ''CHAN_BW'' \<mapsto> HDbl 0x3FE0000000000000]"

definition buf_long :: cards where
  "buf_long = buf_S5(''PKTSTOP'' \<mapsto> HInt 65536)"

text \<open>The same thread with \<open>PKTSTART\<close> set to \<open>v\<close> in the status buffer.\<close>

definition state_pktstart :: "int \<Rightarrow> thread_state" where
  "state_pktstart v = (state_with 0)\<lparr>st_buf := [''PKTSTART'' \<mapsto> HInt v]\<rparr>"

text \<open>
  A frame of 2048 payload bytes, the first of the observation, followed by a frame of
  100 payload bytes; both belong to block 0.
\<close>

definition odd_size_run :: "(frame \<times> ring_env) list" where
  "odd_size_run = [(frame_sized 2048 1, env_free), (frame_sized 100 2, env_free)]"

subsection \<open>Abstractions of the run\<close>

text \<open>
  The latch of the status update alone: the packet indices for which the update is
  done, given the frames in order and the value of \<^verbatim>\<open>status_seq_num\<close> before them.
\<close>

fun latch_trace :: "ingest_cfg \<Rightarrow> frame list \<Rightarrow> u64 \<Rightarrow> u64 list" where
  "latch_trace cfg [] l = []"
| "latch_trace cfg (f # fs) l =
     (if \<not> rejected cfg f
         \<and> pktidx (info f) mod ucast (run_pktidx_per_block cfg) = 0 \<and> pktidx (info f) \<noteq> l
      then pktidx (info f) # latch_trace cfg fs (pktidx (info f))
      else latch_trace cfg fs l)"

text \<open>
  The window alone: the block numbers of the two working blocks and the block
  numbers handed downstream so far, and what a frame of block number \<open>B\<close> does to
  them.
\<close>

type_synonym window = "i64 \<times> i64 \<times> int list"

definition window_of :: "thread_state \<Rightarrow> window" where
  "window_of s = (block_num (wblk0 s), block_num (wblk1 s), finalized_nums (events s))"

fun win_step :: "i64 \<Rightarrow> window \<Rightarrow> window" where
  "win_step B (w0, w1, fin) =
     (if B = w1 + 1 then (w1, B, fin @ [sint w0])
      else if sint B < sint (w0 - 1) \<or> sint (w1 + 1) < sint B then (B + 1, B + 2, fin)
      else (w0, w1, fin))"

fun win_run :: "ingest_cfg \<Rightarrow> frame list \<Rightarrow> window \<Rightarrow> window" where
  "win_run cfg [] w = w"
| "win_run cfg (f # fs) w =
     win_run cfg fs (if rejected cfg f then w else win_step (pkt_blk_num_of cfg f) w)"

text \<open>
  The window is in order: the block numbers of the working blocks are consecutive
  and far from the ends of \<^verbatim>\<open>int64_t\<close>, and the blocks handed downstream so far have
  smaller numbers than the first working block, in increasing order.
\<close>

fun win_ordered :: "window \<Rightarrow> bool" where
  "win_ordered (w0, w1, fin) \<longleftrightarrow>
     sint w1 = sint w0 + 1 \<and> - (2 ^ 62) \<le> sint w0 \<and> sint w0 \<le> 2 ^ 62
     \<and> sorted_wrt (<) fin \<and> list_all (\<lambda>b. b < sint w0) fin"

definition window_ordered :: "thread_state \<Rightarrow> bool" where
  "window_ordered s \<longleftrightarrow> win_ordered (window_of s)"

text \<open>
  No frame is a backward discontinuity for the window as \<open>win_run\<close> has it when the
  frame arrives.
\<close>

fun win_no_backward :: "ingest_cfg \<Rightarrow> frame list \<Rightarrow> window \<Rightarrow> bool" where
  "win_no_backward cfg [] w = True"
| "win_no_backward cfg (f # fs) w =
     (\<not> (\<not> rejected cfg f \<and> sint (pkt_blk_num_of cfg f) < sint (fst w - 1))
      \<and> win_no_backward cfg fs
            (if rejected cfg f then w else win_step (pkt_blk_num_of cfg f) w))"

text \<open>The ring has a block and the working blocks are in slots of the ring.\<close>

definition slots_ok :: "thread_state \<Rightarrow> bool" where
  "slots_ok s \<longleftrightarrow>
     1 \<le> sint (n_block (dbout s))
     \<and> 0 \<le> sint (block_idx_out (wblk0 s))
     \<and> 0 \<le> sint (block_idx_out (wblk1 s))
     \<and> sint (block_idx_out (wblk1 s)) < sint (n_block (dbout s))"

text \<open>
  Frames with the packet indices 0, 128 and 0 again (two antennas' packets for index
  0 with the first packet of the next block between them); and frames for the blocks
  2, 3, 0 and 3, the third of which is a backward discontinuity.
\<close>

definition interleaved_run :: "(frame \<times> ring_env) list" where
  "interleaved_run = [(frame_at 0, env_free), (frame_at 128, env_free), (frame_at 0, env_free)]"

definition backward_run :: "(frame \<times> ring_env) list" where
  "backward_run = [(frame_at 256, env_free), (frame_at 384, env_free), (frame_at 0, env_free),
                   (frame_at 384, env_free)]"

text \<open>Frames for the blocks 0, 2, 1, 3 and 78: in order but for a forward jump.\<close>

definition forward_run :: "(frame \<times> ring_env) list" where
  "forward_run = [(frame_at 5, env_free), (frame_at 256, env_free), (frame_at 130, env_free),
                  (frame_at 384, env_free), (frame_at 10000, env_free)]"

text \<open>
  The working blocks alone. What \<^verbatim>\<open>finalize_block\<close> leaves in the \<^verbatim>\<open>block_info\<close> and what
  it writes to the header of the block; what \<^verbatim>\<open>increment_block\<close> makes of the second
  working block in a ring of \<open>nb\<close> blocks; and what storing a packet makes of a working
  block.
\<close>

definition finalized :: "block_info \<Rightarrow> block_info" where
  "finalized bi = (if ucast (npacket bi) < pkts_per_block bi
                   then bi\<lparr>ndrop := ucast (pkts_per_block bi - ucast (npacket bi))\<rparr>
                   else bi)"

definition finalize_header :: "block_info \<Rightarrow> cards \<Rightarrow> cards" where
  "finalize_header bi h =
     hputs (hputi4 (hputi4 (hputi8 h ''PKTIDX'' (block_num bi * pktidx_per_block bi))
                      ''NPKT'' (npacket bi)) ''NDROP'' (ndrop bi)) ''DROPSTAT'' (dropstat bi)"

definition next_block :: "i32 \<Rightarrow> i64 \<Rightarrow> block_info \<Rightarrow> block_info" where
  "next_block nb B bi =
     bi\<lparr>block_idx_out := word_of_int (sint (block_idx_out bi + 1) smod sint nb),
        block_num := B, npacket := 0, ndrop := 0\<rparr>"

definition stored :: "ingest_cfg \<Rightarrow> block_info \<Rightarrow> block_info" where
  "stored cfg bi = bi\<lparr>pkts_per_block := run_pkts_per_block cfg,
                       pktidx_per_block := ucast (run_pktidx_per_block cfg),
                       npacket := npacket bi + 1\<rparr>"

text \<open>
  The two working blocks and the blocks handed downstream so far (each as
  \<^verbatim>\<open>finalize_block\<close> left it), and what a frame of block number \<open>B\<close> does to them: first
  the management of the blocks, then the placement of the packet.
\<close>

type_synonym blocks = "block_info \<times> block_info \<times> block_info list"

fun finalized_of_event :: "event \<Rightarrow> block_info list" where
  "finalized_of_event (Finalized bi) = [bi]"
| "finalized_of_event e = []"

definition finalized_blocks :: "event list \<Rightarrow> block_info list" where
  "finalized_blocks evs = concat (map finalized_of_event evs)"

definition blocks_of :: "thread_state \<Rightarrow> blocks" where
  "blocks_of s = (wblk0 s, wblk1 s, finalized_blocks (events s))"

fun blk_manage :: "ingest_cfg \<Rightarrow> i32 \<Rightarrow> i64 \<Rightarrow> blocks \<Rightarrow> blocks" where
  "blk_manage cfg nb B (w0, w1, fin) =
     (if B = block_num w1 + 1 then (w1, next_block nb B w1, fin @ [finalized w0])
      else if sint B < sint (block_num w0 - 1) \<or> sint (block_num w1 + 1) < sint B
      then (init_block_info w0 (- 1) (B + 1) (run_pkts_per_block cfg),
            init_block_info w1 (- 1) (B + 2) (run_pkts_per_block cfg), fin)
      else (w0, w1, fin))"

fun blk_place :: "ingest_cfg \<Rightarrow> i64 \<Rightarrow> blocks \<Rightarrow> blocks" where
  "blk_place cfg B (w0, w1, fin) =
     (let i = ucast (B - block_num w0) :: i32
      in if 0 \<le> sint i \<and> sint i < 2
         then (if i = 0 then (stored cfg w0, w1, fin) else (w0, stored cfg w1, fin))
         else (w0, w1, fin))"

fun blk_run :: "ingest_cfg \<Rightarrow> i32 \<Rightarrow> frame list \<Rightarrow> blocks \<Rightarrow> blocks" where
  "blk_run cfg nb [] b = b"
| "blk_run cfg nb (f # fs) b =
     blk_run cfg nb fs
       (if rejected cfg f then b
        else blk_place cfg (pkt_blk_num_of cfg f) (blk_manage cfg nb (pkt_blk_num_of cfg f) b))"

text \<open>
  A thread that has just started, with the observation of scenario S1, a ring of four
  empty blocks that are free at once and no effects so far; and frames for the blocks
  0, 2 and 3, after which block 1 is handed downstream without a packet.
\<close>

definition fresh_thread :: "block_info \<Rightarrow> block_info \<Rightarrow> thread_state \<Rightarrow> error + thread_state" where
  "fresh_thread g0 g1 s =
     start_of_run g0 g1 cfg_S1 env_free env_free (s\<lparr>dbout := db_empty, events := []\<rparr>)"

definition unwritten_run :: "(frame \<times> ring_env) list" where
  "unwritten_run = [(frame_at 5, env_free), (frame_at 256, env_free), (frame_at 384, env_free)]"

subsection \<open>Notions for the scatter\<close>

text \<open>
  The \<open>nt \<times> nc\<close> destinations of one packet are distinct: no two samples of the packet
  go to the same unit of the block.
\<close>

definition no_alias :: "nat \<Rightarrow> nat \<Rightarrow> u64 \<Rightarrow> bool" where
  "no_alias nt nc os \<longleftrightarrow>
     (\<forall>t < nt. \<forall>c < nc. \<forall>t' < nt. \<forall>c' < nc.
        (of_nat t + of_nat c * os :: u64) = of_nat t' + of_nat c' * os \<longrightarrow> t = t' \<and> c = c')"

text \<open>
  The observation of scenario S1 with two antennas, and the metadata of the packet of
  antenna 1 with packet index 128.
\<close>

definition oi_two_ants :: obs_info where
  "oi_two_ants = (oi cfg_S1)\<lparr>nants := 2\<rparr>"

definition fei_ant1 :: feng_info where
  "fei_ant1 = \<lparr>pktidx = 128, feng_id = 1, feng_chan = 0\<rparr>"

section \<open>Properties\<close>

subsection \<open>Word arithmetic\<close>

lemma lt_ucast32:
  fixes ppb :: u64 and np :: u32
  shows "(ucast np < ppb) = (uint np < uint ppb)"
  by (simp add: word_less_def uint_up_ucast is_up)

lemma uint_sub_ucast32:
  fixes ppb :: u64 and np :: u32
  assumes "uint np < uint ppb"
  shows "uint (ppb - ucast np) = uint ppb - uint np"
proof -
  have "uint (ucast np :: u64) = uint np" by (simp add: uint_up_ucast is_up)
  then show ?thesis using assms by (simp add: uint_sub_if')
qed

lemma uint_ucast_small:
  fixes x :: u64
  assumes "uint x < 2 ^ 32"
  shows "uint (ucast x :: u32) = uint x"
  using assms by (simp add: unsigned_ucast_eq take_bit_int_eq_self)

lemma sint_small32:
  fixes x :: u32
  assumes "uint x < 2 ^ 31"
  shows "sint x = uint x"
proof -
  have "- 2147483648 \<le> uint x" using uint_ge_0 [of x] by linarith
  then show ?thesis
    using assms by (simp add: sint_uint signed_take_bit_int_eq_self_iff)
qed

subsection \<open>Finalizing a block\<close>

lemma finalize_ndrop:
  fixes ppb :: u64 and np :: u32
  assumes "uint ppb < 2 ^ 31"
  shows "uint (if ucast np < ppb then (ucast (ppb - ucast np) :: u32) else 0)
           = max 0 (uint ppb - uint np)"
proof (cases "uint np < uint ppb")
  case True
  have "uint (ppb - ucast np) = uint ppb - uint np"
    using True by (rule uint_sub_ucast32)
  moreover have "uint ppb < 2147483648" using assms by simp
  ultimately have "uint (ppb - ucast np) < 4294967296"
    using uint_ge_0 [of np] by linarith
  then have "uint (ppb - ucast np) < 2 ^ 32" by simp
  then have "uint (ucast (ppb - ucast np) :: u32) = uint (ppb - ucast np)"
    by (rule uint_ucast_small)
  then have "uint (ucast (ppb - ucast np) :: u32) = uint ppb - uint np"
    using \<open>uint (ppb - ucast np) = uint ppb - uint np\<close> by simp
  then show ?thesis using True by (simp add: lt_ucast32)
next
  case False
  then show ?thesis by (simp add: lt_ucast32)
qed

text \<open>
  \<^verbatim>\<open>finalize_block\<close> alone: called on a block whose slot index is not negative, whose
  \<open>ndrop\<close> is still 0 as \<^verbatim>\<open>reset_block_info_stats\<close> left it and whose
  \<open>pkts_per_block\<close> fits an \<^verbatim>\<open>int\<close>, returns with
  \<open>ndrop = max 0 (pkts_per_block - npacket)\<close>; it has written
  \<open>PKTIDX = block_num * pktidx_per_block\<close>, \<open>NPKT = npacket\<close> (as the \<^verbatim>\<open>int\<close> that
  \<^verbatim>\<open>hputi4\<close> takes), \<open>NDROP = ndrop\<close> and \<open>DROPSTAT\<close> = "ndrop/pkts_per_block" into the
  header of the block, and the block is marked filled.
\<close>

lemma finalize_block_header:
  assumes idx: "0 \<le> sint (block_idx_out bi)"
      and reset: "ndrop bi = 0"
      and small: "uint (pkts_per_block bi) < 2 ^ 31"
  shows "\<exists>bi' db'. finalize_block bi db = Inr (bi', db')
           \<and> uint (ndrop bi') = max 0 (uint (pkts_per_block bi) - uint (npacket bi))
           \<and> bi' = bi\<lparr>ndrop := ndrop bi'\<rparr>
           \<and> header db' (block_idx_out bi) ''PKTIDX''
               = Some (HInt (sint (block_num bi * pktidx_per_block bi)))
           \<and> header db' (block_idx_out bi) ''NPKT'' = Some (HInt (sint (npacket bi)))
           \<and> header db' (block_idx_out bi) ''NDROP''
               = Some (HInt (max 0 (uint (pkts_per_block bi) - uint (npacket bi))))
           \<and> header db' (block_idx_out bi) ''DROPSTAT''
               = Some (HStr (show_int (max 0 (uint (pkts_per_block bi) - uint (npacket bi)))
                             @ ''/'' @ show_nat (unat (pkts_per_block bi))))
           \<and> filled db' (block_idx_out bi)"
proof -
  define nd :: u32 where
    "nd = (if ucast (npacket bi) < pkts_per_block bi
           then ucast (pkts_per_block bi - ucast (npacket bi)) else 0)"
  have nd: "uint nd = max 0 (uint (pkts_per_block bi) - uint (npacket bi))"
    unfolding nd_def using small by (rule finalize_ndrop)
  have "uint nd \<le> uint (pkts_per_block bi)"
    using nd by (simp add: max_def split: if_splits)
  then have "uint nd < 2 ^ 31" using small by simp
  then have "sint nd = uint nd" by (rule sint_small32)
  then have snd: "sint nd = max 0 (uint (pkts_per_block bi) - uint (npacket bi))"
    using nd by simp
  have fin: "finalize_block bi db =
      Inr (bi\<lparr>ndrop := nd\<rparr>,
           db\<lparr>header := (header db)(block_idx_out bi :=
                  hputs (hputi4 (hputi4 (hputi8 (header db (block_idx_out bi)) ''PKTIDX''
                     (block_num bi * pktidx_per_block bi)) ''NPKT'' (npacket bi)) ''NDROP'' nd)
                     ''DROPSTAT'' (dropstat (bi\<lparr>ndrop := nd\<rparr>))),
              filled := (filled db)(block_idx_out bi := True)\<rparr>)"
  proof -
    have same: "bi\<lparr>ndrop := 0\<rparr> = bi" using reset by (cases bi) simp
    show ?thesis
      using idx reset by (simp add: finalize_block_def Let_def nd_def same)
  qed
  show ?thesis
    unfolding fin using nd snd
    by (simp add: hputs_def hputi4_def hputi8_def dropstat_def)
qed

lemma finalize_block_header_example:
  "0 \<le> sint (block_idx_out bi_S2) \<and> ndrop bi_S2 = 0 \<and> uint (pkts_per_block bi_S2) < 2 ^ 31
   \<and> (\<exists>bi' db'. finalize_block bi_S2 db_empty = Inr (bi', db')
         \<and> uint (ndrop bi') = 64
         \<and> header db' 1 ''PKTIDX'' = Some (HInt 128)
         \<and> header db' 1 ''NPKT'' = Some (HInt 64)
         \<and> header db' 1 ''NDROP'' = Some (HInt 64)
         \<and> header db' 1 ''DROPSTAT'' = Some (HStr ''64/128'')
         \<and> filled db' 1)"
  using finalize_block_header [of bi_S2 db_empty]
  by (simp add: bi_S2_def wblk_at_def show_int_def show_nat.simps digit_char_def) blast

subsection \<open>The loop body, phase by phase\<close>

lemma ucast_m1: "(ucast (- 1 :: 64 word) :: 32 word) = - 1"
  by (rule bit_word_eqI) (simp add: bit_ucast_iff)

lemma sint_add1:
  fixes x :: "64 word"
  assumes "sint x < 2 ^ 63 - 1"
  shows "sint (x + 1) = sint x + 1"
proof -
  have lo: "- (2 ^ 63) \<le> sint x" using sint_ge [of x] by simp
  have "sint (x + 1) = signed_take_bit 63 (sint x + 1)"
    by (simp add: sint_word_ariths)
  also have "\<dots> = sint x + 1"
    using assms lo by (simp add: signed_take_bit_int_eq_self_iff)
  finally show ?thesis .
qed

lemma sint_sub1:
  fixes x :: "64 word"
  assumes "- (2 ^ 63) < sint x"
  shows "sint (x - 1) = sint x - 1"
proof -
  have hi: "sint x < 2 ^ 63" using sint_lt [of x] by simp
  have "sint (x - 1) = signed_take_bit 63 (sint x - 1)"
    by (simp add: sint_word_ariths)
  also have "\<dots> = sint x - 1"
    using assms hi by (simp add: signed_take_bit_int_eq_self_iff)
  finally show ?thesis .
qed

lemma sint_small64:
  fixes x :: "64 word"
  assumes "x < 2 ^ 62"
  shows "sint x = uint x" and "0 \<le> sint x" and "sint x < 2 ^ 62"
proof -
  have u: "uint x < 2 ^ 62" using assms by (simp add: word_less_def)
  have "- 9223372036854775808 \<le> uint x" using uint_ge_0 [of x] by linarith
  moreover have "uint x < 9223372036854775808" using u by simp
  ultimately show "sint x = uint x"
    by (simp add: sint_uint signed_take_bit_int_eq_self_iff)
  then show "0 \<le> sint x" and "sint x < 2 ^ 62" using u by simp_all
qed

lemma finalized_nums_append [simp]:
  "finalized_nums (xs @ ys) = finalized_nums xs @ finalized_nums ys"
  by (simp add: finalized_nums_def)

lemma finalized_nums_simps [simp]:
  "finalized_nums [] = []"
  "finalized_nums (Finalized bi # evs) = sint (block_num bi) # finalized_nums evs"
  "finalized_nums (StatusUpdate p # evs) = finalized_nums evs"
  "finalized_nums (WaitedFree i # evs) = finalized_nums evs"
  "finalized_nums (Warned p # evs) = finalized_nums evs"
  by (simp_all add: finalized_nums_def)

lemma status_updates_append [simp]:
  "status_updates (xs @ ys) = status_updates xs @ status_updates ys"
  by (simp add: status_updates_def)

lemma status_updates_simps [simp]:
  "status_updates [] = []"
  "status_updates (StatusUpdate p # evs) = p # status_updates evs"
  "status_updates (Finalized bi # evs) = status_updates evs"
  "status_updates (WaitedFree i # evs) = status_updates evs"
  "status_updates (Warned p # evs) = status_updates evs"
  by (simp_all add: status_updates_def)

lemma process_packet_rejected:
  "rejected cfg f \<Longrightarrow> process_packet cfg fp env f s = Inr s"
  by (simp add: process_packet_def rejected_def)

lemma process_packet_accepted:
  assumes "\<not> rejected cfg f"
  shows "process_packet cfg fp env f s =
     (if run_pktidx_per_block cfg = 0 then Inl DivByZero
      else case manage_blocks cfg fp env (pkt_blk_num_of cfg f) (pktidx (info f))
                  (pre_manage cfg fp f s) of
             Inl e \<Rightarrow> Inl e
           | Inr s3 \<Rightarrow> place_packet cfg f (pkt_blk_num_of cfg f) s3)"
  using assms unfolding pkt_blk_num_of_def pre_manage_def
  by (simp add: process_packet_def rejected_def Let_def)

lemma process_packet_Inr:
  assumes "process_packet cfg fp env f s = Inr s'" and "\<not> rejected cfg f"
  shows "run_pktidx_per_block cfg \<noteq> 0
         \<and> (\<exists>s3. manage_blocks cfg fp env (pkt_blk_num_of cfg f) (pktidx (info f))
                    (pre_manage cfg fp f s) = Inr s3
                 \<and> place_packet cfg f (pkt_blk_num_of cfg f) s3 = Inr s')"
  using assms
  by (auto simp: process_packet_accepted split: if_splits sum.splits)

lemma check_start_stop_other:
  assumes "k \<notin> {''DAQSTATE'', ''STTVALID'', ''STT_IMJD'', ''STT_SMJD'', ''STT_OFFS''}"
  shows "snd (check_start_stop dflt fp buf p) k = buf k"
  using assms
  by (simp add: check_start_stop_def Let_def hputs_def hputu4_def hputr8_def
        split: prod.splits)

lemma wait_free_loop_other:
  assumes "wait_free_loop rs nb key buf = Inr b" and "k \<noteq> key" and "k \<noteq> ''NETBUFST''"
  shows "b k = buf k"
  using assms
proof (induction rs nb key buf rule: wait_free_loop.induct)
  case (3 full rs nb key buf)
  then have "b k = (hputs (hputs buf key ''outblocked'') ''NETBUFST'' (netbuf_status full nb)) k"
    by simp
  then show ?case using 3(3,4) by (simp add: hputs_def)
qed simp_all

lemma wait_free_loop_returns:
  "wait_returns rs \<Longrightarrow> \<exists>b. wait_free_loop rs nb key buf = Inr b"
  by (induction rs nb key buf rule: wait_free_loop.induct) simp_all

lemma wait_for_block_free_other:
  assumes "wait_for_block_free bi key env buf db = Inr (b, db')"
      and "k \<noteq> key" and "k \<noteq> ''NETBUFST''"
  shows "b k = buf k"
  using assms
  by (auto simp: wait_for_block_free_def Let_def hputs_def
        split: sum.splits dest!: wait_free_loop_other [where k = k])

lemma wait_for_block_free_db:
  assumes "wait_for_block_free bi key env buf db = Inr (b, db')"
  shows "db' = db\<lparr>header := (header db)(block_idx_out bi := b),
                  filled := (filled db)(block_idx_out bi := False)\<rparr>"
  using assms
  by (auto simp: wait_for_block_free_def Let_def split: sum.splits)

lemma wait_for_block_free_returns:
  assumes "wait_returns (wait_free env)"
  shows "\<exists>b db'. wait_for_block_free bi key env buf db = Inr (b, db')"
proof -
  obtain b where "wait_free_loop (wait_free env) (n_block db) key
      (hputs (hputs buf key ''waitfree'') ''NETBUFST''
         (netbuf_status (total_status env) (n_block db))) = Inr b"
    using wait_free_loop_returns [OF assms] by blast
  then show ?thesis by (simp add: wait_for_block_free_def Let_def)
qed

lemma count_packet_same:
  "wblk0 (count_packet cfg s) = wblk0 s" "wblk1 (count_packet cfg s) = wblk1 s"
  "dbout (count_packet cfg s) = dbout s" "st_buf (count_packet cfg s) = st_buf s"
  "events (count_packet cfg s) = events s"
  "status_seq_num (count_packet cfg s) = status_seq_num s"
  "start_seq_num (count_packet cfg s) = start_seq_num s"
  by (simp_all add: count_packet_def)

lemma block_status_update_same:
  "wblk0 (block_status_update cfg fp p s) = wblk0 s"
  "wblk1 (block_status_update cfg fp p s) = wblk1 s"
  "dbout (block_status_update cfg fp p s) = dbout s"
  "events (block_status_update cfg fp p s) = events s @ [StatusUpdate p]"
  "status_seq_num (block_status_update cfg fp p s) = p"
  by (simp_all add: block_status_update_def Let_def)

lemma block_status_update_other:
  assumes "k \<notin> {''PKTIDX'', ''BLOCSIZE'', ''PKTSTART'', ''DWELL'', ''NETGBPS'', ''NETPKPS'',
                 ''TBIN'', ''PKTSTOP'', ''NDROP'', ''NLATE''}"
  shows "st_buf (block_status_update cfg fp p s) k = st_buf s k"
  using assms
  by (simp add: block_status_update_def Let_def hputi8_def hputi4_def hputu8_def hputr8_def
        hputr4_def)

lemma block_status_update_pktstart:
  "st_buf (block_status_update cfg fp p s) ''PKTSTART''
     = Some (HInt (uint (rounded_pktstart cfg s)))"
  by (simp add: block_status_update_def Let_def hputi8_def hputi4_def hputu8_def hputr8_def
        hputr4_def hgetu8_def rounded_pktstart_def split: option.split hval.split)

lemma pre_manage_same:
  "wblk0 (pre_manage cfg fp f s) = wblk0 s" "wblk1 (pre_manage cfg fp f s) = wblk1 s"
  "dbout (pre_manage cfg fp f s) = dbout s"
  by (simp_all add: pre_manage_def count_packet_same block_status_update_same)

lemma pre_manage_events:
  "events (pre_manage cfg fp f s) =
     events s @ (if status_update_due cfg (pktidx (info f)) (count_packet cfg s)
                 then [StatusUpdate (pktidx (info f))] else [])"
  by (simp add: pre_manage_def count_packet_same block_status_update_same)

lemma finalize_block_Inr:
  assumes "finalize_block bi db = Inr (bi', db')"
  shows "0 \<le> sint (block_idx_out bi)" and "block_num bi' = block_num bi"
    and "block_idx_out bi' = block_idx_out bi"
    and "data db' = data db" and "n_block db' = n_block db"
    and "filled db' = (filled db)(block_idx_out bi := True)"
  using assms
  by (auto simp: finalize_block_def Let_def split: if_splits)

lemma finalize_block_returns:
  "0 \<le> sint (block_idx_out bi) \<Longrightarrow> \<exists>bi' db'. finalize_block bi db = Inr (bi', db')"
  by (simp add: finalize_block_def Let_def)

lemma increment_block_Inr:
  assumes "increment_block bi db B = Inr bi'"
  shows "bi' = bi\<lparr>block_idx_out :=
                    word_of_int (sint (block_idx_out bi + 1) smod sint (n_block db)),
                  block_num := B, npacket := 0, ndrop := 0\<rparr>"
    and "1 \<le> sint (n_block db)"
  using assms
  by (auto simp: increment_block_def reset_block_info_stats_def split: if_splits)

lemma increment_block_returns:
  "1 \<le> sint (n_block db) \<Longrightarrow> \<exists>bi'. increment_block bi db B = Inr bi'"
  by (simp add: increment_block_def)

lemma advance_blocks_Inr:
  assumes "advance_blocks cfg fp env B s = Inr s'"
  shows "\<exists>w0 db1 w1 b' db'.
           finalize_block (wblk0 s) (dbout s) = Inr (w0, db1)
         \<and> increment_block (wblk1 s) db1 B = Inr w1
         \<and> wait_for_block_free w1 (status_key cfg) env
               (snd (check_start_stop (ATASNAP_DEFAULT_PKTNTIME cfg) fp (st_buf s)
                       (block_num (wblk1 s) * ucast (run_pktidx_per_block cfg)))) db1
             = Inr (b', db')
         \<and> s' = s\<lparr>wblk0 := wblk1 s, wblk1 := w1, dbout := db', st_buf := b',
                   ndrop_total := ndrop_total s + ucast (ndrop w0),
                   events := events s @ [Finalized w0, WaitedFree (block_idx_out w1)]\<rparr>"
  using assms
  by (auto simp: advance_blocks_def Let_def split: sum.splits prod.splits)

lemma reinit_blocks_eq:
  "reinit_blocks cfg fp B p s =
     s\<lparr>wblk0 := init_block_info (wblk0 s) (- 1) (B + 1) (run_pkts_per_block cfg),
       wblk1 := init_block_info (wblk1 s) (- 1) (B + 2) (run_pkts_per_block cfg),
       st_buf := snd (check_start_stop (ATASNAP_DEFAULT_PKTNTIME cfg) fp (st_buf s)
                        ((B + 1) * ucast (run_pktidx_per_block cfg))),
       events := events s @ [Warned p]\<rparr>"
  by (simp add: reinit_blocks_def Let_def init_block_info_def reset_block_info_stats_def
        split: prod.splits)

lemma init_block_info_keep:
  "block_num (init_block_info bi (- 1) B ppb) = B"
  "block_idx_out (init_block_info bi (- 1) B ppb) = block_idx_out bi"
  "npacket (init_block_info bi (- 1) B ppb) = 0"
  "ndrop (init_block_info bi (- 1) B ppb) = 0"
  "pktidx_per_block (init_block_info bi (- 1) B ppb) = pktidx_per_block bi"
  by (simp_all add: init_block_info_def reset_block_info_stats_def Let_def)

lemma manage_blocks_cases:
  assumes "manage_blocks cfg fp env B p s = Inr s'"
  obtains (advance) "B = block_num (wblk1 s) + 1" "advance_blocks cfg fp env B s = Inr s'"
  | (reinit) "B \<noteq> block_num (wblk1 s) + 1" "discontinuity B s"
      "s' = reinit_blocks cfg fp B p s"
  | (late) "B \<noteq> block_num (wblk1 s) + 1" "\<not> discontinuity B s"
      "B = block_num (wblk0 s) - 1" "s' = s\<lparr>nlate := nlate s + 1\<rparr>"
  | (inside) "B \<noteq> block_num (wblk1 s) + 1" "\<not> discontinuity B s"
      "B \<noteq> block_num (wblk0 s) - 1" "s' = s"
  using assms
  by (auto simp: manage_blocks_def discontinuity_def split: if_splits)

lemma store_packet_Inr:
  assumes "store_packet cfg f bi db = Inr (bi', db')"
  shows "bi' = bi\<lparr>pkts_per_block := run_pkts_per_block cfg,
                  pktidx_per_block := ucast (run_pktidx_per_block cfg),
                  npacket := npacket bi + 1\<rparr>"
    and "n_block db' = n_block db" and "header db' = header db" and "filled db' = filled db"
  using assms
  by (auto simp: store_packet_def copy_packet_data_to_databuf_def Let_def
        split: sum.splits if_splits)

lemma store_packet_returns:
  "pkt_nchan (oi cfg) \<noteq> 0 \<Longrightarrow> \<exists>bi' db'. store_packet cfg f bi db = Inr (bi', db')"
  by (simp add: store_packet_def copy_packet_data_to_databuf_def Let_def)

lemma place_packet_outside:
  assumes "\<not> (0 \<le> sint (wblk_idx B s) \<and> sint (wblk_idx B s) < 2)"
  shows "place_packet cfg f B s = Inr s"
  using assms by (auto simp: place_packet_def Let_def)

lemma place_packet_second:
  assumes "wblk_idx B s = 1"
  shows "place_packet cfg f B s =
     (case store_packet cfg f (wblk1 s) (dbout s) of
        Inl e \<Rightarrow> Inl e
      | Inr (bi, db) \<Rightarrow> Inr (s\<lparr>wblk1 := bi, dbout := db\<rparr>))"
  using assms by (simp add: place_packet_def Let_def)

lemma place_packet_Inr:
  assumes "place_packet cfg f B s = Inr s'"
  shows "\<exists>w0 w1 db. s' = s\<lparr>wblk0 := w0, wblk1 := w1, dbout := db\<rparr>
           \<and> block_num w0 = block_num (wblk0 s) \<and> block_num w1 = block_num (wblk1 s)
           \<and> block_idx_out w0 = block_idx_out (wblk0 s)
           \<and> block_idx_out w1 = block_idx_out (wblk1 s)
           \<and> ndrop w0 = ndrop (wblk0 s) \<and> ndrop w1 = ndrop (wblk1 s)
           \<and> n_block db = n_block (dbout s) \<and> header db = header (dbout s)
           \<and> filled db = filled (dbout s)"
proof (cases "0 \<le> sint (wblk_idx B s) \<and> sint (wblk_idx B s) < 2")
  case False
  then have "s' = s" using assms by (simp add: place_packet_outside)
  then have "s' = s\<lparr>wblk0 := wblk0 s, wblk1 := wblk1 s, dbout := dbout s\<rparr>" by simp
  then show ?thesis by blast
next
  case True
  show ?thesis
  proof (cases "wblk_idx B s = 0")
    case z: True
    then obtain bi db where st: "store_packet cfg f (wblk0 s) (dbout s) = Inr (bi, db)"
      and s': "s' = s\<lparr>wblk0 := bi, dbout := db\<rparr>"
      using assms True by (auto simp: place_packet_def Let_def split: sum.splits)
    have "s' = s\<lparr>wblk0 := bi, wblk1 := wblk1 s, dbout := db\<rparr>" using s' by simp
    then show ?thesis using store_packet_Inr [OF st]
      by (intro exI [of _ bi] exI [of _ "wblk1 s"] exI [of _ db]) simp
  next
    case nz: False
    then obtain bi db where st: "store_packet cfg f (wblk1 s) (dbout s) = Inr (bi, db)"
      and s': "s' = s\<lparr>wblk1 := bi, dbout := db\<rparr>"
      using assms True by (auto simp: place_packet_def Let_def split: sum.splits)
    have "s' = s\<lparr>wblk0 := wblk0 s, wblk1 := bi, dbout := db\<rparr>" using s' by simp
    then show ?thesis using store_packet_Inr [OF st]
      by (intro exI [of _ "wblk0 s"] exI [of _ bi] exI [of _ db]) simp
  qed
qed

lemma place_packet_returns:
  "pkt_nchan (oi cfg) \<noteq> 0 \<Longrightarrow> \<exists>s'. place_packet cfg f B s = Inr s'"
  using store_packet_returns [of cfg f "wblk0 s" "dbout s"]
    store_packet_returns [of cfg f "wblk1 s" "dbout s"]
  by (auto simp: place_packet_def Let_def)

lemma manage_blocks_other:
  assumes "manage_blocks cfg fp env B p s = Inr s'"
      and "k \<notin> {''DAQSTATE'', ''STTVALID'', ''STT_IMJD'', ''STT_SMJD'', ''STT_OFFS'',
                  ''NETBUFST''}"
      and "k \<noteq> status_key cfg"
  shows "st_buf s' k = st_buf s k"
  using assms(1)
proof (cases rule: manage_blocks_cases)
  case advance
  from advance_blocks_Inr [OF advance(2)] obtain w0 db1 w1 b' db' where
    w: "wait_for_block_free w1 (status_key cfg) env
          (snd (check_start_stop (ATASNAP_DEFAULT_PKTNTIME cfg) fp (st_buf s)
                  (block_num (wblk1 s) * ucast (run_pktidx_per_block cfg)))) db1 = Inr (b', db')"
    and s': "s' = s\<lparr>wblk0 := wblk1 s, wblk1 := w1, dbout := db', st_buf := b',
                     ndrop_total := ndrop_total s + ucast (ndrop w0),
                     events := events s @ [Finalized w0, WaitedFree (block_idx_out w1)]\<rparr>"
    by blast
  have "b' k = snd (check_start_stop (ATASNAP_DEFAULT_PKTNTIME cfg) fp (st_buf s)
                      (block_num (wblk1 s) * ucast (run_pktidx_per_block cfg))) k"
    using wait_for_block_free_other [OF w, of k] assms(2,3) by simp
  also have "\<dots> = st_buf s k"
    using assms(2) by (intro check_start_stop_other) simp
  finally show ?thesis using s' by simp
next
  case reinit
  have "snd (check_start_stop (ATASNAP_DEFAULT_PKTNTIME cfg) fp (st_buf s)
          ((B + 1) * ucast (run_pktidx_per_block cfg))) k = st_buf s k"
    using assms(2) by (intro check_start_stop_other) simp
  then show ?thesis using reinit(3) by (simp add: reinit_blocks_eq)
next
  case late
  then show ?thesis by simp
next
  case inside
  then show ?thesis by simp
qed

lemma manage_blocks_returns:
  assumes "0 \<le> sint (block_idx_out (wblk0 s))" and "1 \<le> sint (n_block (dbout s))"
      and "wait_returns (wait_free env)"
  shows "\<exists>s'. manage_blocks cfg fp env B p s = Inr s'"
proof (cases "B = block_num (wblk1 s) + 1")
  case True
  obtain w0 db1 where f: "finalize_block (wblk0 s) (dbout s) = Inr (w0, db1)"
    using finalize_block_returns [OF assms(1)] by blast
  have "1 \<le> sint (n_block db1)" using finalize_block_Inr(5) [OF f] assms(2) by simp
  then obtain w1 where i: "increment_block (wblk1 s) db1 B = Inr w1"
    using increment_block_returns by blast
  obtain b' db' where
    "wait_for_block_free w1 (status_key cfg) env
       (snd (check_start_stop (ATASNAP_DEFAULT_PKTNTIME cfg) fp (st_buf s)
               (block_num (wblk1 s) * ucast (run_pktidx_per_block cfg)))) db1 = Inr (b', db')"
    using wait_for_block_free_returns [OF assms(3)] by blast
  then show ?thesis
    using True f i by (auto simp: manage_blocks_def advance_blocks_def Let_def split: prod.splits)
next
  case False
  then show ?thesis by (simp add: manage_blocks_def)
qed

lemma process_packet_returns:
  assumes "run_pktidx_per_block cfg \<noteq> 0" and "pkt_nchan (oi cfg) \<noteq> 0"
      and "0 \<le> sint (block_idx_out (wblk0 s))" and "1 \<le> sint (n_block (dbout s))"
      and "wait_returns (wait_free env)"
  shows "\<exists>s'. process_packet cfg fp env f s = Inr s'"
proof (cases "rejected cfg f")
  case True
  then show ?thesis by (simp add: process_packet_rejected)
next
  case False
  have "\<exists>s3. manage_blocks cfg fp env (pkt_blk_num_of cfg f) (pktidx (info f))
                (pre_manage cfg fp f s) = Inr s3"
    using assms(3-5) by (intro manage_blocks_returns) (simp_all add: pre_manage_same)
  then obtain s3 where m: "manage_blocks cfg fp env (pkt_blk_num_of cfg f) (pktidx (info f))
                        (pre_manage cfg fp f s) = Inr s3"
    by blast
  obtain s' where "place_packet cfg f (pkt_blk_num_of cfg f) s3 = Inr s'"
    using place_packet_returns [OF assms(2)] by blast
  then show ?thesis using False m assms(1) by (simp add: process_packet_accepted)
qed

lemma status_update_due_count [simp]:
  "status_update_due cfg p (count_packet cfg s) = status_update_due cfg p s"
  by (simp add: status_update_due_def count_packet_same)

lemma rounded_pktstart_count [simp]:
  "rounded_pktstart cfg (count_packet cfg s) = rounded_pktstart cfg s"
  by (simp add: rounded_pktstart_def count_packet_same)

text \<open>
  The hypothesis on \<open>ndrop\<close> holds throughout the run: between two frames, both
  working blocks have \<open>ndrop = 0\<close>, so \<^verbatim>\<open>finalize_block\<close> is only ever called on a
  block whose \<open>ndrop\<close> is 0.
\<close>

lemma manage_blocks_ndrop:
  assumes m: "manage_blocks cfg fp env B p s = Inr s'"
      and z: "ndrop (wblk0 s) = 0 \<and> ndrop (wblk1 s) = 0"
  shows "ndrop (wblk0 s') = 0 \<and> ndrop (wblk1 s') = 0"
  using m
proof (cases rule: manage_blocks_cases)
  case advance
  from advance_blocks_Inr [OF advance(2)] obtain w0 db1 w1 b' db' where
    i: "increment_block (wblk1 s) db1 B = Inr w1"
    and s': "s' = s\<lparr>wblk0 := wblk1 s, wblk1 := w1, dbout := db', st_buf := b',
                     ndrop_total := ndrop_total s + ucast (ndrop w0),
                     events := events s @ [Finalized w0, WaitedFree (block_idx_out w1)]\<rparr>"
    by blast
  have "ndrop w1 = 0" using increment_block_Inr(1) [OF i] by simp
  then show ?thesis using s' z by simp
next
  case reinit
  then show ?thesis by (simp add: reinit_blocks_eq init_block_info_keep)
next
  case late
  then show ?thesis using z by simp
next
  case inside
  then show ?thesis using z by simp
qed

lemma process_packet_ndrop:
  assumes run: "process_packet cfg fp env f s = Inr s'"
      and z: "ndrop (wblk0 s) = 0 \<and> ndrop (wblk1 s) = 0"
  shows "ndrop (wblk0 s') = 0 \<and> ndrop (wblk1 s') = 0"
proof (cases "rejected cfg f")
  case True
  then show ?thesis using run z by (simp add: process_packet_rejected)
next
  case False
  from process_packet_Inr [OF run False] obtain s3 where
    m: "manage_blocks cfg fp env (pkt_blk_num_of cfg f) (pktidx (info f))
              (pre_manage cfg fp f s) = Inr s3"
    and p: "place_packet cfg f (pkt_blk_num_of cfg f) s3 = Inr s'"
    by blast
  have "ndrop (wblk0 s3) = 0 \<and> ndrop (wblk1 s3) = 0"
    using z by (intro manage_blocks_ndrop [OF m]) (simp add: pre_manage_same)
  then show ?thesis using place_packet_Inr [OF p] by auto
qed

lemma run_packets_ndrop:
  assumes "run_packets cfg fp fs s = Inr s'"
      and "ndrop (wblk0 s) = 0 \<and> ndrop (wblk1 s) = 0"
  shows "ndrop (wblk0 s') = 0 \<and> ndrop (wblk1 s') = 0"
  using assms
proof (induction fs arbitrary: s)
  case Nil
  then show ?case by simp
next
  case (Cons a fs)
  obtain f env where a: "a = (f, env)" by (cases a)
  from Cons.prems(1) a obtain s1 where
    s1: "process_packet cfg fp env f s = Inr s1" and r: "run_packets cfg fp fs s1 = Inr s'"
    by (auto split: sum.splits)
  show ?case
    using Cons.IH [OF r] process_packet_ndrop [OF s1 Cons.prems(2)] by simp
qed

subsection \<open>The scatter\<close>

lemma copy_chans_untouched:
  assumes "\<And>c. c < n \<Longrightarrow> a \<noteq> dst + of_nat c * os"
  shows "copy_chans n os src si dst mem a = mem a"
  using assms
proof (induction n arbitrary: si dst mem)
  case 0
  then show ?case by simp
next
  case (Suc n)
  have a0: "a \<noteq> dst" using Suc.prems [of 0] by simp
  have "copy_chans n os src (Suc si) (dst + os) (mem(dst := src si)) a = (mem(dst := src si)) a"
  proof (rule Suc.IH)
    fix c assume "c < n"
    then have "a \<noteq> dst + of_nat (Suc c) * os" using Suc.prems [of "Suc c"] by simp
    then show "a \<noteq> dst + os + of_nat c * os" by (simp add: algebra_simps)
  qed
  then show ?case using a0 by simp
qed

lemma copy_chans_lands:
  assumes "c < n"
      and "\<And>c'. c' < n \<Longrightarrow> (of_nat c' * os :: u64) = of_nat c * os \<Longrightarrow> c' = c"
  shows "copy_chans n os src si dst mem (dst + of_nat c * os) = src (si + c)"
  using assms
proof (induction n arbitrary: si dst mem c)
  case 0
  then show ?case by simp
next
  case (Suc n)
  show ?case
  proof (cases c)
    case 0
    have "copy_chans n os src (Suc si) (dst + os) (mem(dst := src si)) dst
            = (mem(dst := src si)) dst"
    proof (rule copy_chans_untouched)
      fix c' assume c': "c' < n"
      show "dst \<noteq> dst + os + of_nat c' * os"
      proof
        assume "dst = dst + os + of_nat c' * os"
        then have "of_nat (Suc c') * os = of_nat c * os" using 0 by (simp add: algebra_simps)
        then have "Suc c' = c" using Suc.prems(2) [of "Suc c'"] c' by simp
        then show False using 0 by simp
      qed
    qed
    then show ?thesis using 0 by simp
  next
    case (Suc k)
    have "copy_chans n os src (Suc si) (dst + os) (mem(dst := src si)) (dst + os + of_nat k * os)
            = src (Suc si + k)"
    proof (rule Suc.IH)
      show "k < n" using Suc.prems(1) Suc by simp
    next
      fix c' assume c': "c' < n" and eq: "(of_nat c' * os :: u64) = of_nat k * os"
      have "of_nat (Suc c') * os = of_nat c * os" using eq Suc by (simp add: algebra_simps)
      then have "Suc c' = c" using Suc.prems(2) [of "Suc c'"] c' by simp
      then show "c' = k" using Suc by simp
    qed
    then show ?thesis using Suc by (simp add: algebra_simps)
  qed
qed

lemma copy_times_untouched:
  assumes "\<And>t c. t < nt \<Longrightarrow> c < nc \<Longrightarrow> a \<noteq> dst_base + of_nat t + of_nat c * os"
  shows "copy_times nt nc os src si dst_base mem a = mem a"
  using assms
proof (induction nt arbitrary: si dst_base mem)
  case 0
  then show ?case by simp
next
  case (Suc nt)
  have "copy_times nt nc os src (si + nc) (dst_base + 1) (copy_chans nc os src si dst_base mem) a
          = copy_chans nc os src si dst_base mem a"
  proof (rule Suc.IH)
    fix t c assume "t < nt" and "c < nc"
    then have "a \<noteq> dst_base + of_nat (Suc t) + of_nat c * os" using Suc.prems [of "Suc t" c] by simp
    then show "a \<noteq> dst_base + 1 + of_nat t + of_nat c * os" by (simp add: algebra_simps)
  qed
  also have "\<dots> = mem a"
  proof (rule copy_chans_untouched)
    fix c assume "c < nc"
    then show "a \<noteq> dst_base + of_nat c * os" using Suc.prems [of 0 c] by simp
  qed
  finally show ?case by simp
qed

lemma copy_times_lands:
  assumes "t < nt" and "c < nc" and "no_alias nt nc os"
  shows "copy_times nt nc os src si dst_base mem (dst_base + of_nat t + of_nat c * os)
           = src (si + t * nc + c)"
  using assms
proof (induction nt arbitrary: si dst_base mem t)
  case 0
  then show ?case by simp
next
  case (Suc nt)
  have inj: "\<And>t1 c1 t2 c2. t1 < Suc nt \<Longrightarrow> c1 < nc \<Longrightarrow> t2 < Suc nt \<Longrightarrow> c2 < nc \<Longrightarrow>
      (of_nat t1 + of_nat c1 * os :: u64) = of_nat t2 + of_nat c2 * os \<Longrightarrow> t1 = t2 \<and> c1 = c2"
    using Suc.prems(3) unfolding no_alias_def by blast
  show ?case
  proof (cases t)
    case 0
    have "copy_times nt nc os src (si + nc) (dst_base + 1) (copy_chans nc os src si dst_base mem)
            (dst_base + of_nat c * os)
          = copy_chans nc os src si dst_base mem (dst_base + of_nat c * os)"
    proof (rule copy_times_untouched)
      fix t' c' assume t': "t' < nt" and c': "c' < nc"
      show "dst_base + of_nat c * os \<noteq> dst_base + 1 + of_nat t' + of_nat c' * os"
      proof
        assume "dst_base + of_nat c * os = dst_base + 1 + of_nat t' + of_nat c' * os"
        then have "(of_nat 0 + of_nat c * os :: u64) = of_nat (Suc t') + of_nat c' * os"
          by (simp add: algebra_simps)
        then have "0 = Suc t' \<and> c = c'"
          using t' c' Suc.prems(2) by (intro inj) simp_all
        then show False by simp
      qed
    qed
    also have "\<dots> = src (si + c)"
    proof (rule copy_chans_lands [OF Suc.prems(2)])
      fix c' assume c': "c' < nc" and eq: "(of_nat c' * os :: u64) = of_nat c * os"
      have "(of_nat 0 + of_nat c' * os :: u64) = of_nat 0 + of_nat c * os" using eq by simp
      then have "0 = (0::nat) \<and> c' = c"
        using c' Suc.prems(2) by (intro inj) simp_all
      then show "c' = c" by simp
    qed
    finally show ?thesis using 0 by simp
  next
    case (Suc k)
    have "copy_times nt nc os src (si + nc) (dst_base + 1) (copy_chans nc os src si dst_base mem)
            (dst_base + 1 + of_nat k + of_nat c * os)
          = src (si + nc + k * nc + c)"
    proof (rule Suc.IH)
      show "k < nt" using Suc.prems(1) Suc by simp
      show "c < nc" using Suc.prems(2) .
      show "no_alias nt nc os"
        unfolding no_alias_def
      proof (intro allI impI)
        fix t1 c1 t2 c2
        assume b: "t1 < nt" "c1 < nc" "t2 < nt" "c2 < nc"
          and eq: "(of_nat t1 + of_nat c1 * os :: u64) = of_nat t2 + of_nat c2 * os"
        show "t1 = t2 \<and> c1 = c2" using b eq by (intro inj) simp_all
      qed
    qed
    then show ?thesis using Suc by (simp add: algebra_simps)
  qed
qed

text \<open>
  What the copy loops do. When the destinations of a packet are distinct, the unit
  of time sample \<open>t\<close> and channel \<open>c\<close> of the payload (unit \<open>t \<times> pkt_nchan + c\<close>) is
  stored at the base offset plus \<open>t + c \<times> ostride\<close>.
\<close>

lemma copy_packet_lands:
  assumes "copy_packet_data_to_databuf pl bi ob fei src db = Inr db'"
      and "t < unat (pkt_ntime ob)" and "c < unat (pkt_nchan ob)"
      and "no_alias (unat (pkt_ntime ob)) (unat (pkt_nchan ob)) (ostride bi ob)"
  shows "data db' (block_idx_out bi)
           (dst_base_offset pl bi ob fei + of_nat t + of_nat c * ostride bi ob)
         = src (t * unat (pkt_nchan ob) + c)"
proof -
  have "db' = db\<lparr>data := (data db)(block_idx_out bi :=
                  copy_times (unat (pkt_ntime ob)) (unat (pkt_nchan ob)) (ostride bi ob)
                    src 0 (dst_base_offset pl bi ob fei) (data db (block_idx_out bi)))\<rparr>"
    using assms(1) by (simp add: copy_packet_data_to_databuf_def split: if_splits)
  then show ?thesis
    using copy_times_lands [OF assms(2,3,4), of src 0 "dst_base_offset pl bi ob fei"
        "data db (block_idx_out bi)"]
    by simp
qed

lemma no_alias_rows:
  assumes rows: "nt \<le> unat os" and fits: "nc * unat os \<le> 2 ^ 64"
  shows "no_alias nt nc os"
  unfolding no_alias_def
proof (intro allI impI)
  fix t c t' c'
  assume t: "t < nt" and c: "c < nc" and t': "t' < nt" and c': "c' < nc"
    and eq: "(of_nat t + of_nat c * os :: u64) = of_nat t' + of_nat c' * os"
  let ?q = "unat os"
  have q: "0 < ?q" using rows t by simp
  have os: "os = of_nat ?q" by simp
  have bound: "\<And>a b. a < nt \<Longrightarrow> b < nc \<Longrightarrow> a + b * ?q < 2 ^ 64"
  proof -
    fix a b assume a: "a < nt" and b: "b < nc"
    have "a + b * ?q < ?q + b * ?q" using a rows by simp
    also have "\<dots> = Suc b * ?q" by simp
    also have "\<dots> \<le> nc * ?q" using b by (intro mult_le_mono1) simp
    finally show "a + b * ?q < 2 ^ 64" using fits by simp
  qed
  define N where "N = t + c * ?q"
  define N' where "N' = t' + c' * ?q"
  have N: "N < 2 ^ 64" and N': "N' < 2 ^ 64"
    using bound [OF t c] bound [OF t' c'] by (simp_all add: N_def N'_def)
  have "(of_nat N :: u64) = of_nat N'"
    using eq by (simp add: N_def N'_def)
  then have "unat (of_nat N :: u64) = unat (of_nat N' :: u64)" by simp
  then have "N = N'" using N N' by (simp add: unat_of_nat)
  then have n: "t + c * ?q = t' + c' * ?q" by (simp add: N_def N'_def)
  have tq: "t < ?q" "t' < ?q" using t t' rows by simp_all
  have "(t + c * ?q) mod ?q = (t' + c' * ?q) mod ?q" using n by simp
  then have tt: "t = t'" using tq by simp
  then have "c * ?q = c' * ?q" using n by simp
  then have "c = c'" using q by simp
  then show "t = t' \<and> c = c'" using tt by simp
qed

text \<open>
  C1 fails on the code. With the observation of scenario S1 and the first packet of
  the observation (packet index 0, antenna 0, first channel), the base offset that
  \<^verbatim>\<open>copy_packet_data_to_databuf\<close> computes is \<open>(0 - 128) \<times> 64 = -8192\<close> units of 16
  bits, before the data area of the block, where the address math of the
  specification gives 0: the code subtracts \<open>pktidx_per_block\<close> from the packet index
  instead of reducing the index modulo \<open>pktidx_per_block\<close>. So the unit of time 0 and
  channel 1 is stored at \<open>-8192 + 2048\<close>, and the unit at offset 2048, its place
  by the specification, is that of channel 5. With two antennas and the packet of
  antenna 1 with packet index 128, the code's base offset is \<open>2048 \<times> 128\<close>, twice that
  of the specification: the stream stride is the payload size in bytes times
  \<open>pktidx_per_block\<close>, not halved to units of 16 bits.
\<close>

theorem scatter_base_offset_diverges:
  "sint (dst_base_offset 2048 (wblk_at 0 0 0) (oi cfg_S1) (info (frame_at 0))) = - 8192
   \<and> spec_base_offset 2048 128 (oi cfg_S1) (info (frame_at 0)) = 0
   \<and> data (projr (copy_packet_data_to_databuf 2048 (wblk_at 0 0 0) (oi cfg_S1)
              (info (frame_at 0)) (payload (frame_at 0)) db_empty)) 0 (- 8192 + 2048) = 1
   \<and> data (projr (copy_packet_data_to_databuf 2048 (wblk_at 0 0 0) (oi cfg_S1)
              (info (frame_at 0)) (payload (frame_at 0)) db_empty)) 0 2048 = 5
   \<and> payload (frame_at 0) (0 * 64 + 1) = 1
   \<and> sint (dst_base_offset 2048 (wblk_at 0 1 0) oi_two_ants fei_ant1) = 262144
   \<and> spec_base_offset 2048 128 oi_two_ants fei_ant1 = 131072"
proof -
  let ?bi = "wblk_at 0 0 0"
  let ?oi = "oi cfg_S1"
  let ?fei = "info (frame_at 0)"
  let ?src = "payload (frame_at 0)"
  have base: "dst_base_offset 2048 ?bi ?oi ?fei = - 8192"
    by (simp add: dst_base_offset_def fid_stride_def stream_stride_def stream_def
          pktidx_stride_def wblk_at_def cfg_S1_def frame_at_def frame_sized_def)
  have os: "ostride ?bi ?oi = 2048"
    by (simp add: ostride_def wblk_at_def cfg_S1_def)
  have dims: "unat (pkt_ntime ?oi) = 16" "unat (pkt_nchan ?oi) = 64" "block_idx_out ?bi = 0"
    by (simp_all add: cfg_S1_def wblk_at_def)
  have na: "no_alias (unat (pkt_ntime ?oi)) (unat (pkt_nchan ?oi)) (ostride ?bi ?oi)"
    unfolding os dims by (rule no_alias_rows) simp_all
  obtain db' where db': "copy_packet_data_to_databuf 2048 ?bi ?oi ?fei ?src db_empty = Inr db'"
    by (simp add: copy_packet_data_to_databuf_def cfg_S1_def)
  have l1: "data db' (block_idx_out ?bi)
              (dst_base_offset 2048 ?bi ?oi ?fei + of_nat 0 + of_nat 1 * ostride ?bi ?oi)
            = ?src (0 * unat (pkt_nchan ?oi) + 1)"
    using na by (intro copy_packet_lands [OF db']) (simp_all add: dims)
  have l5: "data db' (block_idx_out ?bi)
              (dst_base_offset 2048 ?bi ?oi ?fei + of_nat 0 + of_nat 5 * ostride ?bi ?oi)
            = ?src (0 * unat (pkt_nchan ?oi) + 5)"
    using na by (intro copy_packet_lands [OF db']) (simp_all add: dims)
  have src: "?src 1 = 1" "?src 5 = 5" by (simp_all add: frame_at_def frame_sized_def)
  have s0: "spec_base_offset 2048 128 ?oi ?fei = 0"
    by (simp add: spec_base_offset_def spec_stream_stride_def cfg_S1_def frame_at_def
          frame_sized_def)
  have b2: "dst_base_offset 2048 (wblk_at 0 1 0) oi_two_ants fei_ant1 = 262144"
    by (simp add: dst_base_offset_def fid_stride_def stream_stride_def stream_def
          pktidx_stride_def wblk_at_def oi_two_ants_def cfg_S1_def fei_ant1_def)
  have s2: "spec_base_offset 2048 128 oi_two_ants fei_ant1 = 131072"
    by (simp add: spec_base_offset_def spec_stream_stride_def oi_two_ants_def cfg_S1_def
          fei_ant1_def)
  show ?thesis
    using l1 l5 src s0 s2 by (simp add: base os dims db' b2)
qed

subsection \<open>Start and stop of recording\<close>

lemma uint_mult_nowrap:
  fixes p :: u64 and n :: u32
  assumes "uint p * uint n < 2 ^ 64"
  shows "uint (p * ucast n) = uint p * uint n"
proof -
  have "uint (ucast n :: u64) = uint n" by (simp add: uint_up_ucast is_up)
  then have "uint (p * ucast n) = uint p * uint n mod 2 ^ 64"
    by (simp add: uint_word_ariths)
  moreover have "0 \<le> uint p * uint n" by simp
  ultimately show ?thesis using assms by simp
qed

lemmas dbl_eval =
  d_of_int_def d_of_u64_def d_of_i64_def d_round_def round_mag_def ilog2_def halvings.simps
  doublings.simps rne_def pow2_def dbl_val_def d_sub_def with_sign_def sign_bit_def
  mjd_of_timespec_def bit_iff_odd Let_def

text \<open>
  C7. After a call of \<^verbatim>\<open>check_start_stop\<close> with packet index \<open>p\<close>, \<open>STTVALID\<close> reads 1
  exactly when \<open>PKTSTART \<le> p < PKTSTOP\<close> (the call leaves both bounds as they were,
  and returns \<open>RECORD\<close> in exactly that case). When \<open>p\<close> is in the window and \<open>STTVALID\<close>
  did not read 1 before, the call writes \<open>STT_IMJD\<close>, \<open>STT_SMJD\<close> and \<open>STT_OFFS\<close>: with
  \<^verbatim>\<open>get_mjd_from_timespec\<close> as the specification has it and \<open>p \<times> PKTNTIME\<close> below
  \<open>2\<^sup>6\<^sup>4\<close>, they are the Modified Julian Date of \<open>SYNCTIME\<close> plus
  \<open>realtime_secs = p \<times> PKTNTIME / (1e6 \<times> |CHAN_BW|)\<close> (of \<open>SYNCTIME\<close> when \<open>CHAN_BW\<close> is zero),
  computed in \<^verbatim>\<open>double\<close>: day and second of \<open>SYNCTIME\<close> plus the seconds rounded to an
  integer, and the rest of the seconds in whole nanoseconds as the fraction. In every
  other call the three cards stay as they were.
\<close>

theorem check_start_stop_gating:
  "(hgetu4 (snd (check_start_stop dflt fp buf p)) ''STTVALID'' 0 = 1 \<longleftrightarrow> in_window buf p)
   \<and> (fst (check_start_stop dflt fp buf p) = RECORD \<longleftrightarrow> in_window buf p)
   \<and> in_window (snd (check_start_stop dflt fp buf p)) p = in_window buf p
   \<and> (first_in_window buf p \<and> get_mjd_from_timespec fp = mjd_of_timespec
         \<and> uint p * uint (hgetu4 buf ''PKTNTIME'' dflt) < 2 ^ 64
       \<longrightarrow> stt_cards (snd (check_start_stop dflt fp buf p)) = spec_stt dflt buf p)
   \<and> (\<not> first_in_window buf p
       \<longrightarrow> stt_cards (snd (check_start_stop dflt fp buf p)) = stt_cards buf)"
proof (intro conjI impI)
  show "hgetu4 (snd (check_start_stop dflt fp buf p)) ''STTVALID'' 0 = 1 \<longleftrightarrow> in_window buf p"
    by (simp add: check_start_stop_def in_window_def Let_def
          hgetu4_def hgetu8_def hputs_def hputu4_def hputr8_def
          split: prod.splits option.splits hval.splits)
  show "fst (check_start_stop dflt fp buf p) = RECORD \<longleftrightarrow> in_window buf p"
    by (simp add: check_start_stop_def in_window_def Let_def split: prod.splits)
  show "in_window (snd (check_start_stop dflt fp buf p)) p = in_window buf p"
    by (simp add: check_start_stop_def in_window_def Let_def
          hgetu4_def hgetu8_def hputs_def hputu4_def hputr8_def
          split: prod.splits)
next
  assume "\<not> first_in_window buf p"
  then show "stt_cards (snd (check_start_stop dflt fp buf p)) = stt_cards buf"
    by (auto simp: check_start_stop_def first_in_window_def in_window_def stt_cards_def Let_def
          hputs_def hputu4_def)
next
  assume a: "first_in_window buf p \<and> get_mjd_from_timespec fp = mjd_of_timespec
             \<and> uint p * uint (hgetu4 buf ''PKTNTIME'' dflt) < 2 ^ 64"
  let ?b2 = "hputu4 (hputs buf ''DAQSTATE'' ''RECORD'') ''STTVALID'' 1"
  have same: "hgetu4 ?b2 ''PKTNTIME'' dflt = hgetu4 buf ''PKTNTIME'' dflt"
    "hgetr8 ?b2 ''CHAN_BW'' dbl_one = hgetr8 buf ''CHAN_BW'' dbl_one"
    "hgetu8 ?b2 ''SYNCTIME'' 0 = hgetu8 buf ''SYNCTIME'' 0"
    by (simp_all add: hgetu4_def hgetr8_def hgetu8_def hputs_def hputu4_def)
  have prod: "d_of_u64 (p * ucast (hgetu4 buf ''PKTNTIME'' dflt))
                = d_of_int (uint p * uint (hgetu4 buf ''PKTNTIME'' dflt))"
    using a by (simp add: d_of_u64_def uint_mult_nowrap)
  have "snd (check_start_stop dflt fp buf p) =
          (let chan_bw = dbl_val (hgetr8 buf ''CHAN_BW'' dbl_one);
               secs = (if d_eq chan_bw (Finite False 0) then Finite False 0
                       else spec_realtime_secs p (hgetu4 buf ''PKTNTIME'' dflt) chan_bw);
               tv_sec = d_to_i64 (d_add (d_of_u64 (hgetu8 buf ''SYNCTIME'' 0)) (d_rint secs));
               tv_nsec = d_to_i64 (d_mul (d_sub secs (d_rint secs)) (Finite False 1000000000));
               (imjd, smjd, offs) = mjd_of_timespec tv_sec tv_nsec
           in hputr8 (hputu4 (hputu4 ?b2 ''STT_IMJD'' imjd) ''STT_SMJD'' smjd) ''STT_OFFS'' offs)"
    using a unfolding first_in_window_def in_window_def
    by (simp add: check_start_stop_def Let_def same prod spec_realtime_secs_def
          split: prod.splits)
  then show "stt_cards (snd (check_start_stop dflt fp buf p)) = spec_stt dflt buf p"
    by (simp add: stt_cards_def spec_stt_def spec_mjd_def Let_def hputr8_def hputu4_def
          split: prod.splits)
qed

text \<open>
  In scenario S5 the first packet index of the recording is 256: \<open>realtime_secs\<close> is
  \<open>4096 / 500000\<close> rounded to a \<^verbatim>\<open>double\<close>, the seconds are those of \<open>SYNCTIME\<close> and the
  fraction is 8192000 ns. With the first packet index 50000, \<open>realtime_secs\<close> is the
  \<^verbatim>\<open>double\<close> next to 1.6: the seconds are rounded up by 2 and the fraction is
  \<open>-399999999\<close> ns. At packet index 512 the window is left, and a second call in the
  window leaves the cards as they are.
\<close>

theorem check_start_stop_gating_witness:
  "first_in_window buf_S5 256 \<and> get_mjd_from_timespec fp_example = mjd_of_timespec
   \<and> uint (256 :: u64) * uint (hgetu4 buf_S5 ''PKTNTIME'' 16) < 2 ^ 64
   \<and> hgetu4 (snd (check_start_stop 16 fp_example buf_S5 256)) ''STTVALID'' 0 = 1
   \<and> stt_cards (snd (check_start_stop 16 fp_example buf_S5 256))
       = (Some (HInt 59105), Some (HInt 44800), Some (HDbl 0x3F80C6F7A0B5ED8D))
   \<and> first_in_window buf_long 50000
   \<and> uint (50000 :: u64) * uint (hgetu4 buf_long ''PKTNTIME'' 16) < 2 ^ 64
   \<and> stt_cards (snd (check_start_stop 16 fp_example buf_long 50000))
       = (Some (HInt 59105), Some (HInt 44802), Some (HDbl 0xBFD999999886B8DB))
   \<and> \<not> in_window buf_S5 512 \<and> \<not> first_in_window buf_S5 512
   \<and> hgetu4 (snd (check_start_stop 16 fp_example buf_S5 512)) ''STTVALID'' 0 = 0
   \<and> stt_cards (snd (check_start_stop 16 fp_example buf_S5 512)) = (None, None, None)
   \<and> \<not> first_in_window (snd (check_start_stop 16 fp_example buf_S5 256)) 300
   \<and> stt_cards (snd (check_start_stop 16 fp_example
                       (snd (check_start_stop 16 fp_example buf_S5 256)) 300))
       = (Some (HInt 59105), Some (HInt 44800), Some (HDbl 0x3F80C6F7A0B5ED8D))"
proof -
  have a: "first_in_window buf_S5 256" "\<not> in_window buf_S5 512" "\<not> first_in_window buf_S5 512"
    "first_in_window buf_long 50000"
    by (simp_all add: first_in_window_def in_window_def buf_long_def buf_S5_def hgetu8_def
          hgetu4_def)
  have b: "get_mjd_from_timespec fp_example = mjd_of_timespec" by (simp add: fp_example_def)
  have c: "uint (256 :: u64) * uint (hgetu4 buf_S5 ''PKTNTIME'' 16) < 2 ^ 64"
    "uint (50000 :: u64) * uint (hgetu4 buf_long ''PKTNTIME'' 16) < 2 ^ 64"
    by (simp_all add: buf_long_def buf_S5_def hgetu4_def)
  have rs1: "spec_realtime_secs 256 16 (Finite False (1 / 2))
               = Finite False (4722366482869645 / 576460752303423488)"
    by (simp add: spec_realtime_secs_def dbl_eval)
  have rs2: "spec_realtime_secs 50000 16 (Finite False (1 / 2))
               = Finite False (3602879701896397 / 2251799813685248)"
    by (simp add: spec_realtime_secs_def dbl_eval)
  have m1: "spec_mjd 1600000000 (Finite False (4722366482869645 / 576460752303423488))
              = (Some (HInt 59105), Some (HInt 44800), Some (HDbl 0x3F80C6F7A0B5ED8D))"
    by (simp add: spec_mjd_def dbl_eval)
  have m2: "spec_mjd 1600000000 (Finite False (3602879701896397 / 2251799813685248))
              = (Some (HInt 59105), Some (HInt 44802), Some (HDbl 0xBFD999999886B8DB))"
    by (simp add: spec_mjd_def dbl_eval)
  have half: "dbl_val 0x3FE0000000000000 = Finite False (1 / 2)"
    by (simp add: dbl_eval)
  have d1: "spec_stt 16 buf_S5 256
              = (Some (HInt 59105), Some (HInt 44800), Some (HDbl 0x3F80C6F7A0B5ED8D))"
    by (simp add: spec_stt_def buf_S5_def hgetu4_def hgetr8_def hgetu8_def half rs1 m1
          with_sign_def)
  have d2: "spec_stt 16 buf_long 50000
              = (Some (HInt 59105), Some (HInt 44802), Some (HDbl 0xBFD999999886B8DB))"
    by (simp add: spec_stt_def buf_long_def buf_S5_def hgetu4_def hgetr8_def hgetu8_def half
          rs2 m2 with_sign_def)
  have e: "stt_cards buf_S5 = (None, None, None)"
    by (simp add: stt_cards_def buf_S5_def)
  have f: "hgetu4 (snd (check_start_stop 16 fp_example buf_S5 512)) ''STTVALID'' 0 = 0"
    using check_start_stop_gating [of 16 fp_example buf_S5 512] a
    by (simp add: check_start_stop_def buf_S5_def hgetu4_def hgetu8_def hputs_def Let_def)
  have g: "\<not> first_in_window (snd (check_start_stop 16 fp_example buf_S5 256)) 300"
    using check_start_stop_gating [of 16 fp_example buf_S5 256] a
    by (simp add: first_in_window_def)
  show ?thesis
    using check_start_stop_gating [of 16 fp_example buf_S5 256]
      check_start_stop_gating [of 16 fp_example buf_long 50000]
      check_start_stop_gating [of 16 fp_example buf_S5 512]
      check_start_stop_gating [of 16 fp_example "snd (check_start_stop 16 fp_example buf_S5 256)" 300]
      a b c d1 d2 e f g a [unfolded first_in_window_def]
    by simp
qed

subsection \<open>The start index written back\<close>

lemma round_down_multiple:
  fixes r :: u64 and q :: u64
  shows "uint (r - r mod q) mod uint q = 0"
proof -
  have le: "r mod q \<le> r" by (simp add: word_le_def uint_mod zmod_le_nonneg_dividend)
  have "uint (r - r mod q) = uint r - uint (r mod q)"
    using le by (simp add: uint_sub_if' word_le_def)
  also have "\<dots> = uint r - uint r mod uint q" by (simp add: uint_mod)
  finally show ?thesis by (simp add: minus_mod_eq_mult_div)
qed

lemma uint_ucast_u32:
  fixes p :: u32
  shows "uint (ucast p :: u64) = uint p"
  by (simp add: uint_up_ucast is_up)

lemma pre_manage_pktstart:
  "st_buf (pre_manage cfg fp f s) ''PKTSTART'' =
     (if status_update_due cfg (pktidx (info f)) s
      then Some (HInt (uint (rounded_pktstart cfg s))) else st_buf s ''PKTSTART'')"
  by (simp add: pre_manage_def block_status_update_pktstart count_packet_same)

text \<open>
  C8. A frame changes the \<open>PKTSTART\<close> card only by the once-per-block status update,
  which reads \<open>PKTSTART\<close>, rounds it down to a multiple of \<open>pktidx_per_block\<close> and
  writes it back: the value written is a multiple of \<open>pktidx_per_block\<close>. No other
  part of the loop body writes the card.
\<close>

theorem pktstart_written_back_is_multiple:
  assumes run: "process_packet cfg fp env f s = Inr s'"
      and key: "status_key cfg = ''NETSTAT''"
  shows "if \<not> rejected cfg f \<and> status_update_due cfg (pktidx (info f)) s
         then st_buf s' ''PKTSTART'' = Some (HInt (uint (rounded_pktstart cfg s)))
              \<and> uint (rounded_pktstart cfg s) mod uint (run_pktidx_per_block cfg) = 0
              \<and> run_pktidx_per_block cfg \<noteq> 0
         else st_buf s' ''PKTSTART'' = st_buf s ''PKTSTART''"
proof (cases "rejected cfg f")
  case True
  then show ?thesis using run by (simp add: process_packet_rejected)
next
  case False
  from process_packet_Inr [OF run False] obtain s3 where
    nz: "run_pktidx_per_block cfg \<noteq> 0"
    and m: "manage_blocks cfg fp env (pkt_blk_num_of cfg f) (pktidx (info f))
              (pre_manage cfg fp f s) = Inr s3"
    and p: "place_packet cfg f (pkt_blk_num_of cfg f) s3 = Inr s'"
    by blast
  have "st_buf s' = st_buf s3" using place_packet_Inr [OF p] by auto
  moreover have "st_buf s3 ''PKTSTART'' = st_buf (pre_manage cfg fp f s) ''PKTSTART''"
    using key by (intro manage_blocks_other [OF m]) simp_all
  ultimately have eq: "st_buf s' ''PKTSTART'' = st_buf (pre_manage cfg fp f s) ''PKTSTART''"
    by simp
  have "uint (rounded_pktstart cfg s) mod uint (ucast (run_pktidx_per_block cfg) :: u64) = 0"
    unfolding rounded_pktstart_def by (rule round_down_multiple)
  then have "uint (rounded_pktstart cfg s) mod uint (run_pktidx_per_block cfg) = 0"
    by (simp add: uint_ucast_u32)
  then show ?thesis using False nz eq by (simp add: pre_manage_pktstart)
qed

theorem pktstart_written_back_is_multiple_witness:
  "st_buf (projr (process_packet cfg_S1 fp_example env_free (frame_at 0) (state_pktstart 300)))
     ''PKTSTART'' = Some (HInt 256)
   \<and> (256 :: int) mod uint (run_pktidx_per_block cfg_S1) = 0"
proof -
  have "\<exists>s'. process_packet cfg_S1 fp_example env_free (frame_at 0) (state_pktstart 300) = Inr s'"
    by (rule process_packet_returns)
       (simp_all add: cfg_S1_def state_pktstart_def state_with_def wblk_at_def db_empty_def
          env_free_def)
  then obtain s' where
    s': "process_packet cfg_S1 fp_example env_free (frame_at 0) (state_pktstart 300) = Inr s'"
    by blast
  have key: "status_key cfg_S1 = ''NETSTAT''" by (simp add: cfg_S1_def)
  have acc: "\<not> rejected cfg_S1 (frame_at 0)"
    by (simp add: rejected_def cfg_S1_def frame_at_def frame_sized_def)
  have due: "status_update_due cfg_S1 (pktidx (info (frame_at 0))) (state_pktstart 300)"
    by (simp add: status_update_due_def cfg_S1_def frame_at_def frame_sized_def
          state_pktstart_def state_with_def)
  have r: "rounded_pktstart cfg_S1 (state_pktstart 300) = 256"
    by (simp add: rounded_pktstart_def cfg_S1_def state_pktstart_def hgetu8_def)
  show ?thesis
    using pktstart_written_back_is_multiple [OF s' key] acc due r by (simp add: s')
qed

subsection \<open>The discontinuity branch\<close>

lemma discontinuity_pre_manage [simp]:
  "discontinuity B (pre_manage cfg fp f s) = discontinuity B s"
  by (simp add: discontinuity_def pre_manage_same)

lemma wblk_idx_reinit:
  "sint (wblk_idx B (reinit_blocks cfg fp B p s)) = - 1"
  by (simp add: wblk_idx_def reinit_blocks_eq init_block_info_keep ucast_m1)

lemma window_ordered_not_wrapped:
  assumes "window_ordered s"
  shows "sint (block_num (wblk0 s) - 1) \<le> sint (block_num (wblk1 s) + 1)"
proof -
  have c: "sint (block_num (wblk1 s)) = sint (block_num (wblk0 s)) + 1"
    and lo: "- (2 ^ 62) \<le> sint (block_num (wblk0 s))"
    and hi: "sint (block_num (wblk0 s)) \<le> 2 ^ 62"
    using assms by (simp_all add: window_ordered_def window_of_def)
  have "sint (block_num (wblk0 s) - 1) = sint (block_num (wblk0 s)) - 1"
    using lo by (intro sint_sub1) simp
  moreover have "sint (block_num (wblk1 s) + 1) = sint (block_num (wblk1 s)) + 1"
    using c hi by (intro sint_add1) simp
  ultimately show ?thesis using c by simp
qed

lemma process_packet_reinit:
  assumes acc: "\<not> rejected cfg f" and nz: "run_pktidx_per_block cfg \<noteq> 0"
      and disc: "discontinuity (pkt_blk_num_of cfg f) s"
      and win: "sint (block_num (wblk0 s) - 1) \<le> sint (block_num (wblk1 s) + 1)"
  shows "process_packet cfg fp env f s =
           Inr (reinit_blocks cfg fp (pkt_blk_num_of cfg f) (pktidx (info f))
                  (pre_manage cfg fp f s))"
proof -
  let ?B = "pkt_blk_num_of cfg f"
  have ne: "?B \<noteq> block_num (wblk1 s) + 1"
    using disc win by (auto simp: discontinuity_def)
  have m: "manage_blocks cfg fp env ?B (pktidx (info f)) (pre_manage cfg fp f s) =
             Inr (reinit_blocks cfg fp ?B (pktidx (info f)) (pre_manage cfg fp f s))"
    using ne disc by (simp add: manage_blocks_def pre_manage_same discontinuity_def)
  have "place_packet cfg f ?B (reinit_blocks cfg fp ?B (pktidx (info f)) (pre_manage cfg fp f s))
          = Inr (reinit_blocks cfg fp ?B (pktidx (info f)) (pre_manage cfg fp f s))"
    by (rule place_packet_outside) (simp add: wblk_idx_reinit)
  then show ?thesis using acc nz m by (simp add: process_packet_accepted)
qed

text \<open>
  C5. An accepted frame whose block number \<open>B\<close> is below \<open>W[0] - 1\<close> or above
  \<open>W[1] + 1\<close> (with the window itself not wrapped around the ends of \<^verbatim>\<open>int64_t\<close>) is
  processed without error: both working blocks are reinitialised, for the block
  numbers \<open>B + 1\<close> and \<open>B + 2\<close> and with no packets; the warning is the last effect; and
  the frame is placed in no block: the output databuf is as before.
\<close>

theorem discontinuity_reinit:
  assumes acc: "\<not> rejected cfg f" and nz: "run_pktidx_per_block cfg \<noteq> 0"
      and disc: "discontinuity (pkt_blk_num_of cfg f) s"
      and win: "sint (block_num (wblk0 s) - 1) \<le> sint (block_num (wblk1 s) + 1)"
  shows "\<exists>s'. process_packet cfg fp env f s = Inr s'
           \<and> block_num (wblk0 s') = pkt_blk_num_of cfg f + 1
           \<and> block_num (wblk1 s') = pkt_blk_num_of cfg f + 2
           \<and> npacket (wblk0 s') = 0 \<and> npacket (wblk1 s') = 0
           \<and> events s' = events (pre_manage cfg fp f s) @ [Warned (pktidx (info f))]
           \<and> dbout s' = dbout s"
  using process_packet_reinit [OF assms]
  by (simp add: reinit_blocks_eq init_block_info_keep pre_manage_same)

theorem discontinuity_reinit_witness:
  "\<not> rejected cfg_S1 (frame_at 10000) \<and> run_pktidx_per_block cfg_S1 \<noteq> 0
   \<and> discontinuity (pkt_blk_num_of cfg_S1 (frame_at 10000)) state_S4
   \<and> pkt_blk_num_of cfg_S1 (frame_at 10000) = 78
   \<and> (\<exists>s'. process_packet cfg_S1 fp_example env_free (frame_at 10000) state_S4 = Inr s'
         \<and> block_num (wblk0 s') = 79 \<and> block_num (wblk1 s') = 80
         \<and> npacket (wblk0 s') = 0 \<and> npacket (wblk1 s') = 0
         \<and> events s' = [Warned 10000] \<and> dbout s' = db_empty)"
proof -
  have a: "\<not> rejected cfg_S1 (frame_at 10000)"
    by (simp add: rejected_def cfg_S1_def frame_at_def frame_sized_def)
  have b: "run_pktidx_per_block cfg_S1 \<noteq> 0" by (simp add: cfg_S1_def)
  have B: "pkt_blk_num_of cfg_S1 (frame_at 10000) = 78"
    by (simp add: pkt_blk_num_of_def cfg_S1_def frame_at_def frame_sized_def)
  have c: "discontinuity (pkt_blk_num_of cfg_S1 (frame_at 10000)) state_S4"
    by (simp add: B discontinuity_def state_S4_def state_with_def wblk_at_def)
  have d: "sint (block_num (wblk0 state_S4) - 1) \<le> sint (block_num (wblk1 state_S4) + 1)"
    by (simp add: state_S4_def state_with_def wblk_at_def)
  have e: "events (pre_manage cfg_S1 fp_example (frame_at 10000) state_S4) = []"
    by (simp add: pre_manage_events status_update_due_def cfg_S1_def frame_at_def
          frame_sized_def state_S4_def state_with_def)
  have f: "dbout state_S4 = db_empty" by (simp add: state_S4_def state_with_def)
  have g: "pktidx (info (frame_at 10000)) = 10000"
    by (simp add: frame_at_def frame_sized_def)
  show ?thesis
    using discontinuity_reinit [OF a b c d, of fp_example env_free] a b c B e f g
    by simp
qed

text \<open>
  C3, as the code has it. An accepted frame that is a discontinuity does not
  finalize the working blocks: no block is handed downstream and the output databuf
  (headers, data, filled flags) is as before; the two working blocks keep their ring
  slots and their counters are reset to 0; the packets they held are not added to
  the drop total.
\<close>

theorem discontinuity_finalizes_nothing:
  assumes acc: "\<not> rejected cfg f" and nz: "run_pktidx_per_block cfg \<noteq> 0"
      and disc: "discontinuity (pkt_blk_num_of cfg f) s"
      and win: "sint (block_num (wblk0 s) - 1) \<le> sint (block_num (wblk1 s) + 1)"
  shows "\<exists>s'. process_packet cfg fp env f s = Inr s'
           \<and> finalized_nums (events s') = finalized_nums (events s)
           \<and> dbout s' = dbout s
           \<and> block_idx_out (wblk0 s') = block_idx_out (wblk0 s)
           \<and> block_idx_out (wblk1 s') = block_idx_out (wblk1 s)
           \<and> npacket (wblk0 s') = 0 \<and> ndrop (wblk0 s') = 0
           \<and> npacket (wblk1 s') = 0 \<and> ndrop (wblk1 s') = 0
           \<and> ndrop_total s' = ndrop_total (pre_manage cfg fp f s)"
  using process_packet_reinit [OF assms]
  by (simp add: reinit_blocks_eq init_block_info_keep pre_manage_same pre_manage_events)

theorem discontinuity_finalizes_nothing_witness:
  "\<not> rejected cfg_S1 (frame_at 10000) \<and> run_pktidx_per_block cfg_S1 \<noteq> 0
   \<and> discontinuity (pkt_blk_num_of cfg_S1 (frame_at 10000)) state_S4
   \<and> npacket (wblk0 state_S4) = 128
   \<and> (\<exists>s'. process_packet cfg_S1 fp_example env_free (frame_at 10000) state_S4 = Inr s'
         \<and> finalized_nums (events s') = [] \<and> dbout s' = db_empty
         \<and> block_idx_out (wblk0 s') = 0 \<and> block_idx_out (wblk1 s') = 1
         \<and> npacket (wblk0 s') = 0 \<and> ndrop (wblk0 s') = 0
         \<and> npacket (wblk1 s') = 0 \<and> ndrop (wblk1 s') = 0)"
proof -
  have a: "\<not> rejected cfg_S1 (frame_at 10000)"
    by (simp add: rejected_def cfg_S1_def frame_at_def frame_sized_def)
  have b: "run_pktidx_per_block cfg_S1 \<noteq> 0" by (simp add: cfg_S1_def)
  have B: "pkt_blk_num_of cfg_S1 (frame_at 10000) = 78"
    by (simp add: pkt_blk_num_of_def cfg_S1_def frame_at_def frame_sized_def)
  have c: "discontinuity (pkt_blk_num_of cfg_S1 (frame_at 10000)) state_S4"
    by (simp add: B discontinuity_def state_S4_def state_with_def wblk_at_def)
  have d: "sint (block_num (wblk0 state_S4) - 1) \<le> sint (block_num (wblk1 state_S4) + 1)"
    by (simp add: state_S4_def state_with_def wblk_at_def)
  have f: "dbout state_S4 = db_empty" "events state_S4 = []" "npacket (wblk0 state_S4) = 128"
    "block_idx_out (wblk0 state_S4) = 0" "block_idx_out (wblk1 state_S4) = 1"
    by (simp_all add: state_S4_def state_with_def wblk_at_def)
  show ?thesis
    using discontinuity_finalizes_nothing [OF a b c d, of fp_example env_free] a b c f
    by simp blast
qed

text \<open>
  The claim C3 fails in scenario S4 of the specification: after the packets 0 to 127
  the frame with packet index 10000 arrives. Nothing is handed downstream, no block
  is marked filled, and no \<open>NDROP\<close> is written into a header.
\<close>

theorem discontinuity_finalize_counterexample:
  "\<not> isl (process_packet cfg_S1 fp_example env_free (frame_at 10000) state_S4)
   \<and> events (projr (process_packet cfg_S1 fp_example env_free (frame_at 10000) state_S4))
       = [Warned 10000]
   \<and> filled (dbout (projr (process_packet cfg_S1 fp_example env_free (frame_at 10000) state_S4))) 0
       = False
   \<and> filled (dbout (projr (process_packet cfg_S1 fp_example env_free (frame_at 10000) state_S4))) 1
       = False
   \<and> header (dbout (projr (process_packet cfg_S1 fp_example env_free (frame_at 10000) state_S4))) 0
       ''NDROP'' = None"
proof -
  have a: "\<not> rejected cfg_S1 (frame_at 10000)"
    by (simp add: rejected_def cfg_S1_def frame_at_def frame_sized_def)
  have b: "run_pktidx_per_block cfg_S1 \<noteq> 0" by (simp add: cfg_S1_def)
  have B: "pkt_blk_num_of cfg_S1 (frame_at 10000) = 78"
    by (simp add: pkt_blk_num_of_def cfg_S1_def frame_at_def frame_sized_def)
  have c: "discontinuity (pkt_blk_num_of cfg_S1 (frame_at 10000)) state_S4"
    by (simp add: B discontinuity_def state_S4_def state_with_def wblk_at_def)
  have d: "sint (block_num (wblk0 state_S4) - 1) \<le> sint (block_num (wblk1 state_S4) + 1)"
    by (simp add: state_S4_def state_with_def wblk_at_def)
  have e: "events (pre_manage cfg_S1 fp_example (frame_at 10000) state_S4) = []"
    by (simp add: pre_manage_events status_update_due_def cfg_S1_def frame_at_def
          frame_sized_def state_S4_def state_with_def)
  have f: "dbout (pre_manage cfg_S1 fp_example (frame_at 10000) state_S4) = db_empty"
    by (simp add: pre_manage_same state_S4_def state_with_def)
  have g: "pktidx (info (frame_at 10000)) = 10000"
    by (simp add: frame_at_def frame_sized_def)
  show ?thesis
    unfolding process_packet_reinit [OF a b c d]
    by (simp add: reinit_blocks_eq e f g db_empty_def)
qed

subsection \<open>The advance branch\<close>

lemma process_packet_advance:
  assumes run: "process_packet cfg fp env f s = Inr s'"
      and acc: "\<not> rejected cfg f"
      and adv: "pkt_blk_num_of cfg f = block_num (wblk1 s) + 1"
  shows "\<exists>w0 db1 w1 b db2.
           finalize_block (wblk0 s) (dbout s) = Inr (w0, db1)
         \<and> increment_block (wblk1 s) db1 (pkt_blk_num_of cfg f) = Inr w1
         \<and> wait_for_block_free w1 (status_key cfg) env b db1 = Inr (st_buf s', db2)
         \<and> store_packet cfg f w1 db2 = Inr (wblk1 s', dbout s')
         \<and> wblk0 s' = wblk1 s
         \<and> events s' = events (pre_manage cfg fp f s) @ [Finalized w0, WaitedFree (block_idx_out w1)]"
proof -
  let ?B = "pkt_blk_num_of cfg f"
  let ?s2 = "pre_manage cfg fp f s"
  from process_packet_Inr [OF run acc] obtain s3 where
    m: "manage_blocks cfg fp env ?B (pktidx (info f)) ?s2 = Inr s3"
    and p: "place_packet cfg f ?B s3 = Inr s'"
    by blast
  have "advance_blocks cfg fp env ?B ?s2 = Inr s3"
    using m adv by (simp add: manage_blocks_def pre_manage_same)
  from advance_blocks_Inr [OF this] obtain w0 db1 w1 b' db' where
    f: "finalize_block (wblk0 s) (dbout s) = Inr (w0, db1)"
    and i: "increment_block (wblk1 s) db1 ?B = Inr w1"
    and w: "wait_for_block_free w1 (status_key cfg) env
              (snd (check_start_stop (ATASNAP_DEFAULT_PKTNTIME cfg) fp (st_buf ?s2)
                      (block_num (wblk1 s) * ucast (run_pktidx_per_block cfg)))) db1
            = Inr (b', db')"
    and s3: "s3 = ?s2\<lparr>wblk0 := wblk1 s, wblk1 := w1, dbout := db', st_buf := b',
                       ndrop_total := ndrop_total ?s2 + ucast (ndrop w0),
                       events := events ?s2 @ [Finalized w0, WaitedFree (block_idx_out w1)]\<rparr>"
    by (auto simp: pre_manage_same)
  have "wblk_idx ?B s3 = 1" using adv s3 by (simp add: wblk_idx_def)
  then obtain bi db where
    st: "store_packet cfg f w1 db' = Inr (bi, db)" and s': "s' = s3\<lparr>wblk1 := bi, dbout := db\<rparr>"
    using p s3 by (auto simp: place_packet_second split: sum.splits)
  show ?thesis
    using f i w st s' s3
    by (intro exI [of _ w0] exI [of _ db1] exI [of _ w1] exI [of _ db']
          exI [of _ "snd (check_start_stop (ATASNAP_DEFAULT_PKTNTIME cfg) fp (st_buf ?s2)
                            (block_num (wblk1 s) * ucast (run_pktidx_per_block cfg)))"])
       simp
qed

text \<open>
  C2, as the code has it. When an accepted frame has the block number
  \<open>B = W[1].block_num + 1\<close> and the loop body returns, it has finalized \<open>W[0]\<close>, moved
  \<open>W[1]\<close> to \<open>W[0]\<close> as it was, made the next ring slot the new \<open>W[1]\<close> with block number
  \<open>B\<close> and no packets, waited for that slot to be free, and then copied the frame
  into the new \<open>W[1]\<close>, which now counts one packet. The new \<open>W[0]\<close> (the old \<open>W[1]\<close>) is
  not written and does not count the frame.
\<close>

theorem advance_scatters_into_new_second_block:
  assumes run: "process_packet cfg fp env f s = Inr s'"
      and acc: "\<not> rejected cfg f"
      and adv: "pkt_blk_num_of cfg f = block_num (wblk1 s) + 1"
  shows "\<exists>w0 db1 w1 b db2.
           finalize_block (wblk0 s) (dbout s) = Inr (w0, db1)
         \<and> increment_block (wblk1 s) db1 (pkt_blk_num_of cfg f) = Inr w1
         \<and> wait_for_block_free w1 (status_key cfg) env b db1 = Inr (st_buf s', db2)
         \<and> store_packet cfg f w1 db2 = Inr (wblk1 s', dbout s')
         \<and> wblk0 s' = wblk1 s
         \<and> block_num (wblk1 s') = pkt_blk_num_of cfg f
         \<and> npacket (wblk1 s') = 1
         \<and> events s' = events (pre_manage cfg fp f s)
                          @ [Finalized w0, WaitedFree (block_idx_out (wblk1 s'))]"
proof -
  from process_packet_advance [OF assms] obtain w0 db1 w1 b db2 where
    f: "finalize_block (wblk0 s) (dbout s) = Inr (w0, db1)"
    and i: "increment_block (wblk1 s) db1 (pkt_blk_num_of cfg f) = Inr w1"
    and w: "wait_for_block_free w1 (status_key cfg) env b db1 = Inr (st_buf s', db2)"
    and st: "store_packet cfg f w1 db2 = Inr (wblk1 s', dbout s')"
    and z: "wblk0 s' = wblk1 s"
    and e: "events s' = events (pre_manage cfg fp f s)
                          @ [Finalized w0, WaitedFree (block_idx_out w1)]"
    by blast
  have "block_num (wblk1 s') = pkt_blk_num_of cfg f" "npacket (wblk1 s') = 1"
    "block_idx_out (wblk1 s') = block_idx_out w1"
    using store_packet_Inr(1) [OF st] increment_block_Inr(1) [OF i] by simp_all
  then show ?thesis
    using f i w st z e
    by (intro exI [of _ w0] exI [of _ db1] exI [of _ w1] exI [of _ b] exI [of _ db2]) simp
qed

theorem advance_scatters_into_new_second_block_witness:
  "\<not> rejected cfg_S1 (frame_at 256)
   \<and> pkt_blk_num_of cfg_S1 (frame_at 256) = block_num (wblk1 state_S4) + 1
   \<and> \<not> isl (process_packet cfg_S1 fp_example env_free (frame_at 256) state_S4)
   \<and> wblk0 (projr (process_packet cfg_S1 fp_example env_free (frame_at 256) state_S4))
       = wblk_at 1 1 0
   \<and> block_num (wblk1 (projr (process_packet cfg_S1 fp_example env_free (frame_at 256) state_S4)))
       = 2
   \<and> npacket (wblk1 (projr (process_packet cfg_S1 fp_example env_free (frame_at 256) state_S4)))
       = 1"
proof -
  have "\<exists>s'. process_packet cfg_S1 fp_example env_free (frame_at 256) state_S4 = Inr s'"
    by (rule process_packet_returns)
       (simp_all add: cfg_S1_def state_S4_def state_with_def wblk_at_def db_empty_def
          env_free_def)
  then obtain s' where
    s': "process_packet cfg_S1 fp_example env_free (frame_at 256) state_S4 = Inr s'"
    by blast
  have a: "\<not> rejected cfg_S1 (frame_at 256)"
    by (simp add: rejected_def cfg_S1_def frame_at_def frame_sized_def)
  have B: "pkt_blk_num_of cfg_S1 (frame_at 256) = 2"
    by (simp add: pkt_blk_num_of_def cfg_S1_def frame_at_def frame_sized_def)
  have c: "pkt_blk_num_of cfg_S1 (frame_at 256) = block_num (wblk1 state_S4) + 1"
    by (simp add: B state_S4_def state_with_def wblk_at_def)
  have d: "wblk1 state_S4 = wblk_at 1 1 0" by (simp add: state_S4_def state_with_def)
  show ?thesis
    using advance_scatters_into_new_second_block [OF s' a c] a c B d by (auto simp: s')
qed

text \<open>
  The claim C2 fails in scenario S4 continued with packet index 256 (block 2): the
  frame is counted in the new \<open>W[1]\<close> (block 2), and the new \<open>W[0]\<close> (block 1, the old
  \<open>W[1]\<close>) still counts no packet and its data are as before.
\<close>

theorem advance_scatter_counterexample:
  "\<not> isl (process_packet cfg_S1 fp_example env_free (frame_at 256) state_S4)
   \<and> block_num (wblk0 (projr (process_packet cfg_S1 fp_example env_free (frame_at 256) state_S4)))
       = 1
   \<and> npacket (wblk0 (projr (process_packet cfg_S1 fp_example env_free (frame_at 256) state_S4)))
       = 0
   \<and> data (dbout (projr (process_packet cfg_S1 fp_example env_free (frame_at 256) state_S4))) 1
       = data (dbout state_S4) 1
   \<and> block_num (wblk1 (projr (process_packet cfg_S1 fp_example env_free (frame_at 256) state_S4)))
       = 2
   \<and> npacket (wblk1 (projr (process_packet cfg_S1 fp_example env_free (frame_at 256) state_S4)))
       = 1
   \<and> block_idx_out (wblk1 (projr (process_packet cfg_S1 fp_example env_free (frame_at 256)
         state_S4))) = 2"
  by (simp add: process_packet_def manage_blocks_def advance_blocks_def place_packet_def
        store_packet_def wblk_idx_def count_packet_def status_update_due_def
        block_status_update_def finalize_block_def increment_block_def wait_for_block_free_def
        check_start_stop_def reset_block_info_stats_def copy_packet_data_to_databuf_def
        run_pkts_per_block_def hgetu4_def hgetu8_def hgetr8_def hgets_def hputu4_def hputi4_def
        hputu8_def hputi8_def hputr8_def hputr4_def hputs_def Let_def
        cfg_S1_def fp_example_def env_free_def frame_at_def frame_sized_def wblk_at_def
        state_S4_def state_with_def db_empty_def)

subsection \<open>Frames of unexpected size\<close>

lemma process_packet_other:
  assumes run: "process_packet cfg fp env f s = Inr s'"
      and k1: "k \<notin> {''DAQSTATE'', ''STTVALID'', ''STT_IMJD'', ''STT_SMJD'', ''STT_OFFS'',
                  ''NETBUFST''}"
      and k2: "k \<notin> {''PKTIDX'', ''BLOCSIZE'', ''PKTSTART'', ''DWELL'', ''NETGBPS'', ''NETPKPS'',
                  ''TBIN'', ''PKTSTOP'', ''NDROP'', ''NLATE''}"
      and k3: "k \<noteq> status_key cfg"
  shows "st_buf s' k = st_buf s k"
proof (cases "rejected cfg f")
  case True
  then show ?thesis using run by (simp add: process_packet_rejected)
next
  case False
  from process_packet_Inr [OF run False] obtain s3 where
    m: "manage_blocks cfg fp env (pkt_blk_num_of cfg f) (pktidx (info f))
              (pre_manage cfg fp f s) = Inr s3"
    and p: "place_packet cfg f (pkt_blk_num_of cfg f) s3 = Inr s'"
    by blast
  have "st_buf s' = st_buf s3" using place_packet_Inr [OF p] by auto
  moreover have "st_buf s3 k = st_buf (pre_manage cfg fp f s) k"
    using k1 k3 by (intro manage_blocks_other [OF m])
  moreover have "st_buf (pre_manage cfg fp f s) k = st_buf s k"
    using k2 by (simp add: pre_manage_def block_status_update_other count_packet_same)
  ultimately show ?thesis by simp
qed

lemma place_packet_size:
  "place_packet cfg (f\<lparr>payload_size := n\<rparr>) = place_packet cfg f"
  by (intro ext) (simp add: place_packet_def store_packet_def Let_def)

text \<open>
  C9 fails on the code. The loop body never looks at the size of the UDP payload: a
  frame is processed in the same way whatever its size, so a frame whose size differs
  from that of the frames before it is counted and copied like any other; and no frame
  changes the \<open>NBOGUS\<close> card. (A frame whose F-engine id is not below \<open>NANTS\<close> changes
  nothing at all, whatever its size.) The thread has the check of the size compiled
  out and notes the validation of a packet as still to do; the thread of
  \<^verbatim>\<open>hpguppi_net_thread.c\<close> does drop and count such frames.
\<close>

theorem payload_size_not_checked:
  assumes key: "status_key cfg = ''NETSTAT''"
  shows "process_packet cfg fp env (f\<lparr>payload_size := n\<rparr>) s = process_packet cfg fp env f s
         \<and> (rejected cfg f \<longrightarrow> process_packet cfg fp env f s = Inr s)
         \<and> (\<forall>s'. process_packet cfg fp env f s = Inr s'
                \<longrightarrow> st_buf s' ''NBOGUS'' = st_buf s ''NBOGUS'')"
proof (intro conjI allI impI)
  show "process_packet cfg fp env (f\<lparr>payload_size := n\<rparr>) s = process_packet cfg fp env f s"
    by (simp add: process_packet_def place_packet_size Let_def cong: sum.case_cong)
next
  assume "rejected cfg f"
  then show "process_packet cfg fp env f s = Inr s" by (rule process_packet_rejected)
next
  fix s'
  assume run: "process_packet cfg fp env f s = Inr s'"
  show "st_buf s' ''NBOGUS'' = st_buf s ''NBOGUS''"
    using key by (intro process_packet_other [OF run]) simp_all
qed

theorem payload_size_not_checked_witness:
  "status_key cfg_S1 = ''NETSTAT''
   \<and> process_packet cfg_S1 fp_example env_free (frame_sized 100 2) (state_with 1)
       = process_packet cfg_S1 fp_example env_free (frame_sized 2048 2) (state_with 1)
   \<and> npacket (wblk0 (projr (process_packet cfg_S1 fp_example env_free (frame_sized 100 2)
         (state_with 1)))) = 2
   \<and> st_buf (projr (process_packet cfg_S1 fp_example env_free (frame_sized 100 2)
         (state_with 1))) ''NBOGUS'' = None"
proof -
  have key: "status_key cfg_S1 = ''NETSTAT''" by (simp add: cfg_S1_def)
  have "\<exists>s'. process_packet cfg_S1 fp_example env_free (frame_sized 2048 2) (state_with 1) = Inr s'"
    by (rule process_packet_returns)
       (simp_all add: cfg_S1_def state_with_def wblk_at_def db_empty_def env_free_def)
  then obtain s' where
    s': "process_packet cfg_S1 fp_example env_free (frame_sized 2048 2) (state_with 1) = Inr s'"
    by blast
  have sz: "(frame_sized 2048 2)\<lparr>payload_size := 100\<rparr> = frame_sized 100 2"
    by (simp add: frame_sized_def)
  have n: "npacket (wblk0 (projr (process_packet cfg_S1 fp_example env_free (frame_sized 2048 2)
             (state_with 1)))) = 2"
    by (simp add: process_packet_def manage_blocks_def place_packet_def
        store_packet_def wblk_idx_def count_packet_def status_update_due_def
        copy_packet_data_to_databuf_def Let_def
        cfg_S1_def frame_sized_def wblk_at_def state_with_def)
  have e: "st_buf (state_with 1) ''NBOGUS'' = None" by (simp add: state_with_def)
  show ?thesis
    using payload_size_not_checked [OF key, where fp = fp_example and env = env_free
        and f = "frame_sized 2048 2" and n = 100 and s = "state_with 1"] key s' sz n e
    by simp
qed

text \<open>
  So a frame of 100 payload bytes that follows a frame of 2048 bytes is copied into
  the working block like the first (the block counts two packets) and \<open>NBOGUS\<close> is not
  written.
\<close>

lemma odd_payload_size_accepted:
  "\<not> isl (run_packets cfg_S1 fp_example odd_size_run (state_with 0))
   \<and> npacket (wblk0 (projr (run_packets cfg_S1 fp_example odd_size_run (state_with 0)))) = 2
   \<and> st_buf (projr (run_packets cfg_S1 fp_example odd_size_run (state_with 0))) ''NBOGUS'' = None"
  by (simp add: odd_size_run_def process_packet_def manage_blocks_def place_packet_def
        store_packet_def wblk_idx_def count_packet_def status_update_due_def
        copy_packet_data_to_databuf_def Let_def
        cfg_S1_def frame_sized_def wblk_at_def state_with_def)

subsection \<open>The run: slots, latch and window\<close>

lemma sint_add1_32:
  fixes x :: "32 word"
  assumes "sint x < 2 ^ 31 - 1"
  shows "sint (x + 1) = sint x + 1"
proof -
  have lo: "- (2 ^ 31) \<le> sint x" using sint_ge [of x] by simp
  have "sint (x + 1) = signed_take_bit 31 (sint x + 1)"
    by (simp add: sint_word_ariths)
  also have "\<dots> = sint x + 1"
    using assms lo by (simp add: signed_take_bit_int_eq_self_iff)
  finally show ?thesis .
qed

lemma next_slot_in_ring:
  fixes i n :: i32
  assumes "0 \<le> sint i" and "sint i < sint n"
  shows "0 \<le> sint (word_of_int (sint (i + 1) smod sint n) :: i32)"
    and "sint (word_of_int (sint (i + 1) smod sint n) :: i32) < sint n"
proof -
  have hi: "sint n < 2 ^ 31" using sint_lt [of n] by simp
  then have "sint i < 2 ^ 31 - 1" using assms(2) by simp
  then have i1: "sint (i + 1) = sint i + 1" by (rule sint_add1_32)
  have pos: "0 < sint n" using assms by simp
  have lo: "0 \<le> sint (i + 1) smod sint n"
    using assms(1) pos i1 by (intro smod_int_compares(2)) simp_all
  have up: "sint (i + 1) smod sint n < sint n"
    using assms(1) pos i1 by (intro smod_int_compares(1)) simp_all
  have "sint (word_of_int (sint (i + 1) smod sint n) :: i32) = sint (i + 1) smod sint n"
    using lo up hi by (simp add: sint_uint signed_take_bit_int_eq_self_iff take_bit_int_eq_self
          unsigned_of_int)
  then show "0 \<le> sint (word_of_int (sint (i + 1) smod sint n) :: i32)"
    and "sint (word_of_int (sint (i + 1) smod sint n) :: i32) < sint n"
    using lo up by simp_all
qed

lemma manage_blocks_slots:
  assumes m: "manage_blocks cfg fp env B p s = Inr s'" and ok: "slots_ok s"
  shows "slots_ok s'"
  using m
proof (cases rule: manage_blocks_cases)
  case advance
  from advance_blocks_Inr [OF advance(2)] obtain w0 db1 w1 b' db' where
    f: "finalize_block (wblk0 s) (dbout s) = Inr (w0, db1)"
    and i: "increment_block (wblk1 s) db1 B = Inr w1"
    and w: "wait_for_block_free w1 (status_key cfg) env
              (snd (check_start_stop (ATASNAP_DEFAULT_PKTNTIME cfg) fp (st_buf s)
                      (block_num (wblk1 s) * ucast (run_pktidx_per_block cfg)))) db1 = Inr (b', db')"
    and s': "s' = s\<lparr>wblk0 := wblk1 s, wblk1 := w1, dbout := db', st_buf := b',
                     ndrop_total := ndrop_total s + ucast (ndrop w0),
                     events := events s @ [Finalized w0, WaitedFree (block_idx_out w1)]\<rparr>"
    by blast
  have n1: "n_block db1 = n_block (dbout s)" using finalize_block_Inr(5) [OF f] .
  have n': "n_block db' = n_block (dbout s)"
    using wait_for_block_free_db [OF w] n1 by simp
  have idx: "block_idx_out w1 =
      word_of_int (sint (block_idx_out (wblk1 s) + 1) smod sint (n_block (dbout s)))"
    using increment_block_Inr(1) [OF i] n1 by simp
  have "0 \<le> sint (block_idx_out w1)" "sint (block_idx_out w1) < sint (n_block (dbout s))"
    unfolding idx using ok by (auto simp: slots_ok_def intro: next_slot_in_ring)
  then show ?thesis using ok s' n' by (simp add: slots_ok_def)
next
  case reinit
  then show ?thesis
    using ok by (simp add: slots_ok_def reinit_blocks_eq init_block_info_keep)
next
  case late
  then show ?thesis using ok by (simp add: slots_ok_def)
next
  case inside
  then show ?thesis using ok by simp
qed

lemma process_packet_slots:
  assumes run: "process_packet cfg fp env f s = Inr s'" and ok: "slots_ok s"
  shows "slots_ok s'"
proof (cases "rejected cfg f")
  case True
  then show ?thesis using run ok by (simp add: process_packet_rejected)
next
  case False
  from process_packet_Inr [OF run False] obtain s3 where
    m: "manage_blocks cfg fp env (pkt_blk_num_of cfg f) (pktidx (info f))
              (pre_manage cfg fp f s) = Inr s3"
    and p: "place_packet cfg f (pkt_blk_num_of cfg f) s3 = Inr s'"
    by blast
  have "slots_ok (pre_manage cfg fp f s)" using ok by (simp add: slots_ok_def pre_manage_same)
  then have "slots_ok s3" by (rule manage_blocks_slots [OF m])
  then show ?thesis using place_packet_Inr [OF p] by (auto simp: slots_ok_def)
qed

text \<open>
  The loop returns: with a non-zero \<open>pktidx_per_block\<close> and \<open>pkt_nchan\<close>, working
  blocks in slots of the ring, and a ring that frees each awaited block after
  finitely many timeouts, every sequence of frames is processed without error.
\<close>

lemma run_packets_returns:
  assumes "run_pktidx_per_block cfg \<noteq> 0" and "pkt_nchan (oi cfg) \<noteq> 0"
      and "slots_ok s" and "list_all (\<lambda>(f, env). wait_returns (wait_free env)) fs"
  shows "\<exists>s'. run_packets cfg fp fs s = Inr s'"
  using assms(3,4)
proof (induction fs arbitrary: s)
  case Nil
  then show ?case by simp
next
  case (Cons a fs)
  obtain f env where a: "a = (f, env)" by (cases a)
  have "\<exists>s1. process_packet cfg fp env f s = Inr s1"
    using assms(1,2) Cons.prems a
    by (intro process_packet_returns) (simp_all add: slots_ok_def)
  then obtain s1 where s1: "process_packet cfg fp env f s = Inr s1" by blast
  have "slots_ok s1" using s1 Cons.prems(1) by (rule process_packet_slots)
  then have "\<exists>s'. run_packets cfg fp fs s1 = Inr s'"
    using Cons.prems(2) a by (intro Cons.IH) simp_all
  then show ?case using a s1 by simp
qed

lemma manage_blocks_latch:
  assumes m: "manage_blocks cfg fp env B p s = Inr s'"
  shows "status_seq_num s' = status_seq_num s
         \<and> status_updates (events s') = status_updates (events s)"
  using m
proof (cases rule: manage_blocks_cases)
  case advance
  from advance_blocks_Inr [OF advance(2)] obtain w0 w1 db' b' where
    "s' = s\<lparr>wblk0 := wblk1 s, wblk1 := w1, dbout := db', st_buf := b',
             ndrop_total := ndrop_total s + ucast (ndrop w0),
             events := events s @ [Finalized w0, WaitedFree (block_idx_out w1)]\<rparr>"
    by blast
  then show ?thesis by simp
next
  case reinit
  then show ?thesis by (simp add: reinit_blocks_eq)
next
  case late
  then show ?thesis by simp
next
  case inside
  then show ?thesis by simp
qed

lemma process_packet_latch:
  assumes run: "process_packet cfg fp env f s = Inr s'"
  shows "status_updates (events s') =
           status_updates (events s) @ latch_trace cfg [f] (status_seq_num s)"
    and "status_seq_num s' = last (status_seq_num s # latch_trace cfg [f] (status_seq_num s))"
proof -
  have "status_updates (events s') =
           status_updates (events s) @ latch_trace cfg [f] (status_seq_num s)
        \<and> status_seq_num s' = last (status_seq_num s # latch_trace cfg [f] (status_seq_num s))"
  proof (cases "rejected cfg f")
    case True
    then show ?thesis using run by (simp add: process_packet_rejected)
  next
    case False
    from process_packet_Inr [OF run False] obtain s3 where
      m: "manage_blocks cfg fp env (pkt_blk_num_of cfg f) (pktidx (info f))
                (pre_manage cfg fp f s) = Inr s3"
      and p: "place_packet cfg f (pkt_blk_num_of cfg f) s3 = Inr s'"
      by blast
    have "status_seq_num s' = status_seq_num s3" "events s' = events s3"
      using place_packet_Inr [OF p] by auto
    then have "status_seq_num s' = status_seq_num (pre_manage cfg fp f s)"
      "status_updates (events s') = status_updates (events (pre_manage cfg fp f s))"
      using manage_blocks_latch [OF m] by simp_all
    then show ?thesis
      using False
      by (simp add: pre_manage_def status_update_due_def count_packet_same
            block_status_update_same)
  qed
  then show "status_updates (events s') =
           status_updates (events s) @ latch_trace cfg [f] (status_seq_num s)"
    and "status_seq_num s' = last (status_seq_num s # latch_trace cfg [f] (status_seq_num s))"
    by simp_all
qed

lemma latch_trace_append:
  "latch_trace cfg (fs @ gs) l =
     latch_trace cfg fs l @ latch_trace cfg gs (last (l # latch_trace cfg fs l))"
  by (induction fs arbitrary: l) simp_all

lemma run_packets_latch:
  assumes "run_packets cfg fp fs s = Inr s'"
  shows "status_updates (events s') =
           status_updates (events s) @ latch_trace cfg (map fst fs) (status_seq_num s)"
  using assms
proof (induction fs arbitrary: s)
  case Nil
  then show ?case by simp
next
  case (Cons a fs)
  obtain f env where a: "a = (f, env)" by (cases a)
  from Cons.prems a obtain s1 where
    s1: "process_packet cfg fp env f s = Inr s1" and r: "run_packets cfg fp fs s1 = Inr s'"
    by (auto split: sum.splits)
  have "status_updates (events s') =
          status_updates (events s1) @ latch_trace cfg (map fst fs) (status_seq_num s1)"
    using r by (rule Cons.IH)
  then show ?case
    using process_packet_latch [OF s1] a
      latch_trace_append [of cfg "[f]" "map fst fs" "status_seq_num s"]
    by simp
qed

lemma latch_trace_distinct_adj:
  "distinct_adj (latch_trace cfg fs l)
   \<and> (latch_trace cfg fs l \<noteq> [] \<longrightarrow> hd (latch_trace cfg fs l) \<noteq> l)"
proof (induction fs arbitrary: l)
  case Nil
  then show ?case by simp
next
  case (Cons f fs)
  let ?p = "pktidx (info f)"
  show ?case
  proof (cases "\<not> rejected cfg f \<and> ?p mod ucast (run_pktidx_per_block cfg) = 0 \<and> ?p \<noteq> l")
    case True
    have "distinct_adj (latch_trace cfg fs ?p)"
      and "latch_trace cfg fs ?p \<noteq> [] \<longrightarrow> hd (latch_trace cfg fs ?p) \<noteq> ?p"
      using Cons.IH [of ?p] by simp_all
    then have "distinct_adj (?p # latch_trace cfg fs ?p)"
      by (auto simp: distinct_adj_Cons)
    then show ?thesis using True by simp
  next
    case False
    then have "latch_trace cfg (f # fs) l = latch_trace cfg fs l" by auto
    then show ?thesis using Cons.IH [of l] by simp
  qed
qed

subsection \<open>The latch of the status update\<close>

text \<open>
  C10, as the code has it. Over any sequence of frames, the status updates are done
  for exactly the packet indices that the latch lets through: a frame triggers the
  update when its packet index is a multiple of \<open>pktidx_per_block\<close> and differs from
  \<^verbatim>\<open>status_seq_num\<close>, the packet index of the latest update. So no two successive
  updates are for the same packet index, and the first differs from the initial
  \<^verbatim>\<open>status_seq_num\<close>. (Two updates for the same packet index with another one between
  them are possible.)
\<close>

theorem status_update_latch:
  assumes "run_packets cfg fp fs s = Inr s'"
  shows "status_updates (events s') =
           status_updates (events s) @ latch_trace cfg (map fst fs) (status_seq_num s)
         \<and> distinct_adj (latch_trace cfg (map fst fs) (status_seq_num s))
         \<and> (latch_trace cfg (map fst fs) (status_seq_num s) \<noteq> []
              \<longrightarrow> hd (latch_trace cfg (map fst fs) (status_seq_num s)) \<noteq> status_seq_num s)"
  using run_packets_latch [OF assms] latch_trace_distinct_adj [of cfg "map fst fs" "status_seq_num s"]
  by simp

lemma interleaved_run_returns:
  "\<exists>s'. run_packets cfg_S1 fp_example interleaved_run (state_with 0) = Inr s'"
  by (rule run_packets_returns)
     (simp_all add: cfg_S1_def slots_ok_def state_with_def wblk_at_def db_empty_def
        interleaved_run_def env_free_def)

lemma interleaved_latch_trace:
  "latch_trace cfg_S1 (map fst interleaved_run) (status_seq_num (state_with 0)) = [0, 128, 0]"
  by (simp add: interleaved_run_def rejected_def cfg_S1_def frame_at_def frame_sized_def
        state_with_def)

theorem status_update_latch_witness:
  "\<not> isl (run_packets cfg_S1 fp_example interleaved_run (state_with 0))
   \<and> status_updates (events (projr (run_packets cfg_S1 fp_example interleaved_run (state_with 0))))
       = [0, 128, 0]
   \<and> distinct_adj [0 :: u64, 128, 0]"
proof -
  obtain s' where s': "run_packets cfg_S1 fp_example interleaved_run (state_with 0) = Inr s'"
    using interleaved_run_returns by blast
  have e: "events (state_with 0) = []" by (simp add: state_with_def)
  show ?thesis
    using status_update_latch [OF s'] interleaved_latch_trace e by (simp add: s')
qed

text \<open>
  The claim C10 fails for frames with the packet indices 0, 128 and 0 (all within
  the window of blocks 0 and 1): the status update is done three times, twice for
  the packet index 0.
\<close>

theorem status_update_once_counterexample:
  "\<not> isl (run_packets cfg_S1 fp_example interleaved_run (state_with 0))
   \<and> status_updates (events (projr (run_packets cfg_S1 fp_example interleaved_run (state_with 0))))
       = [0, 128, 0]
   \<and> count_list (status_updates (events (projr (run_packets cfg_S1 fp_example interleaved_run
         (state_with 0))))) 0 = 2"
proof -
  obtain s' where s': "run_packets cfg_S1 fp_example interleaved_run (state_with 0) = Inr s'"
    using interleaved_run_returns by blast
  have e: "events (state_with 0) = []" by (simp add: state_with_def)
  show ?thesis
    using run_packets_latch [OF s'] interleaved_latch_trace e by (simp add: s')
qed

subsection \<open>The order of the blocks handed downstream\<close>

lemma manage_blocks_window:
  assumes m: "manage_blocks cfg fp env B p s = Inr s'"
  shows "window_of s' = win_step B (window_of s)"
  using m
proof (cases rule: manage_blocks_cases)
  case advance
  from advance_blocks_Inr [OF advance(2)] obtain w0 db1 w1 b' db' where
    f: "finalize_block (wblk0 s) (dbout s) = Inr (w0, db1)"
    and i: "increment_block (wblk1 s) db1 B = Inr w1"
    and s': "s' = s\<lparr>wblk0 := wblk1 s, wblk1 := w1, dbout := db', st_buf := b',
                     ndrop_total := ndrop_total s + ucast (ndrop w0),
                     events := events s @ [Finalized w0, WaitedFree (block_idx_out w1)]\<rparr>"
    by blast
  have "block_num w0 = block_num (wblk0 s)" using finalize_block_Inr(2) [OF f] .
  moreover have "block_num w1 = B" using increment_block_Inr(1) [OF i] by simp
  ultimately show ?thesis using advance(1) s' by (simp add: window_of_def)
next
  case reinit
  then show ?thesis
    by (simp add: window_of_def reinit_blocks_eq init_block_info_keep discontinuity_def)
next
  case late
  then show ?thesis by (simp add: window_of_def discontinuity_def)
next
  case inside
  then show ?thesis by (simp add: window_of_def discontinuity_def)
qed

lemma process_packet_window:
  assumes run: "process_packet cfg fp env f s = Inr s'"
  shows "window_of s' =
           (if rejected cfg f then window_of s else win_step (pkt_blk_num_of cfg f) (window_of s))"
proof (cases "rejected cfg f")
  case True
  then show ?thesis using run by (simp add: process_packet_rejected)
next
  case False
  from process_packet_Inr [OF run False] obtain s3 where
    m: "manage_blocks cfg fp env (pkt_blk_num_of cfg f) (pktidx (info f))
              (pre_manage cfg fp f s) = Inr s3"
    and p: "place_packet cfg f (pkt_blk_num_of cfg f) s3 = Inr s'"
    by blast
  have "window_of s' = window_of s3"
    using place_packet_Inr [OF p] by (auto simp: window_of_def)
  also have "\<dots> = win_step (pkt_blk_num_of cfg f) (window_of (pre_manage cfg fp f s))"
    by (rule manage_blocks_window [OF m])
  also have "window_of (pre_manage cfg fp f s) = window_of s"
    by (simp add: window_of_def pre_manage_same pre_manage_events)
  finally show ?thesis using False by simp
qed

lemma run_packets_window:
  assumes "run_packets cfg fp fs s = Inr s'"
  shows "window_of s' = win_run cfg (map fst fs) (window_of s)"
  using assms
proof (induction fs arbitrary: s)
  case Nil
  then show ?case by simp
next
  case (Cons a fs)
  obtain f env where a: "a = (f, env)" by (cases a)
  from Cons.prems a obtain s1 where
    s1: "process_packet cfg fp env f s = Inr s1" and r: "run_packets cfg fp fs s1 = Inr s'"
    by (auto split: sum.splits)
  show ?case
    using Cons.IH [OF r] process_packet_window [OF s1] a by simp
qed

lemma no_backward_window:
  assumes "run_packets cfg fp fs s = Inr s'"
  shows "no_backward cfg fp fs s = win_no_backward cfg (map fst fs) (window_of s)"
  using assms
proof (induction fs arbitrary: s)
  case Nil
  then show ?case by simp
next
  case (Cons a fs)
  obtain f env where a: "a = (f, env)" by (cases a)
  from Cons.prems a obtain s1 where
    s1: "process_packet cfg fp env f s = Inr s1" and r: "run_packets cfg fp fs s1 = Inr s'"
    by (auto split: sum.splits)
  show ?case
    using Cons.IH [OF r] process_packet_window [OF s1] a s1
    by (simp add: backward_discontinuity_def window_of_def)
qed

lemma win_step_ordered:
  assumes ord: "win_ordered w" and small: "B < 2 ^ 62"
      and fwd: "\<not> sint B < sint (fst w - 1)"
  shows "win_ordered (win_step B w)"
proof -
  obtain w0 w1 fin where w: "w = (w0, w1, fin)" by (cases w)
  have c: "sint w1 = sint w0 + 1" and lo: "- (2 ^ 62) \<le> sint w0" and hi: "sint w0 \<le> 2 ^ 62"
    and so: "sorted_wrt (<) fin" and be: "list_all (\<lambda>b. b < sint w0) fin"
    using ord w by simp_all
  have B0: "0 \<le> sint B" and B1: "sint B < 2 ^ 62" using sint_small64 [OF small] by simp_all
  have w11: "sint (w1 + 1) = sint w1 + 1"
    using c hi by (intro sint_add1) simp
  show ?thesis
  proof (cases "B = w1 + 1")
    case True
    have sB: "sint B = sint w1 + 1" using True w11 by simp
    have "sorted_wrt (<) (fin @ [sint w0])"
      using so be by (simp add: sorted_wrt_append list_all_iff)
    moreover have "list_all (\<lambda>b. b < sint w1) (fin @ [sint w0])"
      using be c by (auto simp: list_all_iff)
    moreover have "- (2 ^ 62) \<le> sint w1" using lo c by simp
    moreover have "sint w1 \<le> 2 ^ 62" using sB B1 by simp
    ultimately show ?thesis using True w sB by simp
  next
    case False
    show ?thesis
    proof (cases "sint B < sint (w0 - 1) \<or> sint (w1 + 1) < sint B")
      case jump: True
      then have up: "sint (w1 + 1) < sint B" using fwd w by simp
      have b1: "sint (B + 1) = sint B + 1" using B1 by (intro sint_add1) simp
      have "sint (B + 1 + 1) = sint (B + 1) + 1" using b1 B1 by (intro sint_add1) simp
      then have b2: "sint (B + 2) = sint B + 2" using b1 by (simp add: add.assoc)
      have "list_all (\<lambda>b. b < sint (B + 1)) fin"
        using be up w11 c b1 by (auto simp: list_all_iff)
      moreover have "- (2 ^ 62) \<le> sint (B + 1)" using b1 B0 by simp
      moreover have "sint (B + 1) \<le> 2 ^ 62" using b1 B1 by simp
      ultimately show ?thesis using False jump w so b1 b2 by simp
    next
      case stay: False
      then show ?thesis using False w ord by simp
    qed
  qed
qed

lemma win_run_ordered:
  assumes "win_ordered w" and "win_no_backward cfg fs w"
      and "list_all (\<lambda>f. pkt_blk_num_of cfg f < 2 ^ 62) fs"
  shows "win_ordered (win_run cfg fs w)"
  using assms
proof (induction fs arbitrary: w)
  case Nil
  then show ?case by simp
next
  case (Cons f fs)
  show ?case
  proof (cases "rejected cfg f")
    case True
    then show ?thesis using Cons by simp
  next
    case False
    have "win_ordered (win_step (pkt_blk_num_of cfg f) w)"
      using Cons.prems False by (intro win_step_ordered) simp_all
    then show ?thesis using Cons.IH Cons.prems False by simp
  qed
qed

lemma sorted_less_distinct:
  fixes xs :: "int list"
  shows "sorted_wrt (<) xs \<Longrightarrow> distinct xs"
  by (induction xs) auto

text \<open>
  C4, as the code has it. Let the window be in order at the start, let the run
  return, let no frame be a backward discontinuity when it arrives (\<open>B\<close> below
  \<open>W[0].block_num - 1\<close>), and let the block numbers of the frames be below \<open>2^62\<close>.
  Then the block numbers handed downstream, in the order in which their blocks were
  marked filled, increase strictly; so no block number is finalized twice.
\<close>

theorem finalized_strictly_increasing:
  assumes run: "run_packets cfg fp fs s = Inr s'"
      and nb: "no_backward cfg fp fs s"
      and small: "list_all (\<lambda>(f, env). pkt_blk_num_of cfg f < 2 ^ 62) fs"
      and ord: "window_ordered s"
  shows "sorted_wrt (<) (finalized_nums (events s')) \<and> distinct (finalized_nums (events s'))"
proof -
  have "win_no_backward cfg (map fst fs) (window_of s)"
    using nb no_backward_window [OF run] by simp
  moreover have "list_all (\<lambda>f. pkt_blk_num_of cfg f < 2 ^ 62) (map fst fs)"
    using small by (auto simp: list_all_iff)
  ultimately have "win_ordered (win_run cfg (map fst fs) (window_of s))"
    using ord by (intro win_run_ordered) (simp_all add: window_ordered_def)
  then have "win_ordered (window_of s')" using run_packets_window [OF run] by simp
  then have "sorted_wrt (<) (finalized_nums (events s'))" by (simp add: window_of_def)
  then show ?thesis using sorted_less_distinct by blast
qed

lemma window_of_start: "window_of (state_with n) = (0, 1, [])"
  by (simp add: window_of_def state_with_def wblk_at_def)

lemma pkt_blk_num_of_frame_at:
  "pkt_blk_num_of cfg_S1 (frame_at p) = p div 128" "\<not> rejected cfg_S1 (frame_at p)"
  by (simp_all add: pkt_blk_num_of_def rejected_def cfg_S1_def frame_at_def frame_sized_def)

lemma example_run_returns:
  assumes "list_all (\<lambda>(f, env). env = env_free) fs"
  shows "\<exists>s'. run_packets cfg_S1 fp_example fs (state_with n) = Inr s'"
proof (rule run_packets_returns)
  show "list_all (\<lambda>(f, env). wait_returns (wait_free env)) fs"
    using assms by (auto simp: list_all_iff env_free_def)
qed (simp_all add: cfg_S1_def slots_ok_def state_with_def wblk_at_def db_empty_def)

theorem finalized_strictly_increasing_witness:
  "no_backward cfg_S1 fp_example forward_run (state_with 0)
   \<and> list_all (\<lambda>(f, env). pkt_blk_num_of cfg_S1 f < 2 ^ 62) forward_run
   \<and> window_ordered (state_with 0)
   \<and> \<not> isl (run_packets cfg_S1 fp_example forward_run (state_with 0))
   \<and> finalized_nums (events (projr (run_packets cfg_S1 fp_example forward_run (state_with 0))))
       = [0, 1]"
proof -
  obtain s' where s': "run_packets cfg_S1 fp_example forward_run (state_with 0) = Inr s'"
    using example_run_returns [of forward_run 0] by (auto simp: forward_run_def)
  have small: "list_all (\<lambda>(f, env). pkt_blk_num_of cfg_S1 f < 2 ^ 62) forward_run"
    by (simp add: forward_run_def pkt_blk_num_of_frame_at)
  have ord: "window_ordered (state_with 0)"
    by (simp add: window_ordered_def window_of_start)
  have "win_no_backward cfg_S1 (map fst forward_run) (window_of (state_with 0))"
    by (simp add: forward_run_def window_of_start pkt_blk_num_of_frame_at)
  then have nb: "no_backward cfg_S1 fp_example forward_run (state_with 0)"
    using no_backward_window [OF s'] by simp
  have "window_of s' = win_run cfg_S1 (map fst forward_run) (window_of (state_with 0))"
    by (rule run_packets_window [OF s'])
  also have "\<dots> = (79, 80, [0, 1])"
    by (simp add: forward_run_def window_of_start pkt_blk_num_of_frame_at)
  finally have fin: "finalized_nums (events s') = [0, 1]" by (simp add: window_of_def)
  show ?thesis
    using finalized_strictly_increasing [OF s' nb small ord] nb small ord fin
    by (simp add: s')
qed

text \<open>
  The claim C4 fails for frames of the blocks 2, 3, 0 and 3 arriving at the window of
  blocks 0 and 1: the frame of block 0 is a backward discontinuity that
  reinitialises the window to blocks 1 and 2, and block 1, already handed downstream,
  is finalized a second time.
\<close>

theorem finalize_once_counterexample:
  "\<not> isl (run_packets cfg_S1 fp_example backward_run (state_with 0))
   \<and> finalized_nums (events (projr (run_packets cfg_S1 fp_example backward_run (state_with 0))))
       = [0, 1, 1]"
proof -
  obtain s' where s': "run_packets cfg_S1 fp_example backward_run (state_with 0) = Inr s'"
    using example_run_returns [of backward_run 0] by (auto simp: backward_run_def)
  have "window_of s' = win_run cfg_S1 (map fst backward_run) (window_of (state_with 0))"
    by (rule run_packets_window [OF s'])
  also have "\<dots> = (2, 3, [0, 1, 1])"
    by (simp add: backward_run_def window_of_start pkt_blk_num_of_frame_at)
  finally have "finalized_nums (events s') = [0, 1, 1]" by (simp add: window_of_def)
  then show ?thesis by (simp add: s')
qed

subsection \<open>Blocks handed downstream without a packet\<close>

lemma finalized_blocks_append [simp]:
  "finalized_blocks (xs @ ys) = finalized_blocks xs @ finalized_blocks ys"
  by (simp add: finalized_blocks_def)

lemma finalized_blocks_simps [simp]:
  "finalized_blocks [] = []"
  "finalized_blocks (Finalized bi # es) = bi # finalized_blocks es"
  "finalized_blocks (StatusUpdate p # es) = finalized_blocks es"
  "finalized_blocks (WaitedFree i # es) = finalized_blocks es"
  "finalized_blocks (Warned p # es) = finalized_blocks es"
  by (simp_all add: finalized_blocks_def)

lemma finalize_block_eq:
  assumes "0 \<le> sint (block_idx_out bi)"
  shows "finalize_block bi db =
     Inr (finalized bi,
          db\<lparr>header := (header db)(block_idx_out bi :=
                 finalize_header (finalized bi) (header db (block_idx_out bi))),
             filled := (filled db)(block_idx_out bi := True)\<rparr>)"
  using assms
  by (simp add: finalize_block_def finalized_def finalize_header_def Let_def)

lemma blocks_of_pre_manage [simp]:
  "blocks_of (pre_manage cfg fp f s) = blocks_of s"
  by (simp add: blocks_of_def pre_manage_same pre_manage_events)

lemma manage_blocks_blocks:
  assumes m: "manage_blocks cfg fp env B p s = Inr s'"
  shows "blocks_of s' = blk_manage cfg (n_block (dbout s)) B (blocks_of s)
         \<and> n_block (dbout s') = n_block (dbout s)"
  using m
proof (cases rule: manage_blocks_cases)
  case advance
  from advance_blocks_Inr [OF advance(2)] obtain w0 db1 w1 b' db' where
    f: "finalize_block (wblk0 s) (dbout s) = Inr (w0, db1)"
    and i: "increment_block (wblk1 s) db1 B = Inr w1"
    and w: "wait_for_block_free w1 (status_key cfg) env
              (snd (check_start_stop (ATASNAP_DEFAULT_PKTNTIME cfg) fp (st_buf s)
                      (block_num (wblk1 s) * ucast (run_pktidx_per_block cfg)))) db1
            = Inr (b', db')"
    and s': "s' = s\<lparr>wblk0 := wblk1 s, wblk1 := w1, dbout := db', st_buf := b',
                     ndrop_total := ndrop_total s + ucast (ndrop w0),
                     events := events s @ [Finalized w0, WaitedFree (block_idx_out w1)]\<rparr>"
    by blast
  have idx: "0 \<le> sint (block_idx_out (wblk0 s))" by (rule finalize_block_Inr(1) [OF f])
  have w0: "w0 = finalized (wblk0 s)" using f by (simp add: finalize_block_eq [OF idx])
  have nb1: "n_block db1 = n_block (dbout s)" by (rule finalize_block_Inr(5) [OF f])
  have w1: "w1 = next_block (n_block (dbout s)) B (wblk1 s)"
    using increment_block_Inr(1) [OF i] by (simp add: next_block_def nb1)
  have nb: "n_block db' = n_block (dbout s)"
    using wait_for_block_free_db [OF w] nb1 by simp
  show ?thesis using advance(1) s' w0 w1 nb by (simp add: blocks_of_def)
next
  case reinit
  then show ?thesis
    by (simp add: blocks_of_def reinit_blocks_eq discontinuity_def)
next
  case late
  then show ?thesis by (auto simp: blocks_of_def discontinuity_def)
next
  case inside
  then show ?thesis by (auto simp: blocks_of_def discontinuity_def)
qed

lemma store_packet_stored:
  assumes "store_packet cfg f bi db = Inr (bi', db')"
  shows "bi' = stored cfg bi"
  using store_packet_Inr(1) [OF assms] by (simp add: stored_def)

lemma place_packet_blocks:
  assumes p: "place_packet cfg f B s = Inr s'"
  shows "blocks_of s' = blk_place cfg B (blocks_of s)
         \<and> n_block (dbout s') = n_block (dbout s)
         \<and> header (dbout s') = header (dbout s) \<and> filled (dbout s') = filled (dbout s)"
proof (cases "0 \<le> sint (wblk_idx B s) \<and> sint (wblk_idx B s) < 2")
  case False
  then have "s' = s" using p by (simp add: place_packet_outside)
  then show ?thesis using False by (auto simp: blocks_of_def wblk_idx_def Let_def)
next
  case True
  show ?thesis
  proof (cases "wblk_idx B s = 0")
    case z: True
    then obtain bi db where st: "store_packet cfg f (wblk0 s) (dbout s) = Inr (bi, db)"
      and s': "s' = s\<lparr>wblk0 := bi, dbout := db\<rparr>"
      using p True by (auto simp: place_packet_def Let_def split: sum.splits)
    show ?thesis
      using s' store_packet_stored [OF st] store_packet_Inr(2-4) [OF st] z True
      by (simp add: blocks_of_def wblk_idx_def Let_def)
  next
    case nz: False
    then obtain bi db where st: "store_packet cfg f (wblk1 s) (dbout s) = Inr (bi, db)"
      and s': "s' = s\<lparr>wblk1 := bi, dbout := db\<rparr>"
      using p True by (auto simp: place_packet_def Let_def split: sum.splits)
    show ?thesis
      using s' store_packet_stored [OF st] store_packet_Inr(2-4) [OF st] nz True
      by (simp add: blocks_of_def wblk_idx_def Let_def)
  qed
qed

lemma process_packet_blocks:
  assumes run: "process_packet cfg fp env f s = Inr s'"
  shows "blocks_of s' =
           (if rejected cfg f then blocks_of s
            else blk_place cfg (pkt_blk_num_of cfg f)
                   (blk_manage cfg (n_block (dbout s)) (pkt_blk_num_of cfg f) (blocks_of s)))
         \<and> n_block (dbout s') = n_block (dbout s)"
proof (cases "rejected cfg f")
  case True
  then show ?thesis using run by (simp add: process_packet_rejected)
next
  case False
  from process_packet_Inr [OF run False] obtain s3 where
    m: "manage_blocks cfg fp env (pkt_blk_num_of cfg f) (pktidx (info f))
              (pre_manage cfg fp f s) = Inr s3"
    and p: "place_packet cfg f (pkt_blk_num_of cfg f) s3 = Inr s'"
    by blast
  show ?thesis
    using manage_blocks_blocks [OF m] place_packet_blocks [OF p] False
    by (simp add: pre_manage_same)
qed

lemma run_packets_blocks:
  assumes "run_packets cfg fp fs s = Inr s'"
  shows "blocks_of s' = blk_run cfg (n_block (dbout s)) (map fst fs) (blocks_of s)
         \<and> n_block (dbout s') = n_block (dbout s)"
  using assms
proof (induction fs arbitrary: s)
  case Nil
  then show ?case by simp
next
  case (Cons a fs)
  obtain f env where a: "a = (f, env)" by (cases a)
  from Cons.prems a obtain s1 where
    s1: "process_packet cfg fp env f s = Inr s1" and r: "run_packets cfg fp fs s1 = Inr s'"
    by (auto split: sum.splits)
  show ?case
    using Cons.IH [OF r] process_packet_blocks [OF s1] a by simp
qed

lemma process_packet_headers:
  assumes run: "process_packet cfg fp env f s = Inr s'"
  shows "header (dbout s') =
     (if \<not> rejected cfg f \<and> pkt_blk_num_of cfg f = block_num (wblk1 s) + 1
      then ((header (dbout s))(block_idx_out (wblk0 s) :=
              finalize_header (finalized (wblk0 s)) (header (dbout s) (block_idx_out (wblk0 s)))))
             (block_idx_out (wblk1 s') := st_buf s')
      else header (dbout s))"
    and "filled (dbout s') =
     (if \<not> rejected cfg f \<and> pkt_blk_num_of cfg f = block_num (wblk1 s) + 1
      then ((filled (dbout s))(block_idx_out (wblk0 s) := True))
             (block_idx_out (wblk1 s') := False)
      else filled (dbout s))"
proof -
  have "header (dbout s') =
     (if \<not> rejected cfg f \<and> pkt_blk_num_of cfg f = block_num (wblk1 s) + 1
      then ((header (dbout s))(block_idx_out (wblk0 s) :=
              finalize_header (finalized (wblk0 s)) (header (dbout s) (block_idx_out (wblk0 s)))))
             (block_idx_out (wblk1 s') := st_buf s')
      else header (dbout s))
    \<and> filled (dbout s') =
     (if \<not> rejected cfg f \<and> pkt_blk_num_of cfg f = block_num (wblk1 s) + 1
      then ((filled (dbout s))(block_idx_out (wblk0 s) := True))
             (block_idx_out (wblk1 s') := False)
      else filled (dbout s))"
  proof (cases "rejected cfg f")
    case True
    then show ?thesis using run by (simp add: process_packet_rejected)
  next
    case acc: False
    show ?thesis
    proof (cases "pkt_blk_num_of cfg f = block_num (wblk1 s) + 1")
      case adv: True
      from process_packet_advance [OF run acc adv] obtain w0 db1 w1 b db2 where
        f: "finalize_block (wblk0 s) (dbout s) = Inr (w0, db1)"
        and w: "wait_for_block_free w1 (status_key cfg) env b db1 = Inr (st_buf s', db2)"
        and st: "store_packet cfg f w1 db2 = Inr (wblk1 s', dbout s')"
        by blast
      have idx: "0 \<le> sint (block_idx_out (wblk0 s))" by (rule finalize_block_Inr(1) [OF f])
      have db1: "db1 = (dbout s)\<lparr>header := (header (dbout s))(block_idx_out (wblk0 s) :=
                   finalize_header (finalized (wblk0 s))
                     (header (dbout s) (block_idx_out (wblk0 s)))),
                 filled := (filled (dbout s))(block_idx_out (wblk0 s) := True)\<rparr>"
        using f by (auto simp: finalize_block_eq [OF idx])
      have slot: "block_idx_out (wblk1 s') = block_idx_out w1"
        using store_packet_Inr(1) [OF st] by simp
      show ?thesis
        using acc adv store_packet_Inr(3,4) [OF st] wait_for_block_free_db [OF w] db1 slot
        by simp
    next
      case nadv: False
      from process_packet_Inr [OF run acc] obtain s3 where
        m: "manage_blocks cfg fp env (pkt_blk_num_of cfg f) (pktidx (info f))
              (pre_manage cfg fp f s) = Inr s3"
        and p: "place_packet cfg f (pkt_blk_num_of cfg f) s3 = Inr s'"
        by blast
      have "dbout s3 = dbout s"
        using m nadv
        by (cases rule: manage_blocks_cases)
           (simp_all add: pre_manage_same reinit_blocks_eq)
      then show ?thesis using place_packet_blocks [OF p] nadv by simp
    qed
  qed
  then show "header (dbout s') =
     (if \<not> rejected cfg f \<and> pkt_blk_num_of cfg f = block_num (wblk1 s) + 1
      then ((header (dbout s))(block_idx_out (wblk0 s) :=
              finalize_header (finalized (wblk0 s)) (header (dbout s) (block_idx_out (wblk0 s)))))
             (block_idx_out (wblk1 s') := st_buf s')
      else header (dbout s))"
    and "filled (dbout s') =
     (if \<not> rejected cfg f \<and> pkt_blk_num_of cfg f = block_num (wblk1 s) + 1
      then ((filled (dbout s))(block_idx_out (wblk0 s) := True))
             (block_idx_out (wblk1 s') := False)
      else filled (dbout s))"
    by simp_all
qed

lemma finalized_empty:
  assumes "npacket bi = 0" and "ndrop bi = 0"
  shows "finalized bi = bi\<lparr>ndrop := ucast (pkts_per_block bi)\<rparr>"
proof (cases "pkts_per_block bi = 0")
  case True
  then have "bi\<lparr>ndrop := ucast (pkts_per_block bi)\<rparr> = bi" using assms(2) by (cases bi) simp
  then show ?thesis using True assms by (simp add: finalized_def)
next
  case False
  then have "0 < pkts_per_block bi" by (simp add: word_neq_0_conv)
  then show ?thesis using assms by (simp add: finalized_def)
qed

lemma fresh_thread_Inr:
  "\<exists>s. fresh_thread g0 g1 s0 = Inr s
       \<and> wblk0 s = g0\<lparr>block_idx_out := 0, block_num := 0, npacket := 0, ndrop := 0\<rparr>
       \<and> wblk1 s = g1\<lparr>block_idx_out := 1, block_num := 1, npacket := 0, ndrop := 0\<rparr>
       \<and> n_block (dbout s) = 4 \<and> events s = []"
  by (simp add: fresh_thread_def start_of_run_def init_working_blocks_def init_block_info_def
      reset_block_info_stats_def wait_for_block_free_def env_free_def db_empty_def Let_def)

lemma unwritten_blocks:
  "blk_run cfg_S1 4 (map fst unwritten_run)
     (g0\<lparr>block_idx_out := 0, block_num := 0, npacket := 0, ndrop := 0\<rparr>,
      g1\<lparr>block_idx_out := 1, block_num := 1, npacket := 0, ndrop := 0\<rparr>, [])
   = (g1\<lparr>block_idx_out := 2, block_num := 2, npacket := 1, ndrop := 0,
          pktidx_per_block := 128, pkts_per_block := 128\<rparr>,
      g1\<lparr>block_idx_out := 3, block_num := 3, npacket := 1, ndrop := 0,
          pktidx_per_block := 128, pkts_per_block := 128\<rparr>,
      [g0\<lparr>block_idx_out := 0, block_num := 0, npacket := 1, ndrop := 127,
           pktidx_per_block := 128, pkts_per_block := 128\<rparr>,
       g1\<lparr>block_idx_out := 1, block_num := 1, npacket := 0,
           ndrop := ucast (pkts_per_block g1)\<rparr>])"
  by (simp add: unwritten_run_def rejected_def pkt_blk_num_of_def cfg_S1_def frame_at_def
      frame_sized_def stored_def next_block_def run_pkts_per_block_def finalized_def
      word_gt_0)

lemma finalize_header_cards:
  "finalize_header bi h ''PKTIDX'' = Some (HInt (sint (block_num bi * pktidx_per_block bi)))"
  "finalize_header bi h ''NPKT'' = Some (HInt (sint (npacket bi)))"
  "finalize_header bi h ''NDROP'' = Some (HInt (sint (ndrop bi)))"
  "finalize_header bi h ''DROPSTAT'' = Some (HStr (dropstat bi))"
  by (simp_all add: finalize_header_def hputs_def hputi4_def hputi8_def)

text \<open>
  C6 fails on the code for a block that is handed downstream before a packet was
  stored in it. \<^verbatim>\<open>finalize_block\<close> computes from the fields \<^verbatim>\<open>pkts_per_block\<close> and
  \<^verbatim>\<open>pktidx_per_block\<close> of the \<^verbatim>\<open>block_info\<close>, and \<^verbatim>\<open>run\<close> sets these fields only when it
  stores a packet in the block. After the start of the thread, the frames with the
  packet indices 5, 256 and 384 (blocks 0, 2 and 3) hand down block 0 and then block 1.
  Block 0 has one packet, and its header is as the claim says: \<open>PKTIDX = 0\<close>,
  \<open>NPKT = 1\<close>, \<open>NDROP = 127\<close> and \<open>DROPSTAT\<close> = "127/128". Block 1 has none: \<open>PKTIDX\<close>,
  \<open>NDROP\<close> and \<open>DROPSTAT\<close> of its header come from what the two fields held before the
  initialisation (those of \<open>g1\<close>), where the claim gives \<open>PKTIDX = 1 \<times> 128\<close>,
  \<open>NDROP = 128\<close> and \<open>DROPSTAT\<close> = "128/128".
\<close>

theorem unwritten_block_handed_down:
  "let s = projr (fresh_thread g0 g1 s0);
       s' = projr (run_packets cfg_S1 fp unwritten_run s);
       nd = (ucast (pkts_per_block g1) :: i32)
   in \<not> isl (fresh_thread g0 g1 s0) \<and> \<not> isl (run_packets cfg_S1 fp unwritten_run s)
      \<and> finalized_blocks (events s')
          = [\<lparr>block_idx_out = 0, block_num = 0, pktidx_per_block = 128, pkts_per_block = 128,
               npacket = 1, ndrop = 127\<rparr>,
             \<lparr>block_idx_out = 1, block_num = 1, pktidx_per_block = pktidx_per_block g1,
               pkts_per_block = pkts_per_block g1, npacket = 0, ndrop = nd\<rparr>]
      \<and> header (dbout s') 0 ''PKTIDX'' = Some (HInt 0)
      \<and> header (dbout s') 0 ''NPKT'' = Some (HInt 1)
      \<and> header (dbout s') 0 ''NDROP'' = Some (HInt 127)
      \<and> header (dbout s') 0 ''DROPSTAT'' = Some (HStr ''127/128'')
      \<and> filled (dbout s') 0
      \<and> header (dbout s') 1 ''PKTIDX'' = Some (HInt (sint (pktidx_per_block g1)))
      \<and> header (dbout s') 1 ''NPKT'' = Some (HInt 0)
      \<and> header (dbout s') 1 ''NDROP'' = Some (HInt (sint nd))
      \<and> header (dbout s') 1 ''DROPSTAT''
          = Some (HStr (show_int (sint nd) @ ''/'' @ show_nat (unat (pkts_per_block g1))))
      \<and> filled (dbout s') 1"
proof -
  obtain i0 n0 u0 v0 k0 d0 where
    g0: "g0 = \<lparr>block_idx_out = i0, block_num = n0, pktidx_per_block = u0, pkts_per_block = v0,
                npacket = k0, ndrop = d0\<rparr>"
    by (cases g0) auto
  obtain i1 n1 u1 v1 k1 d1 where
    g1: "g1 = \<lparr>block_idx_out = i1, block_num = n1, pktidx_per_block = u1, pkts_per_block = v1,
                npacket = k1, ndrop = d1\<rparr>"
    by (cases g1) auto
  let ?w0 = "\<lparr>block_idx_out = 0, block_num = 0, pktidx_per_block = u0, pkts_per_block = v0,
               npacket = 0, ndrop = 0\<rparr> :: block_info"
  let ?w1 = "\<lparr>block_idx_out = 1, block_num = 1, pktidx_per_block = u1, pkts_per_block = v1,
               npacket = 0, ndrop = 0\<rparr> :: block_info"
  let ?b0 = "\<lparr>block_idx_out = 0, block_num = 0, pktidx_per_block = 128, pkts_per_block = 128,
               npacket = 1, ndrop = 127\<rparr> :: block_info"
  let ?b1 = "\<lparr>block_idx_out = 1, block_num = 1, pktidx_per_block = u1, pkts_per_block = v1,
               npacket = 0, ndrop = ucast v1\<rparr> :: block_info"
  let ?n2 = "\<lparr>block_idx_out = 2, block_num = 2, pktidx_per_block = 128, pkts_per_block = 128,
               npacket = 1, ndrop = 0\<rparr> :: block_info"
  let ?n3 = "\<lparr>block_idx_out = 3, block_num = 3, pktidx_per_block = 128, pkts_per_block = 128,
               npacket = 1, ndrop = 0\<rparr> :: block_info"
  from fresh_thread_Inr [of g0 g1 s0] obtain s where
    s: "fresh_thread g0 g1 s0 = Inr s" and w0: "wblk0 s = ?w0" and w1: "wblk1 s = ?w1"
    and nb: "n_block (dbout s) = 4" and ev: "events s = []"
    by (auto simp: g0 g1)
  have ok: "slots_ok s" using w0 w1 nb by (simp add: slots_ok_def)
  have "\<exists>s'. run_packets cfg_S1 fp unwritten_run s = Inr s'"
    using ok
    by (intro run_packets_returns)
       (simp_all add: cfg_S1_def unwritten_run_def env_free_def)
  then obtain s' where s': "run_packets cfg_S1 fp unwritten_run s = Inr s'" by blast
  from s' obtain s1 s2 where
    p1: "process_packet cfg_S1 fp env_free (frame_at 5) s = Inr s1"
    and p2: "process_packet cfg_S1 fp env_free (frame_at 256) s1 = Inr s2"
    and p3: "process_packet cfg_S1 fp env_free (frame_at 384) s2 = Inr s'"
    by (auto simp: unwritten_run_def split: sum.splits)
  have acc: "\<not> rejected cfg_S1 (frame_at 5)" "\<not> rejected cfg_S1 (frame_at 256)"
    "\<not> rejected cfg_S1 (frame_at 384)"
    by (simp_all add: rejected_def cfg_S1_def frame_at_def frame_sized_def)
  have B: "pkt_blk_num_of cfg_S1 (frame_at 5) = 0" "pkt_blk_num_of cfg_S1 (frame_at 256) = 2"
    "pkt_blk_num_of cfg_S1 (frame_at 384) = 3"
    by (simp_all add: pkt_blk_num_of_def cfg_S1_def frame_at_def frame_sized_def)
  have ppb: "run_pkts_per_block cfg_S1 = 128" "run_pktidx_per_block cfg_S1 = 128"
    by (simp_all add: run_pkts_per_block_def cfg_S1_def)
  have b1: "blocks_of s1 = (\<lparr>block_idx_out = 0, block_num = 0, pktidx_per_block = 128,
                              pkts_per_block = 128, npacket = 1, ndrop = 0\<rparr>, ?w1, [])"
    and nb1: "n_block (dbout s1) = 4"
    using process_packet_blocks [OF p1] acc B w0 w1 nb ev
    by (simp_all add: blocks_of_def stored_def ppb)
  have b2: "blocks_of s2 = (?w1, ?n2, [?b0])" and nb2: "n_block (dbout s2) = 4"
    using process_packet_blocks [OF p2] acc B b1 nb1
    by (simp_all add: stored_def next_block_def finalized_def ppb)
  have fin1: "finalized ?w1 = ?b1" by (simp add: finalized_empty)
  have b3: "blocks_of s' = (?n2, ?n3, [?b0, ?b1])"
    using process_packet_blocks [OF p3] acc B b2 nb2
    by (simp add: stored_def next_block_def fin1 ppb)
  have h2: "header (dbout s2) 0 = finalize_header ?b0 (header (dbout s1) 0)"
    "filled (dbout s2) 0"
    using process_packet_headers [OF p2] acc B b1 b2
    by (simp_all add: blocks_of_def finalized_def)
  have h3: "header (dbout s') 0 = header (dbout s2) 0" "filled (dbout s') 0 = filled (dbout s2) 0"
    "header (dbout s') 1 = finalize_header ?b1 (header (dbout s2) 1)" "filled (dbout s') 1"
    using process_packet_headers [OF p3] acc B b2 b3
    by (simp_all add: blocks_of_def fin1)
  have d0: "dropstat ?b0 = ''127/128''"
    by (simp add: dropstat_def show_int_def show_nat.simps digit_char_def)
  have c0: "header (dbout s') 0 ''PKTIDX'' = Some (HInt 0)"
    "header (dbout s') 0 ''NPKT'' = Some (HInt 1)"
    "header (dbout s') 0 ''NDROP'' = Some (HInt 127)"
    "header (dbout s') 0 ''DROPSTAT'' = Some (HStr ''127/128'')"
    using d0 by (simp_all add: h3 h2 finalize_header_cards)
  have c1: "header (dbout s') 1 ''PKTIDX'' = Some (HInt (sint u1))"
    "header (dbout s') 1 ''NPKT'' = Some (HInt 0)"
    "header (dbout s') 1 ''NDROP'' = Some (HInt (sint (ucast v1 :: i32)))"
    "header (dbout s') 1 ''DROPSTAT''
       = Some (HStr (show_int (sint (ucast v1 :: i32)) @ ''/'' @ show_nat (unat v1)))"
    by (simp_all add: h3 finalize_header_cards dropstat_def)
  have f1: "pktidx_per_block g1 = u1" "pkts_per_block g1 = v1" by (simp_all add: g1)
  show ?thesis
    using b3 h2 h3 c0 c1
    by (simp add: Let_def s s' blocks_of_def f1)
qed

end
